(* ===== verification/Prelude.thy ===== *)
theory Prelude
  imports Main "HOL-Library.Word" "HOL-Library.Monad_Syntax"
begin

text \<open>
  The base of the library: the C types the drivers use, the errno values, pointers, the
  collections of rewrite rules of the development, and generic lemmas on lists, maps and
  words that several components share.

  A C function that can run into undefined behaviour (a NULL or dangling dereference, an
  array access out of range: a kernel oops) is modelled in the option monad, \<open>None\<close>
  being the oops. A C function that cannot is a plain function on its state.
\<close>

section \<open>C types\<close>

type_synonym byte = "8 word"       \<comment> \<open>char, u8\<close>
type_synonym u32 = "32 word"       \<comment> \<open>unsigned int, u32, atomic\_t\<close>
type_synonym size_t = "64 word"    \<comment> \<open>size\_t on the 64-bit target\<close>
type_synonym ulong = "64 word"     \<comment> \<open>unsigned long: jiffies, addresses\<close>

text \<open>
  A pointer is NULL, the address of a static object (the C variable, an array index and the
  member inside it) or an address the kernel allocated. A pointer to a struct is a pointer to its
  first member, so \<open>&devs[i]\<close> and \<open>&devs[i].cdev\<close> are one pointer where \<open>cdev\<close> is the first
  member.
\<close>

datatype ptr = Null | Static string nat string | Heap int

definition ptr_of :: "int \<Rightarrow> ptr" where
  "ptr_of r = (if r = 0 then Null else Heap r)"

lemma ptr_of_simps [simp]:
  "ptr_of 0 = Null" "r \<noteq> 0 \<Longrightarrow> ptr_of r = Heap r"
  "ptr_of r = Null \<longleftrightarrow> r = 0" "ptr_of r = Heap a \<longleftrightarrow> r = a \<and> r \<noteq> 0"
  "ptr_of r \<noteq> Static v i m" "Static v i m \<noteq> ptr_of r"
  by (auto simp: ptr_of_def)

section \<open>Error numbers\<close>

definition EPERM :: int where "EPERM = 1"
definition ESRCH :: int where "ESRCH = 3"
definition EIO :: int where "EIO = 5"
definition ENOMEM :: int where "ENOMEM = 12"
definition EFAULT :: int where "EFAULT = 14"
definition EBUSY :: int where "EBUSY = 16"
definition EINVAL :: int where "EINVAL = 22"

lemmas errno_defs = EPERM_def ESRCH_def EIO_def ENOMEM_def EFAULT_def EBUSY_def EINVAL_def

section \<open>Words in memory\<close>

text \<open>A 32-bit number and its bytes in memory, least significant first.\<close>

definition u32_of_bytes :: "byte list \<Rightarrow> u32" where
  "u32_of_bytes bs = foldr (\<lambda>b w. or (ucast b) (push_bit 8 w)) bs 0"

definition bytes_of :: "u32 \<Rightarrow> byte list" where
  "bytes_of a = map (\<lambda>k. ucast (drop_bit (8 * k) a)) [0..<4]"

lemma u32_of_bytes_of: "u32_of_bytes (bytes_of a) = a"
proof (rule bit_word_eqI)
  fix n assume "n < LENGTH(32)"
  then have "n < 8 \<or> 8 \<le> n \<and> n < 16 \<or> 16 \<le> n \<and> n < 24 \<or> 24 \<le> n \<and> n < 32" by auto
  then show "bit (u32_of_bytes (bytes_of a)) n \<longleftrightarrow> bit a n"
    by (elim disjE) (auto simp: u32_of_bytes_def bytes_of_def upt_rec bit_simps)
qed

lemma bytes_of_u32: "length bs = 4 \<Longrightarrow> bytes_of (u32_of_bytes bs) = bs"
proof -
  assume "length bs = 4"
  then obtain a b c d where bs: "bs = [a, b, c, d]"
    by (auto simp: numeral_eq_Suc length_Suc_conv)
  show ?thesis unfolding bs
    by (auto simp: bytes_of_def u32_of_bytes_def upt_rec intro!: bit_word_eqI) (auto simp: bit_simps dest: bit_imp_le_length)
qed

section \<open>Shared rewrite collections\<close>

named_theorems kcall_simps \<open>how one kernel call changes a module's state\<close>
named_theorems log_simps \<open>what a query of the call log gives after one more call\<close>

section \<open>Generic lemmas\<close>

lemma bind_Some_conv:
  "Option.bind x f = Some y \<longleftrightarrow> (\<exists>a. x = Some a \<and> f a = Some y)"
  by (cases x) auto

lemma set_take_upto: "x \<in> set (take n xs) \<Longrightarrow> x \<in> set xs"
  by (rule in_set_takeD)

lemma takeWhile_all_eq: "(\<And>x. x \<in> set xs \<Longrightarrow> P x) \<Longrightarrow> takeWhile P xs = xs"
  by (simp add: takeWhile_eq_all_conv)

lemma unat_less_64: "unat (w :: 64 word) < 18446744073709551616"
  using unsigned_less [of w] by simp

lemma unat_minus_one_64: "(w :: 64 word) \<noteq> 0 \<Longrightarrow> unat (w - 1) = unat w - 1"
  by (metis unat_minus_one)

lemma unat_plus_one_64:
  "unat (w :: 64 word) + 1 < 2 ^ 64 \<Longrightarrow> unat (w + 1) = unat w + 1"
  by (simp add: unat_word_ariths)

text \<open>An association list with one entry more, in the middle.\<close>

lemma map_of_middle:
  "k \<notin> fst ` set xs \<Longrightarrow> map_of (xs @ (k, v) # ys) = (map_of (xs @ ys))(k \<mapsto> v)"
  by (induction xs) (auto simp: fun_upd_twist)

lemma map_of_middle_delete:
  "k \<notin> fst ` set (xs @ ys) \<Longrightarrow> (map_of (xs @ (k, v) # ys))(k := None) = map_of (xs @ ys)"
  by (subst map_of_middle) (auto simp: fun_upd_idem_iff map_of_eq_None_iff simp del: map_of_append)

end
