(* ===== verification/Kernel.thy ===== *)
theory Kernel
  imports Prelude
begin

text \<open>
  The kernel as the modules see it. The kernel's own code is not part of the repository, so
  it is a parameter: \<open>kernel\<close> holds two functions that, from the whole history of calls and the
  call being made, give the value the call returns and the bytes it delivers. Nothing is
  assumed about them in the definitions; a theorem that relies on documented behaviour names it as
  a hypothesis (for example \<open>kmalloc_fresh\<close>).

  Every call a module makes is appended to the log \<open>klog\<close> with the value it returned. What the
  module holds at a point (memory, I/O ports, interrupt lines, locks, device numbers) is read off
  the log.
\<close>

section \<open>Calls\<close>

type_synonym dev_t = "nat \<times> nat"

definition MKDEV :: "nat \<Rightarrow> nat \<Rightarrow> dev_t" where "MKDEV ma mi = (ma, mi)"

datatype chrdev_call =
    Register_chrdev_region dev_t nat string
  | Unregister_chrdev_region dev_t nat
  | Cdev_init ptr string
  | Cdev_add ptr dev_t nat
  | Cdev_del ptr

datatype port_call =
    Request_region nat nat string
  | Release_region nat nat
  | Inb nat
  | Request_irq nat string string string ptr
  | Free_irq nat ptr

datatype mem_call =
    Kmalloc nat string
  | Kfree ptr
  | Uninit ptr string
  | Put_user ptr nat byte
  | Copy_to_user ptr "byte list"
  | Copy_from_user ptr nat

datatype sync_call =
    Spin_lock_init ptr
  | Spin_lock ptr
  | Spin_unlock ptr
  | Spin_lock_irqsave ptr
  | Spin_unlock_irqrestore ptr
  | Read_lock ptr
  | Read_unlock ptr
  | Write_lock ptr
  | Write_unlock ptr
  | Spin_lock_bh ptr
  | Spin_unlock_bh ptr
  | Rcu_read_lock
  | Rcu_read_unlock
  | Mmap_read_lock ptr
  | Mmap_read_unlock ptr

datatype time_call =
    Jiffies
  | Set_current_state string
  | Schedule_timeout ulong
  | Timer_setup ptr string
  | Mod_timer ptr ulong
  | Del_timer ptr
  | Del_timer_sync ptr
  | Schedule_timeout_interruptible ulong
  | Init_work ptr string
  | Schedule_work ptr
  | Cancel_work_sync ptr

text \<open>
  Sockets. \<open>Sock_stored v\<close> is not a call of its own: its answer is the pointer to the new socket that the call before it
  stored through its last argument, the variable \<open>v\<close>, and 0 if it stored none. A socket address is the family, the port and the
  address, both in network byte order.
\<close>

type_synonym sockaddr_in = "string \<times> 16 word \<times> u32"

datatype net_call =
    Sock_create_kern string string string
  | Sock_create_lite string string string
  | Sock_stored string
  | Sock_bind ptr sockaddr_in
  | Sock_listen ptr nat
  | Sock_accept ptr ptr int bool
  | Sock_getname ptr int
  | Kernel_sendmsg ptr sockaddr_in string
  | Sock_release ptr
  | Nf_register_net_hook string
  | Nf_unregister_net_hook string

datatype parg = PInt int | PUlong ulong | PStr string | PAddr u32

text \<open>Entries in \<open>/dev\<close> and \<open>/proc\<close>, and output to a seq file.\<close>

datatype entry_call =
    Misc_register string
  | Misc_deregister string
  | Proc_create string
  | Remove_proc_entry string
  | Single_open string
  | Seq_printf string "parg list"

text \<open>Pages, by the kernel virtual address of their first byte, and the mapping of page frames to a process.\<close>

datatype page_call =
    Vmalloc nat
  | Vfree ptr
  | SetPageReserved ulong
  | ClearPageReserved ulong
  | Virt_to_phys ulong
  | Vmalloc_to_pfn ulong
  | Remap_pfn_range ulong ulong ulong

text \<open>Other tasks: looking one up, counting references to it, its state, and its memory map.\<close>

datatype task_call =
    Find_task int
  | Get_task_struct ptr
  | Put_task_struct ptr
  | Task_state ptr
  | Task_pid ptr
  | Task_comm ptr
  | Get_task_mm
  | Mmput ptr

datatype print_call =
    Pr_info string "parg list"
  | Pr_debug string "parg list"
  | Printk string "parg list"

datatype kcall =
    Chrdev chrdev_call
  | Port port_call
  | Mem mem_call
  | Sync sync_call
  | Time time_call
  | Print print_call
  | Net net_call
  | Entry entry_call
  | Page page_call
  | Task task_call

type_synonym klog = "(kcall \<times> int) list"

record kernel =
  kret :: "klog \<Rightarrow> kcall \<Rightarrow> int"
  kbytes :: "klog \<Rightarrow> kcall \<Rightarrow> byte list"

text \<open>The state every module has: its call log. Each module extends it by its own variables.\<close>

record kstate =
  klog :: klog

definition kcall :: "kernel \<Rightarrow> kcall \<Rightarrow> 'a kstate_scheme \<Rightarrow> int \<times> 'a kstate_scheme" where
  "kcall K c s = (let r = kret K (klog s) c in (r, s\<lparr>klog := klog s @ [(c, r)]\<rparr>))"

text \<open>A call whose result the code drops.\<close>

definition kdo :: "kernel \<Rightarrow> kcall \<Rightarrow> 'a kstate_scheme \<Rightarrow> 'a kstate_scheme" where
  "kdo K c s = snd (kcall K c s)"

lemma kcall_fst [kcall_simps]: "fst (kcall K c s) = kret K (klog s) c"
  by (simp add: kcall_def Let_def)

lemma kcall_snd [kcall_simps]: "snd (kcall K c s) = kdo K c s"
  by (simp add: kdo_def)

lemma kcall_eq: "kcall K c s = (kret K (klog s) c, kdo K c s)"
  by (simp add: kdo_def kcall_def Let_def)

lemma kdo_klog: "klog (kdo K c s) = klog s @ [(c, kret K (klog s) c)]"
  by (simp add: kdo_def kcall_def Let_def)

lemma kdo_eq: "kdo K c s = s\<lparr>klog := klog s @ [(c, kret K (klog s) c)]\<rparr>"
  by (simp add: kdo_def kcall_def Let_def)

text \<open>What a driver sees of an open file and of the inode it was opened through.\<close>

record inode =
  i_cdev :: ptr

record kfile =
  private_data :: ptr

section \<open>Queries of the log\<close>

text \<open>
  Resources. A call can hand a resource to the module (\<open>gain\<close>, which depends on what the call
  returned) or give one back (\<open>loss\<close>). \<open>acct h\<close> is, after the calls of \<open>h\<close>, the list of what the
  module holds and the list of what it gave back without holding it (a release of somebody else's
  resource, or a double release).
\<close>

datatype res =
    RMem ptr
  | RPort nat nat
  | RIrq nat ptr
  | RRegion dev_t nat
  | RCdev ptr
  | RSock ptr
  | RHook string
  | RMisc string
  | RProc string
  | RVmem ptr
  | RTask ptr
  | RMm ptr
  | RReserved ulong

fun gain_mem :: "mem_call \<Rightarrow> int \<Rightarrow> res option" where
  "gain_mem (Kmalloc n f) r = (if r = 0 then None else Some (RMem (Heap r)))"
| "gain_mem _ r = None"

fun gain_port :: "port_call \<Rightarrow> int \<Rightarrow> res option" where
  "gain_port (Request_region p n nm) r = (if r = 0 then None else Some (RPort p n))"
| "gain_port (Request_irq irq hdl fl nm d) r = (if r = 0 then Some (RIrq irq d) else None)"
| "gain_port _ r = None"

fun gain_chrdev :: "chrdev_call \<Rightarrow> int \<Rightarrow> res option" where
  "gain_chrdev (Register_chrdev_region d n nm) r = (if r = 0 then Some (RRegion d n) else None)"
| "gain_chrdev (Cdev_add c d n) r = (if r = 0 then Some (RCdev c) else None)"
| "gain_chrdev _ r = None"

fun gain_net :: "net_call \<Rightarrow> int \<Rightarrow> res option" where
  "gain_net (Sock_stored v) r = (if r = 0 then None else Some (RSock (Heap r)))"
| "gain_net (Nf_register_net_hook k) r = (if r < 0 then None else Some (RHook k))"
| "gain_net _ r = None"

fun gain_entry :: "entry_call \<Rightarrow> int \<Rightarrow> res option" where
  "gain_entry (Misc_register d) r = (if r = 0 then Some (RMisc d) else None)"
| "gain_entry (Proc_create nm) r = (if r = 0 then None else Some (RProc nm))"
| "gain_entry _ r = None"

fun gain_page :: "page_call \<Rightarrow> int \<Rightarrow> res option" where
  "gain_page (Vmalloc n) r = (if r = 0 then None else Some (RVmem (Heap r)))"
| "gain_page (SetPageReserved a) r = Some (RReserved a)"
| "gain_page _ r = None"

fun gain_task :: "task_call \<Rightarrow> int \<Rightarrow> res option" where
  "gain_task (Get_task_struct t) r = Some (RTask t)"
| "gain_task Get_task_mm r = (if r = 0 then None else Some (RMm (Heap r)))"
| "gain_task _ r = None"

primrec gain :: "kcall \<Rightarrow> int \<Rightarrow> res option" where
  "gain (Chrdev c) r = gain_chrdev c r"
| "gain (Port c) r = gain_port c r"
| "gain (Mem c) r = gain_mem c r"
| "gain (Sync c) r = None"
| "gain (Time c) r = None"
| "gain (Print c) r = None"
| "gain (Net c) r = gain_net c r"
| "gain (Entry c) r = gain_entry c r"
| "gain (Page c) r = gain_page c r"
| "gain (Task c) r = gain_task c r"

fun loss_mem :: "mem_call \<Rightarrow> res option" where
  "loss_mem (Kfree p) = (if p = Null then None else Some (RMem p))"
| "loss_mem _ = None"

fun loss_port :: "port_call \<Rightarrow> res option" where
  "loss_port (Release_region p n) = Some (RPort p n)"
| "loss_port (Free_irq irq d) = Some (RIrq irq d)"
| "loss_port _ = None"

fun loss_chrdev :: "chrdev_call \<Rightarrow> res option" where
  "loss_chrdev (Unregister_chrdev_region d n) = Some (RRegion d n)"
| "loss_chrdev (Cdev_del c) = Some (RCdev c)"
| "loss_chrdev _ = None"

fun loss_net :: "net_call \<Rightarrow> res option" where
  "loss_net (Sock_release p) = Some (RSock p)"
| "loss_net (Nf_unregister_net_hook k) = Some (RHook k)"
| "loss_net _ = None"

fun loss_entry :: "entry_call \<Rightarrow> res option" where
  "loss_entry (Misc_deregister d) = Some (RMisc d)"
| "loss_entry (Remove_proc_entry nm) = Some (RProc nm)"
| "loss_entry _ = None"

fun loss_page :: "page_call \<Rightarrow> res option" where
  "loss_page (Vfree p) = (if p = Null then None else Some (RVmem p))"
| "loss_page (ClearPageReserved a) = Some (RReserved a)"
| "loss_page _ = None"

fun loss_task :: "task_call \<Rightarrow> res option" where
  "loss_task (Put_task_struct t) = Some (RTask t)"
| "loss_task (Mmput m) = Some (RMm m)"
| "loss_task _ = None"

primrec loss :: "kcall \<Rightarrow> res option" where
  "loss (Chrdev c) = loss_chrdev c"
| "loss (Port c) = loss_port c"
| "loss (Mem c) = loss_mem c"
| "loss (Sync c) = None"
| "loss (Time c) = None"
| "loss (Print c) = None"
| "loss (Net c) = loss_net c"
| "loss (Entry c) = loss_entry c"
| "loss (Page c) = loss_page c"
| "loss (Task c) = loss_task c"

fun_cases gain_elims: "gain_mem c r = Some x" "gain_port c r = Some x" "gain_chrdev c r = Some x"
  "gain_net c r = Some x" "gain_entry c r = Some x" "gain_page c r = Some x" "gain_task c r = Some x"

fun_cases loss_elims: "loss_mem c = Some x" "loss_port c = Some x" "loss_chrdev c = Some x"
  "loss_net c = Some x" "loss_entry c = Some x" "loss_page c = Some x" "loss_task c = Some x"

definition acct_step :: "res list \<times> res list \<Rightarrow> kcall \<times> int \<Rightarrow> res list \<times> res list" where
  "acct_step a e =
     (case gain (fst e) (snd e) of
        Some x \<Rightarrow> (x # fst a, snd a)
      | None \<Rightarrow>
          (case loss (fst e) of
             Some x \<Rightarrow>
               if x \<in> set (fst a) then (remove1 x (fst a), snd a) else (fst a, x # snd a)
           | None \<Rightarrow> a))"

definition acct :: "klog \<Rightarrow> res list \<times> res list" where
  "acct h = foldl acct_step ([], []) h"

definition held :: "klog \<Rightarrow> res list" where "held h = fst (acct h)"
definition overreleased :: "klog \<Rightarrow> res list" where "overreleased h = snd (acct h)"

lemma acct_Nil [log_simps]: "acct [] = ([], [])"
  by (simp add: acct_def)

lemma acct_append [log_simps]: "acct (h @ es) = foldl acct_step (acct h) es"
  by (simp add: acct_def)

lemma acct_kdo [log_simps]: "acct (klog (kdo K c s)) = acct_step (acct (klog s)) (c, kret K (klog s) c)"
  by (simp add: acct_def kdo_klog)

lemma acct_held: "acct h = (held h, overreleased h)"
  by (simp add: held_def overreleased_def)

lemma acct_step_simps [log_simps]:
  "gain c r = Some x \<Longrightarrow> acct_step (hs, bs) (c, r) = (x # hs, bs)"
  "gain c r = None \<Longrightarrow> loss c = None \<Longrightarrow> acct_step (hs, bs) (c, r) = (hs, bs)"
  "gain c r = None \<Longrightarrow> loss c = Some x \<Longrightarrow> x \<in> set hs \<Longrightarrow>
     acct_step (hs, bs) (c, r) = (remove1 x hs, bs)"
  "gain c r = None \<Longrightarrow> loss c = Some x \<Longrightarrow> x \<notin> set hs \<Longrightarrow>
     acct_step (hs, bs) (c, r) = (hs, x # bs)"
  by (simp_all add: acct_step_def)

lemma acct_step_frame [log_simps]:
  "acct_step a (Sync c1, r) = a" "acct_step a (Time c2, r) = a" "acct_step a (Print c3, r) = a"
  by (simp_all add: acct_step_def)

text \<open>The I/O ports among the resources held: only the port calls change them.\<close>

fun is_port :: "res \<Rightarrow> bool" where
  "is_port (RPort p n) = True"
| "is_port x = False"

definition held_ports :: "klog \<Rightarrow> res list" where
  "held_ports h = filter is_port (held h)"

lemma held_ports_mem: "RPort p n \<in> set (held h) \<longleftrightarrow> RPort p n \<in> set (held_ports h)"
  by (simp add: held_ports_def)

lemma filter_remove1: "filter P (remove1 x xs) = (if P x then remove1 x (filter P xs) else filter P xs)"
  by (induction xs) auto

lemma held_kdo:
  "held (klog (kdo K c s)) =
     (case gain c (kret K (klog s) c) of Some x \<Rightarrow> x # held (klog s)
      | None \<Rightarrow> (case loss c of Some x \<Rightarrow> remove1 x (held (klog s)) | None \<Rightarrow> held (klog s)))"
  by (auto simp: held_def log_simps acct_step_def remove1_idem split: option.splits)

lemma gain_not_port: "gain c r = Some x \<Longrightarrow> (\<And>p. c \<noteq> Port p) \<Longrightarrow> \<not> is_port x"
  by (cases c) (auto elim!: gain_elims split: if_splits)

lemma loss_not_port: "loss c = Some x \<Longrightarrow> (\<And>p. c \<noteq> Port p) \<Longrightarrow> \<not> is_port x"
  by (cases c) (auto elim!: loss_elims split: if_splits)

lemma held_ports_other:
  "(\<And>p. c \<noteq> Port p) \<Longrightarrow> held_ports (klog (kdo K c s)) = held_ports (klog s)"
  by (auto simp: held_ports_def held_kdo filter_remove1 dest: gain_not_port loss_not_port
      split: option.splits)

lemma held_ports_kdo [log_simps]:
  "held_ports (klog (kdo K (Chrdev a) s)) = held_ports (klog s)"
  "held_ports (klog (kdo K (Mem b) s)) = held_ports (klog s)"
  "held_ports (klog (kdo K (Sync c) s)) = held_ports (klog s)"
  "held_ports (klog (kdo K (Time d) s)) = held_ports (klog s)"
  "held_ports (klog (kdo K (Print e) s)) = held_ports (klog s)"
  "held_ports (klog (kdo K (Net n1) s)) = held_ports (klog s)"
  "held_ports (klog (kdo K (Entry n2) s)) = held_ports (klog s)"
  "held_ports (klog (kdo K (Page n3) s)) = held_ports (klog s)"
  "held_ports (klog (kdo K (Task n4) s)) = held_ports (klog s)"
  "held_ports (klog (kdo K (Port (Request_irq i hdl fl nm q)) s)) = held_ports (klog s)"
  "held_ports (klog (kdo K (Port (Request_region p n nm)) s)) =
     (if kret K (klog s) (Port (Request_region p n nm)) = 0 then held_ports (klog s)
      else RPort p n # held_ports (klog s))"
  "held_ports (klog (kdo K (Port (Release_region p n)) s)) = remove1 (RPort p n) (held_ports (klog s))"
  by (simp_all add: held_ports_other) (auto simp: held_ports_def held_kdo filter_remove1)

text \<open>The memory among the resources held, and what the memory calls do to it.\<close>

fun is_mem :: "res \<Rightarrow> bool" where
  "is_mem (RMem p) = True"
| "is_mem x = False"

definition held_mem :: "klog \<Rightarrow> res list" where
  "held_mem h = filter is_mem (held h)"

lemma held_mem_mem: "RMem p \<in> set (held h) \<longleftrightarrow> RMem p \<in> set (held_mem h)"
  by (simp add: held_mem_def)

lemma gain_not_mem: "gain c r = Some x \<Longrightarrow> (\<And>p. c \<noteq> Mem p) \<Longrightarrow> \<not> is_mem x"
  by (cases c) (auto elim!: gain_elims split: if_splits)

lemma loss_not_mem: "loss c = Some x \<Longrightarrow> (\<And>p. c \<noteq> Mem p) \<Longrightarrow> \<not> is_mem x"
  by (cases c) (auto elim!: loss_elims split: if_splits)

lemma held_mem_other:
  "(\<And>p. c \<noteq> Mem p) \<Longrightarrow> held_mem (klog (kdo K c s)) = held_mem (klog s)"
  by (auto simp: held_mem_def held_kdo filter_remove1 dest: gain_not_mem loss_not_mem
      split: option.splits)

lemma held_mem_kdo [log_simps]:
  "held_mem (klog (kdo K (Chrdev a) s)) = held_mem (klog s)"
  "held_mem (klog (kdo K (Port b) s)) = held_mem (klog s)"
  "held_mem (klog (kdo K (Sync c) s)) = held_mem (klog s)"
  "held_mem (klog (kdo K (Time d) s)) = held_mem (klog s)"
  "held_mem (klog (kdo K (Print e) s)) = held_mem (klog s)"
  "held_mem (klog (kdo K (Net n1) s)) = held_mem (klog s)"
  "held_mem (klog (kdo K (Entry n2) s)) = held_mem (klog s)"
  "held_mem (klog (kdo K (Page n3) s)) = held_mem (klog s)"
  "held_mem (klog (kdo K (Task n4) s)) = held_mem (klog s)"
  "held_mem (klog (kdo K (Mem (Kmalloc n f)) s)) =
     (if kret K (klog s) (Mem (Kmalloc n f)) = 0 then held_mem (klog s)
      else RMem (Heap (kret K (klog s) (Mem (Kmalloc n f)))) # held_mem (klog s))"
  "held_mem (klog (kdo K (Mem (Kfree p)) s)) =
     (if p = Null then held_mem (klog s) else remove1 (RMem p) (held_mem (klog s)))"
  "held_mem (klog (kdo K (Mem (Uninit q fl)) s)) = held_mem (klog s)"
  by (simp_all add: held_mem_other) (auto simp: held_mem_def held_kdo filter_remove1)

text \<open>The references to tasks among the resources held.\<close>

fun is_task :: "res \<Rightarrow> bool" where
  "is_task (RTask p) = True"
| "is_task x = False"

definition held_tasks :: "klog \<Rightarrow> res list" where
  "held_tasks h = filter is_task (held h)"

lemma gain_not_task: "gain c r = Some x \<Longrightarrow> (\<And>p. c \<noteq> Task p) \<Longrightarrow> \<not> is_task x"
  by (cases c) (auto elim!: gain_elims split: if_splits)

lemma loss_not_task: "loss c = Some x \<Longrightarrow> (\<And>p. c \<noteq> Task p) \<Longrightarrow> \<not> is_task x"
  by (cases c) (auto elim!: loss_elims split: if_splits)

lemma held_tasks_other:
  "(\<And>p. c \<noteq> Task p) \<Longrightarrow> held_tasks (klog (kdo K c s)) = held_tasks (klog s)"
  by (auto simp: held_tasks_def held_kdo filter_remove1 dest: gain_not_task loss_not_task
      split: option.splits)

lemma held_tasks_kdo [log_simps]:
  "held_tasks (klog (kdo K (Chrdev a) s)) = held_tasks (klog s)"
  "held_tasks (klog (kdo K (Port b) s)) = held_tasks (klog s)"
  "held_tasks (klog (kdo K (Mem m) s)) = held_tasks (klog s)"
  "held_tasks (klog (kdo K (Sync c) s)) = held_tasks (klog s)"
  "held_tasks (klog (kdo K (Time d) s)) = held_tasks (klog s)"
  "held_tasks (klog (kdo K (Print e) s)) = held_tasks (klog s)"
  "held_tasks (klog (kdo K (Net n1) s)) = held_tasks (klog s)"
  "held_tasks (klog (kdo K (Entry n2) s)) = held_tasks (klog s)"
  "held_tasks (klog (kdo K (Page n3) s)) = held_tasks (klog s)"
  "held_tasks (klog (kdo K (Task (Get_task_struct q)) s)) = RTask q # held_tasks (klog s)"
  "held_tasks (klog (kdo K (Task (Put_task_struct q)) s)) = remove1 (RTask q) (held_tasks (klog s))"
  "held_tasks (klog (kdo K (Task (Find_task i)) s)) = held_tasks (klog s)"
  "held_tasks (klog (kdo K (Task (Task_state q)) s)) = held_tasks (klog s)"
  "held_tasks (klog (kdo K (Task (Task_pid q)) s)) = held_tasks (klog s)"
  "held_tasks (klog (kdo K (Task (Task_comm q)) s)) = held_tasks (klog s)"
  by (simp_all add: held_tasks_other) (simp_all add: held_tasks_def held_kdo filter_remove1)

text \<open>The tick counter as a read at this point gives it.\<close>

definition tick :: "kernel \<Rightarrow> klog \<Rightarrow> ulong" where
  "tick K h = word_of_int (kret K h (Time Jiffies))"

text \<open>The values that the reads of the tick counter \<open>jiffies\<close> gave, in order.\<close>

fun jiffies_read :: "kcall \<times> int \<Rightarrow> ulong list" where
  "jiffies_read (Time Jiffies, r) = [word_of_int r]"
| "jiffies_read _ = []"

definition jiffies_reads :: "klog \<Rightarrow> ulong list" where
  "jiffies_reads h = concat (map jiffies_read h)"

lemma jiffies_reads_kdo [log_simps]:
  "jiffies_reads (klog (kdo K c s)) = jiffies_reads (klog s) @ jiffies_read (c, kret K (klog s) c)"
  by (simp add: jiffies_reads_def kdo_klog)

lemma jiffies_read_other [log_simps]:
  "jiffies_read (Chrdev a, r) = []" "jiffies_read (Port b, r) = []" "jiffies_read (Mem m, r) = []"
  "jiffies_read (Sync c, r) = []" "jiffies_read (Print e, r) = []" "jiffies_read (Net n1, r) = []"
  "jiffies_read (Entry n2, r) = []" "jiffies_read (Page n3, r) = []" "jiffies_read (Task n4, r) = []"
  by simp_all

text \<open>The timers that were armed, with the tick counts they were armed for, in order.\<close>

fun armed :: "kcall \<times> int \<Rightarrow> (ptr \<times> ulong) list" where
  "armed (Time (Mod_timer t e), r) = [(t, e)]"
| "armed _ = []"

definition armings :: "klog \<Rightarrow> (ptr \<times> ulong) list" where
  "armings h = concat (map armed h)"

lemma armings_kdo [log_simps]: "armings (klog (kdo K c s)) = armings (klog s) @ armed (c, kret K (klog s) c)"
  by (simp add: armings_def kdo_klog)

text \<open>What was printed with \<open>pr_info\<close> and \<open>printk\<close>, in order.\<close>

fun print_out :: "kcall \<times> int \<Rightarrow> (string \<times> parg list) list" where
  "print_out (Print (Pr_info f as), r) = [(f, as)]"
| "print_out (Print (Printk f as), r) = [(f, as)]"
| "print_out _ = []"

definition printed :: "klog \<Rightarrow> (string \<times> parg list) list" where
  "printed h = concat (map print_out h)"

lemma printed_kdo [log_simps]:
  "printed (klog (kdo K c s)) = printed (klog s) @ print_out (c, kret K (klog s) c)"
  by (simp add: printed_def kdo_klog)

lemma print_out_other [log_simps]:
  "print_out (Chrdev a, r) = []" "print_out (Port b, r) = []" "print_out (Mem m, r) = []"
  "print_out (Sync c, r) = []" "print_out (Time e, r) = []" "print_out (Net n1, r) = []"
  "print_out (Entry n2, r) = []" "print_out (Page n3, r) = []" "print_out (Task n4, r) = []"
  by simp_all

text \<open>
  Lock discipline. \<open>locks h\<close> is the stack of locks held after the calls of \<open>h\<close>, with the way
  each was taken, and \<open>None\<close> once a lock was released that was not the last one taken, was
  released by another primitive than the matching one, or was taken while already held (a
  self-deadlock). The lock of a memory map is a semaphore (\<open>Sem\<close>): its holder may sleep.
\<close>

datatype lock_mode = Plain | Irqsave | Bh | Reader | Writer | Sem

definition acquire :: "lock_mode \<Rightarrow> ptr \<Rightarrow> (ptr \<times> lock_mode) list \<Rightarrow> (ptr \<times> lock_mode) list option"
  where "acquire m l ls = (if l \<in> fst ` set ls then None else Some ((l, m) # ls))"

definition release_lock ::
    "lock_mode \<Rightarrow> ptr \<Rightarrow> (ptr \<times> lock_mode) list \<Rightarrow> (ptr \<times> lock_mode) list option"
  where "release_lock m l ls =
    (case ls of [] \<Rightarrow> None | x # xs \<Rightarrow> if x = (l, m) then Some xs else None)"

fun locks_sync ::
    "(ptr \<times> lock_mode) list \<Rightarrow> sync_call \<Rightarrow> (ptr \<times> lock_mode) list option" where
  "locks_sync ls (Spin_lock l) = acquire Plain l ls"
| "locks_sync ls (Spin_unlock l) = release_lock Plain l ls"
| "locks_sync ls (Spin_lock_irqsave l) = acquire Irqsave l ls"
| "locks_sync ls (Spin_unlock_irqrestore l) = release_lock Irqsave l ls"
| "locks_sync ls (Spin_lock_bh l) = acquire Bh l ls"
| "locks_sync ls (Spin_unlock_bh l) = release_lock Bh l ls"
| "locks_sync ls (Mmap_read_lock l) = acquire Sem l ls"
| "locks_sync ls (Mmap_read_unlock l) = release_lock Sem l ls"
| "locks_sync ls (Read_lock l) = acquire Reader l ls"
| "locks_sync ls (Read_unlock l) = release_lock Reader l ls"
| "locks_sync ls (Write_lock l) = acquire Writer l ls"
| "locks_sync ls (Write_unlock l) = release_lock Writer l ls"
| "locks_sync ls _ = Some ls"

definition locks_step ::
    "(ptr \<times> lock_mode) list \<Rightarrow> kcall \<Rightarrow> (ptr \<times> lock_mode) list option" where
  "locks_step ls c = (case c of Sync a \<Rightarrow> locks_sync ls a | _ \<Rightarrow> Some ls)"

lemma locks_step_Sync [simp]: "locks_step ls (Sync a) = locks_sync ls a"
  by (simp add: locks_step_def)

definition locks_next ::
    "(ptr \<times> lock_mode) list option \<Rightarrow> kcall \<times> int \<Rightarrow> (ptr \<times> lock_mode) list option" where
  "locks_next a e = Option.bind a (\<lambda>ls. locks_step ls (fst e))"

definition locks :: "klog \<Rightarrow> (ptr \<times> lock_mode) list option" where
  "locks h = foldl locks_next (Some []) h"

lemma locks_next_Some [log_simps]: "locks_next (Some ls) e = locks_step ls (fst e)"
  by (simp add: locks_next_def)

lemma locks_Nil [log_simps]: "locks [] = Some []"
  by (simp add: locks_def)

lemma locks_append [log_simps]: "locks (h @ es) = foldl locks_next (locks h) es"
  by (simp add: locks_def)

lemma locks_kdo [log_simps]:
  "locks (klog (kdo K c s)) = locks_next (locks (klog s)) (c, kret K (klog s) c)"
  by (simp add: locks_def kdo_klog)

lemma locks_step_frame [log_simps]:
  "locks_step ls (Chrdev c1) = Some ls" "locks_step ls (Port c2) = Some ls"
  "locks_step ls (Mem c3) = Some ls" "locks_step ls (Time c4) = Some ls"
  "locks_step ls (Print c5) = Some ls" "locks_step ls (Net c6) = Some ls" "locks_step ls (Entry c7) = Some ls"
  "locks_step ls (Page c8) = Some ls" "locks_step ls (Task c9) = Some ls"
  by (simp_all add: locks_step_def)

lemma locks_next_frame [log_simps]:
  "locks_next a (Chrdev c1, r) = a" "locks_next a (Port c2, r) = a" "locks_next a (Mem c3, r) = a"
  "locks_next a (Time c4, r) = a" "locks_next a (Print c5, r) = a"
  "locks_next a (Net c6, r) = a" "locks_next a (Entry c7, r) = a" "locks_next a (Page c8, r) = a"
  "locks_next a (Task c9, r) = a"
  by (cases a; simp add: locks_next_def locks_step_def)+

lemma acquire_release [log_simps]:
  "acquire m l [] = Some [(l, m)]" "release_lock m l ((l, m) # ls) = Some ls"
  by (simp_all add: acquire_def release_lock_def)

text \<open>What \<open>put_user\<close> stored into the user buffer at \<open>ub\<close>: offsets and bytes, in order.\<close>

fun user_write :: "ptr \<Rightarrow> kcall \<times> int \<Rightarrow> (nat \<times> byte) list" where
  "user_write ub (Mem (Put_user p off ch), r) = (if p = ub \<and> r = 0 then [(off, ch)] else [])"
| "user_write ub _ = []"

definition user_writes :: "ptr \<Rightarrow> klog \<Rightarrow> (nat \<times> byte) list" where
  "user_writes ub h = concat (map (user_write ub) h)"

lemma user_writes_append [log_simps]:
  "user_writes ub (h @ es) = user_writes ub h @ concat (map (user_write ub) es)"
  by (simp add: user_writes_def)

lemma user_writes_kdo [log_simps]:
  "user_writes ub (klog (kdo K c s)) = user_writes ub (klog s) @ user_write ub (c, kret K (klog s) c)"
  by (simp add: user_writes_def kdo_klog)

section \<open>Documented behaviour of the kernel, as named hypotheses\<close>

text \<open>\<open>kmalloc\<close> returns NULL or memory that is not in use.\<close>

definition kmalloc_fresh :: "kernel \<Rightarrow> bool" where
  "kmalloc_fresh K \<longleftrightarrow> (\<forall>h n f. RMem (Heap (kret K h (Mem (Kmalloc n f)))) \<notin> set (held h))"

text \<open>No allocation fails. This is a condition of the moment, not a promise of the kernel: the theorems
  that need it say so.\<close>

definition kmalloc_succeeds :: "kernel \<Rightarrow> bool" where
  "kmalloc_succeeds K \<longleftrightarrow> (\<forall>h n f. kret K h (Mem (Kmalloc n f)) \<noteq> 0)"

text \<open>\<open>copy_from_user\<close> leaves exactly the requested number of bytes in the destination (it pads
  what it could not read with zero bytes).\<close>

definition copy_from_user_fills :: "kernel \<Rightarrow> bool" where
  "copy_from_user_fills K \<longleftrightarrow>
     (\<forall>h p n. length (kbytes K h (Mem (Copy_from_user p n))) = n)"

text \<open>\<open>register_chrdev_region\<close> refuses a range that overlaps a registered one.\<close>

definition overlaps :: "dev_t \<times> nat \<Rightarrow> dev_t \<times> nat \<Rightarrow> bool" where
  "overlaps a b \<longleftrightarrow>
     (case a of ((ma, mi), n) \<Rightarrow> case b of ((mb, mj), m) \<Rightarrow>
        ma = mb \<and> mi < mj + m \<and> mj < mi + n)"

definition chrdev_exclusive :: "kernel \<Rightarrow> bool" where
  "chrdev_exclusive K \<longleftrightarrow>
     (\<forall>h d n nm. (\<exists>e m. RRegion e m \<in> set (held h) \<and> overlaps (d, n) (e, m)) \<longrightarrow>
        kret K h (Chrdev (Register_chrdev_region d n nm)) = - EBUSY)"

text \<open>
  A concrete kernel that behaves as documented: memory comes from above everything in use, ports
  are granted, registration of a taken range is refused, every other call returns 0. It is used
  where a hypothesis about the kernel is shown to be satisfiable.
\<close>

fun fresh_addr :: "res list \<Rightarrow> int" where
  "fresh_addr [] = 1"
| "fresh_addr (RMem (Heap a) # ps) = max (a + 1) (fresh_addr ps)"
| "fresh_addr (p # ps) = fresh_addr ps"

fun takes :: "dev_t \<times> nat \<Rightarrow> res \<Rightarrow> bool" where
  "takes d (RRegion e m) = overlaps d (e, m)"
| "takes d x = False"

fun bump_ret :: "klog \<Rightarrow> kcall \<Rightarrow> int" where
  "bump_ret h (Mem (Kmalloc n f)) = fresh_addr (held h)"
| "bump_ret h (Port (Request_region p n nm)) = 1"
| "bump_ret h (Chrdev (Register_chrdev_region d n nm)) =
     (if list_ex (takes (d, n)) (held h) then - EBUSY else 0)"
| "bump_ret h c = 0"

fun bump_bytes :: "klog \<Rightarrow> kcall \<Rightarrow> byte list" where
  "bump_bytes h (Mem (Copy_from_user p n)) = replicate n 65"
| "bump_bytes h c = []"

definition bump_kernel :: kernel where
  "bump_kernel = \<lparr>kret = bump_ret, kbytes = bump_bytes\<rparr>"

lemma bump_kernel_sel [simp]: "kret bump_kernel = bump_ret" "kbytes bump_kernel = bump_bytes"
  by (simp_all add: bump_kernel_def)

lemma fresh_addr_above: "RMem (Heap a) \<in> set ps \<Longrightarrow> a < fresh_addr ps"
  by (induction ps rule: fresh_addr.induct) auto

lemma bump_kmalloc_fresh: "kmalloc_fresh bump_kernel"
  using fresh_addr_above by (fastforce simp: kmalloc_fresh_def)

lemma bump_copy_from_user: "copy_from_user_fills bump_kernel"
  by (simp add: copy_from_user_fills_def)

lemma bump_chrdev_exclusive: "chrdev_exclusive bump_kernel"
  by (force simp: chrdev_exclusive_def list_ex_iff)

lemma fresh_addr_pos: "0 < fresh_addr ps"
  by (induction ps rule: fresh_addr.induct) auto

lemma bump_kmalloc_succeeds: "kmalloc_succeeds bump_kernel"
  using fresh_addr_pos by (simp add: kmalloc_succeeds_def less_imp_neq [symmetric])

end
