(* ===== verification/Fifo.thy ===== *)
theory Fifo
  imports Prelude
begin

text \<open>
  The contract of a bounded first-in first-out buffer between a producer and a consumer, as a
  locale: what storing a character and taking one promise as long as fewer than \<open>cap\<close> characters
  are stored. The client lemma, proved once from the contract, is in-order delivery for every
  interleaving of the producer and the consumer that never stores more than \<open>cap\<close> characters.
\<close>

datatype 'a qop = Enq 'a | Deq

text \<open>A run of the buffer over an interleaving; the result is what the consumer got.\<close>

fun qrun :: "('a \<Rightarrow> 'q \<Rightarrow> 'q option) \<Rightarrow> ('q \<Rightarrow> ('a option \<times> 'q) option) \<Rightarrow> 'a qop list \<Rightarrow> 'q
    \<Rightarrow> ('a list \<times> 'q) option" where
  "qrun enq deq [] q = Some ([], q)"
| "qrun enq deq (Enq x # ops) q = do { q \<leftarrow> enq x q; qrun enq deq ops q }"
| "qrun enq deq (Deq # ops) q = do {
     (r, q) \<leftarrow> deq q;
     (out, q) \<leftarrow> qrun enq deq ops q;
     Some (case r of None \<Rightarrow> out | Some x \<Rightarrow> x # out, q)
   }"

fun enqueued :: "'a qop list \<Rightarrow> 'a list" where
  "enqueued [] = []"
| "enqueued (Enq x # ops) = x # enqueued ops"
| "enqueued (Deq # ops) = enqueued ops"

text \<open>The interleaving never asks for more room than \<open>cap\<close>, from \<open>n\<close> stored characters on.\<close>

fun within :: "nat \<Rightarrow> nat \<Rightarrow> 'a qop list \<Rightarrow> bool" where
  "within cap n [] = True"
| "within cap n (Enq x # ops) = (n < cap \<and> within cap (Suc n) ops)"
| "within cap n (Deq # ops) = within cap (n - 1) ops"

locale bounded_fifo =
  fixes cap :: nat
    and enq :: "'a \<Rightarrow> 'q \<Rightarrow> 'q option"
    and deq :: "'q \<Rightarrow> ('a option \<times> 'q) option"
    and contents :: "'q \<Rightarrow> 'a list"
    and invar :: "'q \<Rightarrow> bool"
  assumes enq_law: "invar q \<Longrightarrow> length (contents q) < cap \<Longrightarrow>
      \<exists>q'. enq x q = Some q' \<and> invar q' \<and> contents q' = contents q @ [x]"
    and deq_Nil_law: "invar q \<Longrightarrow> contents q = [] \<Longrightarrow> deq q = Some (None, q)"
    and deq_Cons_law: "invar q \<Longrightarrow> contents q = x # xs \<Longrightarrow>
      \<exists>q'. deq q = Some (Some x, q') \<and> invar q' \<and> contents q' = xs"
begin

lemma deq_cases:
  assumes "invar q"
  shows "\<exists>r q'. deq q = Some (r, q') \<and> invar q' \<and>
    contents q = (case r of None \<Rightarrow> [] | Some x \<Rightarrow> [x]) @ contents q' \<and>
    length (contents q') = length (contents q) - 1"
proof (cases "contents q")
  case Nil
  then show ?thesis using assms deq_Nil_law by auto
next
  case (Cons x xs)
  then show ?thesis using deq_Cons_law [OF assms Cons] by auto
qed

lemma in_order_delivery:
  assumes "invar q" and "within cap (length (contents q)) ops"
  shows "\<exists>out q'. qrun enq deq ops q = Some (out, q') \<and> invar q' \<and>
    contents q @ enqueued ops = out @ contents q'"
  using assms
proof (induction ops arbitrary: q)
  case Nil
  then show ?case by simp
next
  case (Cons e ops)
  show ?case
  proof (cases e)
    case (Enq x)
    then obtain q1 where "enq x q = Some q1" "invar q1" "contents q1 = contents q @ [x]"
      using Cons.prems enq_law [of q x] by auto
    moreover from this have "within cap (length (contents q1)) ops"
      using Cons.prems(2) Enq by simp
    ultimately obtain out q' where "qrun enq deq ops q1 = Some (out, q')" "invar q'"
      "contents q1 @ enqueued ops = out @ contents q'"
      using Cons.IH by blast
    then show ?thesis
      using Enq \<open>enq x q = Some q1\<close> \<open>contents q1 = contents q @ [x]\<close> by simp
  next
    case Deq
    obtain r q1 where q1: "deq q = Some (r, q1)" "invar q1"
      "contents q = (case r of None \<Rightarrow> [] | Some x \<Rightarrow> [x]) @ contents q1"
      "length (contents q1) = length (contents q) - 1"
      using deq_cases [OF Cons.prems(1)] by blast
    have "within cap (length (contents q1)) ops"
      using Cons.prems(2) Deq q1(4) by simp
    then obtain out q' where "qrun enq deq ops q1 = Some (out, q')" "invar q'"
      "contents q1 @ enqueued ops = out @ contents q'"
      using Cons.IH [OF q1(2)] by blast
    then have "qrun enq deq (e # ops) q = Some ((case r of None \<Rightarrow> out | Some x \<Rightarrow> x # out), q')"
      "contents q @ enqueued (e # ops) = (case r of None \<Rightarrow> out | Some x \<Rightarrow> x # out) @ contents q'"
      using q1(1,3) Deq by (cases r; simp)+
    with \<open>invar q'\<close> show ?thesis by blast
  qed
qed

end

end
