(* ===== verification/Kbd.thy ===== *)
theory Kbd
  imports Kernel Fifo
begin

unbundle bit_operations_syntax

text \<open>
  The keyboard driver, \<open>Drivers/kbd/kbd.c\<close>: a character device fed by the keyboard interrupt
  through a circular buffer. The state is the array \<open>devs\<close> of \<open>kbd_dev\<close> structures and the call
  log. First the definitions, in the order of the file, then the invariant of the buffer, what
  each handler does, the queue interface the buffer provides, and the system of all handlers
  interleaved.
\<close>

section \<open>Definitions\<close>

definition KBD_MAJOR_NUMBER :: nat where "KBD_MAJOR_NUMBER = 42"
definition KBD_MINOR_NUMBER :: nat where "KBD_MINOR_NUMBER = 0"
definition KBD_NUM_MINORS :: nat where "KBD_NUM_MINORS = 1"
definition KBD_MODULE_NAME :: string where "KBD_MODULE_NAME = ''kbd_driver''"
definition BUFF_SIZE :: nat where "BUFF_SIZE = 100"
definition I8042_KBD_IRQ :: nat where "I8042_KBD_IRQ = 1"
definition I8042_STATUS_REG :: nat where "I8042_STATUS_REG = 0x64"
definition I8042_DATA_REG :: nat where "I8042_DATA_REG = 0x60"
definition SCANCODE_RELEASED_MASK :: u32 where "SCANCODE_RELEASED_MASK = 0x80"

lemmas kbd_consts = KBD_MAJOR_NUMBER_def KBD_MINOR_NUMBER_def KBD_NUM_MINORS_def KBD_MODULE_NAME_def
  BUFF_SIZE_def I8042_KBD_IRQ_def I8042_STATUS_REG_def I8042_DATA_REG_def
  SCANCODE_RELEASED_MASK_def

text \<open>
  \<open>struct kbd_dev\<close>. Its \<open>cdev\<close> is the first member, so its address is that of the structure; its
  \<open>lock\<close> is named by its address.
\<close>

record kbd_dev =
  buff :: "byte list"
  putIdx :: size_t
  getIdx :: size_t
  cnt :: size_t

record kbd_module = kstate +
  devs :: "kbd_dev list"

definition kbd_dev_addr :: "nat \<Rightarrow> ptr" where "kbd_dev_addr i = Static ''kbd.devs'' i ''''"
definition kbd_lock_addr :: "nat \<Rightarrow> ptr" where "kbd_lock_addr i = Static ''kbd.devs'' i ''lock''"

text \<open>The static array starts zeroed.\<close>

definition kbd_dev0 :: kbd_dev where
  "kbd_dev0 = \<lparr>buff = replicate BUFF_SIZE 0, putIdx = 0, getIdx = 0, cnt = 0\<rparr>"

definition kbd_module0 :: kbd_module where
  "kbd_module0 = \<lparr>klog = [], devs = replicate KBD_NUM_MINORS kbd_dev0\<rparr>"

text \<open>The device a pointer to \<open>kbd_dev\<close> designates; \<open>None\<close> when it designates none.\<close>

definition kbd_dev_index :: "ptr \<Rightarrow> kbd_module \<Rightarrow> nat option" where
  "kbd_dev_index p s =
     (case p of
        Static v i m \<Rightarrow> if v = ''kbd.devs'' \<and> m = '''' \<and> i < length (devs s) then Some i else None
      | _ \<Rightarrow> None)"

text \<open>
  \<open>get_char\<close>: \<open>Some c\<close> is the result true with \<open>*c\<close> stored, \<open>None\<close> the result false with \<open>*c\<close>
  untouched. Reading outside \<open>buff\<close> is an oops.
\<close>

definition get_char :: "kbd_dev \<Rightarrow> (byte option \<times> kbd_dev) option" where
  "get_char d =
     (if cnt d > 0 then
        if unat (getIdx d) < length (buff d) then
          Some (Some (buff d ! unat (getIdx d)),
                d\<lparr>getIdx := (getIdx d + 1) mod of_nat BUFF_SIZE, cnt := cnt d - 1\<rparr>)
        else None
      else Some (None, d))"

definition kbd_open :: "inode \<Rightarrow> kfile \<Rightarrow> int \<times> kfile" where
  "kbd_open inode file = (0, file\<lparr>private_data := i_cdev inode\<rparr>)"

definition kbd_release :: "inode \<Rightarrow> kfile \<Rightarrow> int" where
  "kbd_release inode file = 0"

text \<open>
  One turn of the loop of \<open>kbd_read\<close>: \<open>Inl r\<close> ends the read with result \<open>r\<close>, \<open>Inr n\<close> goes on with
  \<open>n\<close> bytes read. The critical section is the \<open>get_char\<close> between the lock and the unlock.
\<close>

definition kbd_read_iter ::
    "kernel \<Rightarrow> ptr \<Rightarrow> ptr \<Rightarrow> size_t \<Rightarrow> kbd_module \<Rightarrow> ((int + size_t) \<times> kbd_module) option" where
  "kbd_read_iter K data uBuff rd s = do {
     i \<leftarrow> kbd_dev_index data s;
     let s = kdo K (Sync (Spin_lock_irqsave (kbd_lock_addr i))) s;
     (more, d) \<leftarrow> get_char (devs s ! i);
     let s = kdo K (Sync (Spin_unlock_irqrestore (kbd_lock_addr i))) (s\<lparr>devs := (devs s)[i := d]\<rparr>);
     case more of
       None \<Rightarrow> Some (Inl (sint rd), s)
     | Some ch \<Rightarrow>
         let (r, s) = kcall K (Mem (Put_user uBuff (unat rd) ch)) s in
         if r \<noteq> 0 then Some (Inl (- EFAULT), s) else Some (Inr (rd + 1), s)
   }"

fun kbd_read_loop ::
    "kernel \<Rightarrow> nat \<Rightarrow> ptr \<Rightarrow> ptr \<Rightarrow> size_t \<Rightarrow> kbd_module \<Rightarrow> (int \<times> kbd_module) option" where
  "kbd_read_loop K 0 data uBuff rd s = Some (sint rd, s)"
| "kbd_read_loop K (Suc n) data uBuff rd s = do {
     (x, s) \<leftarrow> kbd_read_iter K data uBuff rd s;
     case x of Inl r \<Rightarrow> Some (r, s) | Inr rd \<Rightarrow> kbd_read_loop K n data uBuff rd s
   }"

definition kbd_read ::
    "kernel \<Rightarrow> kfile \<Rightarrow> ptr \<Rightarrow> size_t \<Rightarrow> kbd_module \<Rightarrow> (int \<times> kbd_module) option" where
  "kbd_read K file uBuff sz s = kbd_read_loop K (unat sz) (private_data file) uBuff 0 s"

definition reset_buffer :: "kbd_dev \<Rightarrow> kbd_dev" where
  "reset_buffer dev = dev\<lparr>cnt := 0, getIdx := 0, putIdx := 0\<rparr>"

definition kbd_write ::
    "kernel \<Rightarrow> kfile \<Rightarrow> ptr \<Rightarrow> size_t \<Rightarrow> kbd_module \<Rightarrow> (int \<times> kbd_module) option" where
  "kbd_write K file uBuff sz s = do {
     i \<leftarrow> kbd_dev_index (private_data file) s;
     let s = kdo K (Sync (Spin_lock_irqsave (kbd_lock_addr i))) s;
     let s = s\<lparr>devs := (devs s)[i := reset_buffer (devs s ! i)]\<rparr>;
     let s = kdo K (Sync (Spin_unlock_irqrestore (kbd_lock_addr i))) s;
     Some (sint sz, s)
   }"

definition i8042_read_data :: "kernel \<Rightarrow> kbd_module \<Rightarrow> byte \<times> kbd_module" where
  "i8042_read_data K s =
     (let (r, s) = kcall K (Port (Inb I8042_DATA_REG)) s in (word_of_int r, s))"

definition is_key_press :: "u32 \<Rightarrow> int" where
  "is_key_press scancode = (if scancode AND SCANCODE_RELEASED_MASK = 0 then 1 else 0)"

text \<open>\<open>put_char\<close>, with the index the source uses. Writing outside \<open>buff\<close> is an oops.\<close>

definition put_char :: "kbd_dev \<Rightarrow> byte \<Rightarrow> kbd_dev option" where
  "put_char d ch =
     (if unat (getIdx d) < length (buff d) then
        Some (d\<lparr>buff := (buff d)[unat (getIdx d) := ch],
                putIdx := (putIdx d + 1) mod of_nat BUFF_SIZE,
                cnt := cnt d + 1\<rparr>)
      else None)"

definition row1 :: string where "row1 = ''1234567890''"
definition row2 :: string where "row2 = ''qwertyuiop''"
definition row3 :: string where "row3 = ''asdfghjkl''"
definition row4 :: string where "row4 = ''zxcvbnm''"

lemmas row_defs = row1_def row2_def row3_def row4_def

definition get_ascii :: "u32 \<Rightarrow> int" where
  "get_ascii scancode =
     (let sc = scancode AND NOT SCANCODE_RELEASED_MASK in
      if sc \<ge> 0x02 \<and> sc \<le> 0x0b then of_char (row1 ! unat (sc - 0x02))
      else if sc \<ge> 0x10 \<and> sc \<le> 0x19 then of_char (row2 ! unat (sc - 0x10))
      else if sc \<ge> 0x1e \<and> sc \<le> 0x26 then of_char (row3 ! unat (sc - 0x1e))
      else if sc \<ge> 0x2c \<and> sc \<le> 0x32 then of_char (row4 ! unat (sc - 0x2c))
      else if sc = 0x39 then of_char (CHR '' '')
      else if sc = 0x1c then of_char (CHR 0x0A)
      else of_char (CHR ''?''))"

definition IRQ_NONE :: int where "IRQ_NONE = 0"

definition kbd_irq_handler ::
    "kernel \<Rightarrow> nat \<Rightarrow> ptr \<Rightarrow> kbd_module \<Rightarrow> (int \<times> kbd_module) option" where
  "kbd_irq_handler K irq_no devID s = do {
     let (b, s) = i8042_read_data K s;
     let scancode = (ucast b :: u32);
     let pressed = is_key_press scancode;
     let ch = get_ascii scancode;
     let s = kdo K (Print (Pr_info ''IRQ %d: scancode=0x%x (%u) pressed=%d ch=%c''
               [PInt (int irq_no), PInt (uint scancode), PInt (uint scancode), PInt pressed, PInt ch])) s;
     if pressed \<noteq> 0 then do {
       i \<leftarrow> kbd_dev_index devID s;
       let s = kdo K (Sync (Spin_lock (kbd_lock_addr i))) s;
       d \<leftarrow> put_char (devs s ! i) (word_of_int ch);
       let s = kdo K (Sync (Spin_unlock (kbd_lock_addr i))) (s\<lparr>devs := (devs s)[i := d]\<rparr>);
       Some (IRQ_NONE, s)
     } else Some (IRQ_NONE, s)
   }"

text \<open>The two loops of \<open>kbd_init\<close> and its labels; a label falls through to the next one.\<close>

definition init_minors :: "kernel \<Rightarrow> kbd_module \<Rightarrow> kbd_module" where
  "init_minors K s = fold (\<lambda>i s.
     let s = kdo K (Chrdev (Cdev_init (kbd_dev_addr i) ''kbd_fops'')) s;
         s = kdo K (Chrdev (Cdev_add (kbd_dev_addr i) (MKDEV KBD_MAJOR_NUMBER KBD_MINOR_NUMBER) 1)) s
     in kdo K (Sync (Spin_lock_init (kbd_lock_addr i))) s) [0..<KBD_NUM_MINORS] s"

definition request_irqs :: "kernel \<Rightarrow> int \<times> kbd_module \<Rightarrow> int \<times> kbd_module" where
  "request_irqs K rs = fold (\<lambda>i (res, s).
     kcall K (Port (Request_irq I8042_KBD_IRQ ''kbd_irq_handler'' ''IRQF_SHARED''
       KBD_MODULE_NAME (kbd_dev_addr i))) s)
     [0..<KBD_NUM_MINORS] rs"

definition releaseDataPort :: "kernel \<Rightarrow> kbd_module \<Rightarrow> kbd_module" where
  "releaseDataPort K s = kdo K (Port (Release_region I8042_DATA_REG 1)) s"

definition releaseStatusPort :: "kernel \<Rightarrow> kbd_module \<Rightarrow> kbd_module" where
  "releaseStatusPort K s = releaseDataPort K (kdo K (Port (Release_region I8042_STATUS_REG 1)) s)"

definition kbd_init :: "kernel \<Rightarrow> kbd_module \<Rightarrow> int \<times> kbd_module" where
  "kbd_init K s =
     (let s = kdo K (Print (Pr_info ''[LOG] kbd driver intialized'' [])) s;
          (res, s) = kcall K (Chrdev (Register_chrdev_region
                       (MKDEV KBD_MAJOR_NUMBER KBD_MINOR_NUMBER) KBD_NUM_MINORS KBD_MODULE_NAME)) s in
      if res \<noteq> 0 then
        (res, kdo K (Print (Pr_debug ''[ERROR] failed to allocate char device region'' [])) s)
      else
        let (ok, s) = kcall K (Port (Request_region I8042_DATA_REG 1 KBD_MODULE_NAME)) s in
        if ok = 0 then (- EBUSY, releaseDataPort K s)
        else
          let (ok, s) = kcall K (Port (Request_region I8042_STATUS_REG 1 KBD_MODULE_NAME)) s in
          if ok = 0 then (- EBUSY, releaseStatusPort K s)
          else
            let s = init_minors K s; (res, s) = request_irqs K (res, s)
            in (res, releaseStatusPort K s))"

definition kbd_exit :: "kernel \<Rightarrow> kbd_module \<Rightarrow> kbd_module" where
  "kbd_exit K s =
     (let s = kdo K (Print (Pr_info ''[LOG] kbd driver exited'' [])) s;
          s = fold (\<lambda>i. kdo K (Port (Free_irq I8042_KBD_IRQ (kbd_dev_addr i)))) [0..<KBD_NUM_MINORS] s;
          s = fold (\<lambda>i. kdo K (Chrdev (Cdev_del (kbd_dev_addr i)))) [0..<KBD_NUM_MINORS] s;
          s = kdo K (Port (Release_region I8042_STATUS_REG 1)) s;
          s = kdo K (Port (Release_region I8042_DATA_REG 1)) s
      in kdo K (Chrdev (Unregister_chrdev_region (MKDEV KBD_MAJOR_NUMBER KBD_MINOR_NUMBER) KBD_NUM_MINORS)) s)"

section \<open>The circular buffer\<close>

text \<open>
  \<open>kbd_wf\<close>: the indices stay inside the buffer, which makes every access of \<open>get_char\<close> and
  \<open>put_char\<close> safe. \<open>kbd_sync\<close> relates the indices to the count. \<open>pending\<close> is what a reader that
  drains the device gets.
\<close>

definition kbd_wf :: "kbd_dev \<Rightarrow> bool" where
  "kbd_wf d \<longleftrightarrow> length (buff d) = BUFF_SIZE \<and> unat (getIdx d) < BUFF_SIZE \<and> unat (putIdx d) < BUFF_SIZE"

definition kbd_sync :: "kbd_dev \<Rightarrow> bool" where
  "kbd_sync d \<longleftrightarrow> kbd_wf d \<and> (unat (getIdx d) + unat (cnt d)) mod BUFF_SIZE = unat (putIdx d)"

definition pending :: "kbd_dev \<Rightarrow> byte list" where
  "pending d = map (\<lambda>k. buff d ! ((unat (getIdx d) + k) mod BUFF_SIZE)) [0..<unat (cnt d)]"

lemma length_pending: "length (pending d) = unat (cnt d)"
  by (simp add: pending_def)

lemma pending_Nil: "cnt d = 0 \<Longrightarrow> pending d = []"
  by (simp add: pending_def)

lemma unat_next_idx:
  assumes "unat (w :: size_t) < BUFF_SIZE"
  shows "unat ((w + 1) mod of_nat BUFF_SIZE) = (unat w + 1) mod BUFF_SIZE"
  using assms by (simp add: unat_mod unat_plus_one_64 BUFF_SIZE_def)

lemma BUFF_SIZE_pos [simp]: "0 < BUFF_SIZE"
  by (simp add: BUFF_SIZE_def)

lemma next_idx_less [simp]:
  "unat (w :: size_t) < BUFF_SIZE \<Longrightarrow> unat ((w + 1) mod of_nat BUFF_SIZE) < BUFF_SIZE"
  by (simp add: unat_next_idx)

lemma kbd_dev0_sync: "kbd_sync kbd_dev0"
  by (simp add: kbd_sync_def kbd_wf_def kbd_dev0_def BUFF_SIZE_def)

lemma kbd_sync_wf: "kbd_sync d \<Longrightarrow> kbd_wf d"
  by (simp add: kbd_sync_def)

lemma get_char_empty: "cnt d = 0 \<Longrightarrow> get_char d = Some (None, d)"
  by (simp add: get_char_def)

lemma get_char_nonempty:
  assumes "kbd_wf d" and "cnt d \<noteq> 0"
  shows "get_char d = Some (Some (hd (pending d)),
    d\<lparr>getIdx := (getIdx d + 1) mod of_nat BUFF_SIZE, cnt := cnt d - 1\<rparr>)"
proof -
  have "0 < unat (cnt d)" using assms(2) by (simp add: unat_gt_0)
  then have "hd (pending d) = buff d ! unat (getIdx d)"
    using assms(1) by (simp add: pending_def hd_map kbd_wf_def)
  then show ?thesis
    using assms by (simp add: get_char_def kbd_wf_def word_neq_0_conv)
qed

lemma get_char_wf:
  assumes "kbd_wf d"
  obtains r d' where "get_char d = Some (r, d')" and "kbd_wf d'"
proof (cases "cnt d = 0")
  case True
  then show ?thesis using assms that by (simp add: get_char_empty)
next
  case False
  then show ?thesis
    using assms get_char_nonempty [OF assms False] that
    by (simp add: kbd_wf_def)
qed

lemma put_char_wf:
  assumes "kbd_wf d"
  obtains d' where "put_char d ch = Some d'" and "kbd_wf d'"
  using assms that by (simp add: put_char_def kbd_wf_def)

lemma reset_buffer_sync: "kbd_wf d \<Longrightarrow> kbd_sync (reset_buffer d)"
  by (simp add: reset_buffer_def kbd_sync_def kbd_wf_def BUFF_SIZE_def)

lemma reset_buffer_pending [simp]: "pending (reset_buffer d) = []"
  by (simp add: pending_def reset_buffer_def)

lemma get_char_sync:
  assumes "kbd_sync d" and "cnt d \<noteq> 0"
  shows "get_char d = Some (Some (hd (pending d)), d') \<Longrightarrow> kbd_sync d' \<and> pending d' = tl (pending d)"
proof -
  assume "get_char d = Some (Some (hd (pending d)), d')"
  then have d': "d' = d\<lparr>getIdx := (getIdx d + 1) mod of_nat BUFF_SIZE, cnt := cnt d - 1\<rparr>"
    using get_char_nonempty [OF kbd_sync_wf [OF assms(1)] assms(2)] by simp
  have c: "unat (cnt d - 1) = unat (cnt d) - 1" and pos: "0 < unat (cnt d)"
    using assms(2) by (simp_all add: unat_minus_one_64 unat_gt_0)
  have g: "unat (getIdx d) < BUFF_SIZE" using assms(1) by (simp add: kbd_sync_def kbd_wf_def)
  have shift: "(Suc (unat (getIdx d)) mod BUFF_SIZE + k) mod BUFF_SIZE = Suc (unat (getIdx d) + k) mod BUFF_SIZE"
    for k by (simp add: mod_add_left_eq)
  have "pending d' = tl (pending d)"
    using pos by (auto simp: length_pending pending_def d' c g unat_next_idx shift nth_tl intro!: nth_equalityI)
  moreover have "kbd_sync d'"
    using assms(1) pos shift [of "unat (cnt d) - 1"]
    by (simp add: kbd_sync_def kbd_wf_def d' c g unat_next_idx)
  ultimately show ?thesis by simp
qed

text \<open>
  What \<open>put_char\<close> does to the pending characters, given the slot it really writes: the oldest
  unread character is overwritten and the stale byte at \<open>putIdx\<close> becomes readable at the end.
\<close>

lemma put_char_sync:
  assumes "kbd_sync d" and "unat (cnt d) < BUFF_SIZE" and "put_char d ch = Some d'"
  shows "kbd_sync d' \<and> pending d' =
    (if cnt d = 0 then [ch] else ch # tl (pending d) @ [buff d ! unat (putIdx d)])"
proof -
  have wf: "length (buff d) = BUFF_SIZE" "unat (getIdx d) < BUFF_SIZE" "unat (putIdx d) < BUFF_SIZE"
    and sy: "(unat (getIdx d) + unat (cnt d)) mod BUFF_SIZE = unat (putIdx d)"
    using assms(1) by (auto simp: kbd_sync_def kbd_wf_def)
  have d': "d' = d\<lparr>buff := (buff d)[unat (getIdx d) := ch],
      putIdx := (putIdx d + 1) mod of_nat BUFF_SIZE, cnt := cnt d + 1\<rparr>"
    using assms(3) wf by (simp add: put_char_def)
  have c: "unat (cnt d + 1) = unat (cnt d) + 1"
    using assms(2) by (intro unat_plus_one_64) (simp add: BUFF_SIZE_def)
  have "(unat (getIdx d) + (unat (cnt d) + 1)) mod BUFF_SIZE = (unat (putIdx d) + 1) mod BUFF_SIZE"
    by (metis sy add.assoc mod_add_left_eq)
  then have "kbd_sync d'"
    using wf by (simp add: kbd_sync_def kbd_wf_def d' c unat_next_idx)
  moreover have "pending d' = map (\<lambda>k. if k = 0 then ch
      else buff d ! ((unat (getIdx d) + k) mod BUFF_SIZE)) [0..<Suc (unat (cnt d))]"
  proof -
    have "k = 0 \<longleftrightarrow> (unat (getIdx d) + k) mod BUFF_SIZE = unat (getIdx d)"
      if "k \<le> unat (cnt d)" for k
      using that assms(2) wf(2) by (auto simp: mod_if)
    then show ?thesis
      by (auto simp: pending_def d' c nth_list_update wf)
  qed
  moreover have "\<dots> = (if cnt d = 0 then [ch]
      else ch # tl (pending d) @ [buff d ! unat (putIdx d)])"
  proof (cases "cnt d = 0")
    case True
    then show ?thesis by simp
  next
    case False
    then have "0 < unat (cnt d)" by (simp add: unat_gt_0)
    then show ?thesis
      using False sy by (simp add: pending_def upt_conv_Cons [of 0] map_tl)
  qed
  ultimately show ?thesis by simp
qed

section \<open>The buffer as a queue\<close>

text \<open>
  The circular buffer keeps the contract of a first-in first-out buffer of capacity 1: a
  character stored into the empty buffer is the one taken next.
\<close>

interpretation kbd_fifo: bounded_fifo 1 "\<lambda>ch d. put_char d ch" get_char pending kbd_sync
proof
  fix d x
  assume d: "kbd_sync d" "length (pending d) < 1"
  then have c: "cnt d = 0" by (simp add: length_pending unat_eq_0)
  obtain d' where d': "put_char d x = Some d'"
    using put_char_wf [OF kbd_sync_wf [OF d(1)]] by blast
  then show "\<exists>d'. put_char d x = Some d' \<and> kbd_sync d' \<and> pending d' = pending d @ [x]"
    using put_char_sync [OF d(1) _ d'] c by (simp add: pending_Nil)
next
  fix d
  assume "kbd_sync d" "pending d = []"
  then have "unat (cnt d) = 0" by (metis length_pending list.size(3))
  then show "get_char d = Some (None, d)"
    by (simp add: get_char_empty unat_eq_0)
next
  fix d x xs
  assume d: "kbd_sync d" "pending d = x # xs"
  then have "unat (cnt d) \<noteq> 0" by (metis length_pending length_Cons nat.distinct(1))
  then have c: "cnt d \<noteq> 0" by auto
  then show "\<exists>d'. get_char d = Some (Some x, d') \<and> kbd_sync d' \<and> pending d' = xs"
    using get_char_nonempty [OF kbd_sync_wf [OF d(1)] c] get_char_sync [OF d(1) c] d(2) by simp
qed

section \<open>The handlers, on every path\<close>

text \<open>All devices are well formed, and the array has its declared size.\<close>

definition kbd_ok :: "kbd_module \<Rightarrow> bool" where
  "kbd_ok s \<longleftrightarrow> length (devs s) = KBD_NUM_MINORS \<and> (\<forall>d \<in> set (devs s). kbd_wf d)"

lemma kdo_devs [simp]: "devs (kdo K c s) = devs s"
  by (simp add: kdo_eq)

lemma kdo_devs_update: "kdo K c (s\<lparr>devs := ds\<rparr>) = (kdo K c s)\<lparr>devs := ds\<rparr>"
  by (simp add: kdo_eq)

lemma kbd_dev_index_addr [simp]:
  "kbd_dev_index (kbd_dev_addr i) s = (if i < length (devs s) then Some i else None)"
  by (simp add: kbd_dev_index_def kbd_dev_addr_def)

lemma kbd_dev_index_kdo [simp]: "kbd_dev_index p (kdo K c s) = kbd_dev_index p s"
  by (simp add: kbd_dev_index_def split: ptr.splits)

lemma kbd_dev_index_Some:
  "kbd_dev_index p s = Some i \<Longrightarrow> i < length (devs s)"
  by (auto simp: kbd_dev_index_def split: ptr.splits if_splits)

lemma kbd_ok_nth: "kbd_ok s \<Longrightarrow> i < length (devs s) \<Longrightarrow> kbd_wf (devs s ! i)"
  by (simp add: kbd_ok_def)

lemma kbd_ok_update:
  "kbd_ok s \<Longrightarrow> kbd_wf d \<Longrightarrow> devs s' = (devs s)[i := d] \<Longrightarrow> kbd_ok s'"
  by (auto simp: kbd_ok_def dest: subsetD [OF set_update_subset_insert])

lemma kbd_ok_same: "kbd_ok s \<Longrightarrow> devs s' = devs s \<Longrightarrow> kbd_ok s'"
  by (simp add: kbd_ok_def)

lemma kbd_module0_ok: "kbd_ok kbd_module0"
  using kbd_sync_wf [OF kbd_dev0_sync] by (simp add: kbd_ok_def kbd_module0_def)

text \<open>One turn of the read loop, in terms of the pending characters.\<close>

lemma kbd_read_iter_eq:
  assumes "kbd_dev_index data s = Some i" and "get_char (devs s ! i) = Some (mo, d)"
  shows "kbd_read_iter K data ub rd s =
    (let s1 = kdo K (Sync (Spin_unlock_irqrestore (kbd_lock_addr i)))
                ((kdo K (Sync (Spin_lock_irqsave (kbd_lock_addr i))) s)\<lparr>devs := (devs s)[i := d]\<rparr>) in
     case mo of None \<Rightarrow> Some (Inl (sint rd), s1)
     | Some ch \<Rightarrow>
        let s2 = kdo K (Mem (Put_user ub (unat rd) ch)) s1 in
        if kret K (klog s1) (Mem (Put_user ub (unat rd) ch)) \<noteq> 0 then Some (Inl (- EFAULT), s2)
        else Some (Inr (rd + 1), s2))"
  using assms by (simp add: kbd_read_iter_def kcall_eq Let_def split: option.splits)

lemma kbd_read_iter_ok:
  assumes "kbd_ok s" and "kbd_dev_index data s = Some i"
  obtains x s' where "kbd_read_iter K data ub rd s = Some (x, s')" and "kbd_ok s'"
proof -
  have i: "i < length (devs s)" using assms(2) by (rule kbd_dev_index_Some)
  obtain mo d where g: "get_char (devs s ! i) = Some (mo, d)" "kbd_wf d"
    using get_char_wf [OF kbd_ok_nth [OF assms(1) i]] by blast
  have ok: "kbd_ok s'" if "devs s' = (devs s)[i := d]" for s'
    using kbd_ok_update [OF assms(1) g(2) that] .
  show ?thesis
    using kbd_read_iter_eq [OF assms(2) g(1), of K ub rd] ok that
    by (simp add: Let_def split: option.splits if_splits)
qed

lemma kbd_read_loop_ok:
  assumes "kbd_ok s" and "\<And>s. length (devs s) = KBD_NUM_MINORS \<Longrightarrow> kbd_dev_index data s \<noteq> None"
  shows "\<exists>r s'. kbd_read_loop K n data ub rd s = Some (r, s') \<and> kbd_ok s'"
  using assms(1)
proof (induction n arbitrary: rd s)
  case 0
  then show ?case by simp
next
  case (Suc n)
  obtain i where "kbd_dev_index data s = Some i"
    using assms(2) Suc.prems by (fastforce simp: kbd_ok_def)
  then obtain x s1 where s1: "kbd_read_iter K data ub rd s = Some (x, s1)" "kbd_ok s1"
    by (rule kbd_read_iter_ok [OF Suc.prems])
  then show ?case using Suc.IH [OF s1(2)] by (cases x) simp_all
qed

lemma kbd_write_ok:
  assumes "kbd_ok s" and "kbd_dev_index (private_data f) s = Some i"
  obtains s' where "kbd_write K f ub sz s = Some (sint sz, s')" and "kbd_ok s'"
    and "devs s' = (devs s)[i := reset_buffer (devs s ! i)]"
proof -
  have "kbd_wf (reset_buffer (devs s ! i))"
    using reset_buffer_sync [OF kbd_ok_nth [OF assms(1) kbd_dev_index_Some [OF assms(2)]]]
    by (rule kbd_sync_wf)
  then show ?thesis
    using assms that kbd_ok_update [OF assms(1)] by (simp add: kbd_write_def)
qed

text \<open>The interrupt handler: the scancode the controller delivers, and what becomes of it.\<close>

definition irq_scancode :: "kernel \<Rightarrow> kbd_module \<Rightarrow> u32" where
  "irq_scancode K s = ucast (word_of_int (kret K (klog s) (Port (Inb I8042_DATA_REG))) :: byte)"

lemma kbd_irq_release:
  assumes "is_key_press (irq_scancode K s) = 0"
  shows "\<exists>s'. kbd_irq_handler K irq data s = Some (IRQ_NONE, s') \<and> devs s' = devs s"
  using assms
  by (simp add: kbd_irq_handler_def i8042_read_data_def kcall_eq irq_scancode_def Let_def)

lemma kbd_irq_press:
  assumes "is_key_press (irq_scancode K s) \<noteq> 0" and "kbd_dev_index data s = Some i"
    and "put_char (devs s ! i) (word_of_int (get_ascii (irq_scancode K s))) = Some d"
  shows "\<exists>s'. kbd_irq_handler K irq data s = Some (IRQ_NONE, s') \<and> devs s' = (devs s)[i := d]"
proof -
  show ?thesis
    using assms
    by (simp add: kbd_irq_handler_def i8042_read_data_def kcall_eq irq_scancode_def Let_def)
qed

lemma kbd_irq_ok:
  assumes "kbd_ok s" and "kbd_dev_index data s = Some i"
  obtains s' where "kbd_irq_handler K irq data s = Some (IRQ_NONE, s')" and "kbd_ok s'"
proof (cases "is_key_press (irq_scancode K s) = 0")
  case True
  then show ?thesis using kbd_irq_release [OF True] kbd_ok_same [OF assms(1)] that by blast
next
  case False
  obtain d where d: "put_char (devs s ! i) (word_of_int (get_ascii (irq_scancode K s))) = Some d" "kbd_wf d"
    using put_char_wf [OF kbd_ok_nth [OF assms(1) kbd_dev_index_Some [OF assms(2)]]] by blast
  then show ?thesis
    using kbd_irq_press [OF False assms(2) d(1)] kbd_ok_update [OF assms(1) d(2)] that by blast
qed

text \<open>
  The whole read, on every path: \<open>k\<close> characters reach the user, in the order they are pending and
  at consecutive offsets. Without a fault \<open>k\<close> is the smaller of the request and what is pending;
  on a fault the read returns \<open>-EFAULT\<close> and the character it had taken is gone too.
\<close>

lemma kbd_read_iter_pending:
  assumes "kbd_dev_index data s = Some i" and "kbd_sync (devs s ! i)"
    and "pending (devs s ! i) = c # cs"
  shows "\<exists>s' d'. devs s' = (devs s)[i := d'] \<and> kbd_sync d' \<and> pending d' = cs \<and>
    (kbd_read_iter K data ub rd s = Some (Inl (- EFAULT), s') \<and> user_writes ub (klog s') = user_writes ub (klog s) \<or>
     kbd_read_iter K data ub rd s = Some (Inr (rd + 1), s') \<and>
       user_writes ub (klog s') = user_writes ub (klog s) @ [(unat rd, c)])"
proof -
  obtain d' where d': "get_char (devs s ! i) = Some (Some c, d')" "kbd_sync d'" "pending d' = cs"
    using kbd_fifo.deq_Cons_law [OF assms(2,3)] by blast
  show ?thesis
    using kbd_read_iter_eq [OF assms(1) d'(1), of K ub rd] d'(2,3)
    by (auto simp: Let_def log_simps split: if_splits)
qed

text \<open>The outcome of a read of at most \<open>n\<close> characters that starts at offset \<open>rd\<close>.\<close>

definition reads :: "ptr \<Rightarrow> nat \<Rightarrow> size_t \<Rightarrow> kbd_dev \<Rightarrow> klog \<Rightarrow> int \<Rightarrow> kbd_dev \<Rightarrow> klog \<Rightarrow> bool" where
  "reads ub n rd d h r d' h' \<longleftrightarrow> (\<exists>k.
     user_writes ub h' = user_writes ub h @ zip [unat rd..<unat rd + k] (take k (pending d)) \<and>
     (r = sint (rd + of_nat k) \<and> k = min n (length (pending d)) \<and> pending d' = drop k (pending d) \<or>
      r = - EFAULT \<and> k < min n (length (pending d)) \<and> pending d' = drop (Suc k) (pending d)))"

lemma reads_done:
  assumes "n = 0 \<or> pending d = []" and "user_writes ub h' = user_writes ub h"
  shows "reads ub n rd d h (sint rd) d h'"
  using assms by (auto simp: reads_def intro!: exI [of _ 0])

lemma reads_fault:
  assumes "pending d = c # pending d'" and "user_writes ub h' = user_writes ub h"
  shows "reads ub (Suc n) rd d h (- EFAULT) d' h'"
  using assms by (auto simp: reads_def intro!: exI [of _ 0])

lemma reads_step:
  assumes "pending d = c # pending d1" and "unat (rd + 1) = unat rd + 1"
    and "user_writes ub h1 = user_writes ub h @ [(unat rd, c)]"
    and "reads ub n (rd + 1) d1 h1 r d' h'"
  shows "reads ub (Suc n) rd d h r d' h'"
proof -
  obtain k where "user_writes ub h' = user_writes ub h1 @ zip [unat rd + 1..<unat rd + 1 + k] (take k (pending d1))"
    "r = sint (rd + 1 + of_nat k) \<and> k = min n (length (pending d1)) \<and> pending d' = drop k (pending d1) \<or>
     r = - EFAULT \<and> k < min n (length (pending d1)) \<and> pending d' = drop (Suc k) (pending d1)"
    using assms(4) unfolding reads_def assms(2) by blast
  moreover have "zip [unat rd..<unat rd + Suc k] (take (Suc k) (pending d)) =
      (unat rd, c) # zip [unat rd + 1..<unat rd + 1 + k] (take k (pending d1))"
    by (simp add: assms(1) upt_conv_Cons del: upt_Suc)
  ultimately show ?thesis
    using assms(1,3) unfolding reads_def by (intro exI [of _ "Suc k"]) (auto simp: add_ac)
qed

lemma kbd_read_loop_reads:
  assumes "kbd_dev_index data s = Some i" and "kbd_sync (devs s ! i)"
    and "unat rd + n < 2 ^ 64"
  shows "\<exists>r s' d'. kbd_read_loop K n data ub rd s = Some (r, s') \<and>
    devs s' = (devs s)[i := d'] \<and> kbd_sync d' \<and> reads ub n rd (devs s ! i) (klog s) r d' (klog s')"
  using assms
proof (induction n arbitrary: rd s)
  case 0
  then show ?case
    by (intro exI [of _ "sint rd"] exI [of _ s] exI [of _ "devs s ! i"]) (simp add: reads_done)
next
  case (Suc n)
  show ?case
  proof (cases "pending (devs s ! i)")
    case Nil
    then have "get_char (devs s ! i) = Some (None, devs s ! i)"
      by (rule kbd_fifo.deq_Nil_law [OF Suc.prems(2)])
    from kbd_read_iter_eq [OF Suc.prems(1) this, of K ub rd] show ?thesis
      using Nil Suc.prems(2)
      by (auto simp: Let_def log_simps intro!: exI [of _ "devs s ! i"] reads_done)
  next
    case (Cons c cs)
    then obtain s1 d1 where s1: "devs s1 = (devs s)[i := d1]" "kbd_sync d1" "pending d1 = cs"
      and x: "kbd_read_iter K data ub rd s = Some (Inl (- EFAULT), s1) \<and> user_writes ub (klog s1) = user_writes ub (klog s) \<or>
        kbd_read_iter K data ub rd s = Some (Inr (rd + 1), s1) \<and>
          user_writes ub (klog s1) = user_writes ub (klog s) @ [(unat rd, c)]"
      using kbd_read_iter_pending [OF Suc.prems(1,2) Cons, of K ub rd] by blast
    have idx: "kbd_dev_index data s1 = Some i" and d1: "devs s1 ! i = d1"
      using Suc.prems(1) s1(1) by (auto simp: kbd_dev_index_def split: ptr.splits if_splits)
    have rd: "unat (rd + 1) = unat rd + 1"
      using Suc.prems(3) by (intro unat_plus_one_64) simp
    have "\<exists>r s' d'. kbd_read_loop K n data ub (rd + 1) s1 = Some (r, s') \<and>
        devs s' = (devs s)[i := d'] \<and> kbd_sync d' \<and> reads ub n (rd + 1) d1 (klog s1) r d' (klog s')"
      using Suc.IH [OF idx, of "rd + 1"] s1(1,2) Suc.prems(3) unfolding d1 rd by simp
    then obtain r s' d' where l: "kbd_read_loop K n data ub (rd + 1) s1 = Some (r, s')"
        "devs s' = (devs s)[i := d']" "kbd_sync d'" "reads ub n (rd + 1) d1 (klog s1) r d' (klog s')"
      by blast
    from x show ?thesis
    proof (elim disjE conjE)
      assume "kbd_read_iter K data ub rd s = Some (Inl (- EFAULT), s1)"
        "user_writes ub (klog s1) = user_writes ub (klog s)"
      then show ?thesis
        using s1 reads_fault [of "devs s ! i" c d1] Cons by auto
    next
      assume "kbd_read_iter K data ub rd s = Some (Inr (rd + 1), s1)"
        "user_writes ub (klog s1) = user_writes ub (klog s) @ [(unat rd, c)]"
      then show ?thesis
        using s1(3) l reads_step [OF _ rd, of "devs s ! i" c d1] Cons by auto
    qed
  qed
qed

section \<open>All handlers interleaved\<close>

text \<open>
  The driver at run time: interrupts, turns of any number of read loops and writes happen in any
  order on any of its devices, each atomic because the lock is held. \<open>kbd_reach K n s\<close>: the
  state \<open>s\<close> is reached from the freshly loaded module in \<open>n\<close> steps.
\<close>

inductive kbd_step :: "kernel \<Rightarrow> kbd_module \<Rightarrow> kbd_module \<Rightarrow> bool" for K where
  irq: "i < KBD_NUM_MINORS \<Longrightarrow>
    kbd_irq_handler K irq_no (kbd_dev_addr i) s = Some (r, s') \<Longrightarrow> kbd_step K s s'"
| rd_turn: "i < KBD_NUM_MINORS \<Longrightarrow>
    kbd_read_iter K (kbd_dev_addr i) ub n s = Some (x, s') \<Longrightarrow> kbd_step K s s'"
| wr: "private_data f = kbd_dev_addr i \<Longrightarrow> i < KBD_NUM_MINORS \<Longrightarrow>
    kbd_write K f ub sz s = Some (r, s') \<Longrightarrow> kbd_step K s s'"

inductive kbd_reach :: "kernel \<Rightarrow> nat \<Rightarrow> kbd_module \<Rightarrow> bool" for K where
  start: "kbd_reach K 0 kbd_module0"
| step: "kbd_reach K n s \<Longrightarrow> kbd_step K s s' \<Longrightarrow> kbd_reach K (Suc n) s'"

inductive_cases kbd_stepE: "kbd_step K s s'"

lemma kbd_ok_index:
  "kbd_ok s \<Longrightarrow> i < KBD_NUM_MINORS \<Longrightarrow> kbd_dev_index (kbd_dev_addr i) s = Some i"
  by (simp add: kbd_ok_def)

lemma kbd_step_ok: "kbd_step K s s' \<Longrightarrow> kbd_ok s \<Longrightarrow> kbd_ok s'"
proof (induction rule: kbd_step.induct)
  case (irq i irq_no s r s')
  then show ?case by (metis kbd_irq_ok kbd_ok_index option.inject prod.inject)
next
  case (rd_turn i ub n s x s')
  then show ?case by (metis kbd_read_iter_ok kbd_ok_index option.inject prod.inject)
next
  case (wr f i ub sz s r s')
  then show ?case by (metis kbd_write_ok kbd_ok_index option.inject prod.inject)
qed

lemma kbd_reach_ok: "kbd_reach K n s \<Longrightarrow> kbd_ok s"
  by (induction rule: kbd_reach.induct) (auto intro: kbd_module0_ok kbd_step_ok)

lemma put_char_keeps_sync:
  assumes "kbd_sync d" and "unat (cnt d) + 1 < 2 ^ 64" and "put_char d ch = Some d'"
  shows "kbd_sync d' \<and> unat (cnt d') = unat (cnt d) + 1"
proof -
  have wf: "length (buff d) = BUFF_SIZE" "unat (getIdx d) < BUFF_SIZE" "unat (putIdx d) < BUFF_SIZE"
    and sy: "(unat (getIdx d) + unat (cnt d)) mod BUFF_SIZE = unat (putIdx d)"
    using assms(1) by (auto simp: kbd_sync_def kbd_wf_def)
  have d': "d' = d\<lparr>buff := (buff d)[unat (getIdx d) := ch],
      putIdx := (putIdx d + 1) mod of_nat BUFF_SIZE, cnt := cnt d + 1\<rparr>"
    using assms(3) wf by (simp add: put_char_def)
  have "(unat (getIdx d) + (unat (cnt d) + 1)) mod BUFF_SIZE = (unat (putIdx d) + 1) mod BUFF_SIZE"
    by (metis sy add.assoc mod_add_left_eq)
  then show ?thesis
    using wf unat_plus_one_64 [OF assms(2)]
    by (simp add: kbd_sync_def kbd_wf_def d' unat_next_idx)
qed

lemma get_char_keeps_sync:
  assumes "kbd_sync d" and "get_char d = Some (x, d')"
  shows "kbd_sync d' \<and> unat (cnt d') \<le> unat (cnt d)"
proof (cases "cnt d = 0")
  case True
  then show ?thesis using assms by (simp add: get_char_empty)
next
  case False
  then have "get_char d = Some (Some (hd (pending d)), d')" "cnt d' = cnt d - 1"
    using assms(2) get_char_nonempty [OF kbd_sync_wf [OF assms(1)] False] by auto
  then show ?thesis
    using get_char_sync [OF assms(1) False] False by (simp add: unat_minus_one_64)
qed

text \<open>The devices of a state, each in step with its count, which is at most \<open>n\<close>.\<close>

definition in_step :: "nat \<Rightarrow> kbd_module \<Rightarrow> bool" where
  "in_step n s \<longleftrightarrow> (\<forall>d \<in> set (devs s). kbd_sync d \<and> unat (cnt d) \<le> n)"

lemma in_step_update:
  assumes "in_step n s" and "devs s' = (devs s)[i := d]" and "kbd_sync d" and "unat (cnt d) \<le> Suc n"
  shows "in_step (Suc n) s'"
  using assms by (fastforce simp: in_step_def dest: subsetD [OF set_update_subset_insert])

lemma in_step_nth: "in_step n s \<Longrightarrow> i < length (devs s) \<Longrightarrow> kbd_sync (devs s ! i) \<and> unat (cnt (devs s ! i)) \<le> n"
  by (simp add: in_step_def)

lemma kbd_step_in_step:
  assumes "kbd_step K s s'" and "kbd_ok s" and "in_step n s" and "Suc n < 2 ^ 64"
  shows "in_step (Suc n) s'"
  using assms(1)
proof (cases rule: kbd_step.cases)
  case (irq i irq_no r)
  then have idx: "kbd_dev_index (kbd_dev_addr i) s = Some i" and i: "i < length (devs s)"
    using assms(2) by (simp_all add: kbd_ok_def)
  show ?thesis
  proof (cases "is_key_press (irq_scancode K s) = 0")
    case True
    then have "devs s' = devs s" using kbd_irq_release [OF True, of irq_no "kbd_dev_addr i"] irq(2) by auto
    then show ?thesis using assms(3) by (auto simp: in_step_def)
  next
    case False
    obtain d where d: "put_char (devs s ! i) (word_of_int (get_ascii (irq_scancode K s))) = Some d"
      using put_char_wf [OF kbd_ok_nth [OF assms(2) i]] by blast
    then have "devs s' = (devs s)[i := d]" using kbd_irq_press [OF False idx d, of irq_no] irq(2) by auto
    then show ?thesis
      using in_step_update [OF assms(3)] put_char_keeps_sync [OF _ _ d] in_step_nth [OF assms(3) i] assms(4)
      by simp
  qed
next
  case (rd_turn i ub rd x)
  then have idx: "kbd_dev_index (kbd_dev_addr i) s = Some i" and i: "i < length (devs s)"
    using assms(2) by (simp_all add: kbd_ok_def)
  obtain mo d where d: "get_char (devs s ! i) = Some (mo, d)"
    using get_char_wf [OF kbd_ok_nth [OF assms(2) i]] by blast
  have "devs s' = (devs s)[i := d]"
    using kbd_read_iter_eq [OF idx d, of K ub rd] rd_turn(2)
    by (auto simp: Let_def split: option.splits if_splits)
  then show ?thesis
    using in_step_update [OF assms(3)] get_char_keeps_sync [OF _ d] in_step_nth [OF assms(3) i] by simp
next
  case (wr f i ub sz r)
  then have idx: "kbd_dev_index (private_data f) s = Some i" and i: "i < length (devs s)"
    using assms(2) by (simp_all add: kbd_ok_def)
  obtain s1 where "kbd_write K f ub sz s = Some (sint sz, s1)"
      "devs s1 = (devs s)[i := reset_buffer (devs s ! i)]"
    using kbd_write_ok [OF assms(2) idx] by blast
  moreover have "unat (cnt (reset_buffer (devs s ! i))) \<le> Suc n" by (simp add: reset_buffer_def)
  ultimately show ?thesis
    using in_step_update [OF assms(3)] reset_buffer_sync [OF kbd_ok_nth [OF assms(2) i]] wr(3) by simp
qed

lemma kbd_reach_in_step:
  assumes "kbd_reach K n s" and "n < 2 ^ 64"
  shows "in_step n s"
  using assms
proof (induction rule: kbd_reach.induct)
  case start
  then show ?case by (simp add: in_step_def kbd_module0_def kbd_dev0_sync) (simp add: kbd_dev0_def)
next
  case (step n s s')
  then show ?case using kbd_step_in_step [OF step(2) kbd_reach_ok [OF step(1)]] by simp
qed

section \<open>Scancodes\<close>

lemma released_bit: "bit SCANCODE_RELEASED_MASK n \<longleftrightarrow> n = 7"
proof -
  have exp: "SCANCODE_RELEASED_MASK = 2 ^ 7" by (simp add: SCANCODE_RELEASED_MASK_def)
  show ?thesis unfolding exp bit_exp_iff by (auto simp: possible_bit_word)
qed

text \<open>The keys the driver knows, by scancode; every other code gives a question mark.\<close>

definition keymap :: "(nat \<times> char) list" where
  "keymap = zip [2..<12] row1 @ zip [16..<26] row2 @ zip [30..<39] row3 @ zip [44..<51] row4 @
     [(57, CHR '' ''), (28, CHR 0x0A)]"

definition ascii_of :: "nat \<Rightarrow> char" where
  "ascii_of k = (case map_of keymap k of Some c \<Rightarrow> c | None \<Rightarrow> CHR ''?'')"

lemma ascii_of_rows:
  "ascii_of k =
    (if 2 \<le> k \<and> k \<le> 11 then row1 ! (k - 2)
     else if 16 \<le> k \<and> k \<le> 25 then row2 ! (k - 16)
     else if 30 \<le> k \<and> k \<le> 38 then row3 ! (k - 30)
     else if 44 \<le> k \<and> k \<le> 50 then row4 ! (k - 44)
     else if k = 57 then CHR '' '' else if k = 28 then CHR 0x0A else CHR ''?'')"
proof (cases "k \<le> 57")
  case True
  have "list_all (\<lambda>k. ascii_of k =
      (if 2 \<le> k \<and> k \<le> 11 then row1 ! (k - 2)
       else if 16 \<le> k \<and> k \<le> 25 then row2 ! (k - 16)
       else if 30 \<le> k \<and> k \<le> 38 then row3 ! (k - 30)
       else if 44 \<le> k \<and> k \<le> 50 then row4 ! (k - 44)
       else if k = 57 then CHR '' '' else if k = 28 then CHR 0x0A else CHR ''?'')) [0..<58]"
    by code_simp
  with True show ?thesis by (simp add: list_all_iff)
next
  case False
  have "list_all (\<lambda>(k, c). k \<le> 57) keymap" by code_simp
  then have "map_of keymap k = None"
    using False by (auto simp: map_of_eq_None_iff list_all_iff)
  with False show ?thesis by (simp add: ascii_of_def)
qed

lemma get_ascii_keymap:
  "get_ascii sc = of_char (ascii_of (unat (sc AND NOT SCANCODE_RELEASED_MASK)))"
  by (simp add: get_ascii_def Let_def ascii_of_rows word_le_nat_alt unat_sub_if' word_unat_eq_iff)

lemma keymap_distinct: "distinct (map snd keymap)"
  by code_simp

lemma keymap_known: "CHR ''?'' \<notin> set (map snd keymap)"
  by code_simp

lemma ascii_of_inj:
  assumes "ascii_of i = ascii_of j" and "ascii_of i \<noteq> CHR ''?''"
  shows "i = j"
proof -
  obtain c where c: "map_of keymap i = Some c" "map_of keymap j = Some c"
    using assms by (auto simp: ascii_of_def split: option.splits)
  then have "(i, c) \<in> set keymap" "(j, c) \<in> set keymap" by (auto dest: map_of_SomeD)
  then have "(i, c) = (j, c)"
    using keymap_distinct by (metis distinct_map inj_onD snd_conv)
  then show ?thesis by simp
qed

section \<open>Properties\<close>

text \<open>A kernel whose keyboard controller delivers the scancode \<open>b\<close>, for the witnesses.\<close>

definition key_kernel :: "int \<Rightarrow> kernel" where
  "key_kernel b = bump_kernel\<lparr>kret := (\<lambda>h c. if c = Port (Inb I8042_DATA_REG) then b else bump_ret h c)\<rparr>"

definition kbd_file :: kfile where
  "kbd_file = \<lparr>private_data = kbd_dev_addr 0\<rparr>"

text \<open>
  C2: No sequence of interrupts, reads and writes on the driver's devices leads to a state in which
  a handler oopses: from every reachable state the interrupt handler, a read of any size and a
  write return, the interrupt handler always with \<open>IRQ_NONE\<close>.
\<close>

theorem kbd_handlers_never_oops:
  assumes "kbd_reach K n s" and "i < KBD_NUM_MINORS" and "private_data f = kbd_dev_addr i"
  shows "(\<exists>s'. kbd_irq_handler K irq_no (kbd_dev_addr i) s = Some (IRQ_NONE, s')) \<and>
    (\<exists>r s'. kbd_read K f ub sz s = Some (r, s')) \<and>
    (\<exists>s'. kbd_write K f ub sz s = Some (sint sz, s'))"
proof -
  have ok: "kbd_ok s" using assms(1) by (rule kbd_reach_ok)
  have idx: "kbd_dev_index (kbd_dev_addr i) s = Some i" by (rule kbd_ok_index [OF ok assms(2)])
  have "\<exists>r s'. kbd_read K f ub sz s = Some (r, s')"
    using kbd_read_loop_ok [OF ok, of "kbd_dev_addr i" K "unat sz" ub 0] assms(2)
    by (auto simp: kbd_read_def assms(3))
  then show ?thesis
    using kbd_irq_ok [OF ok idx] kbd_write_ok [OF ok] idx assms(3) by metis
qed

theorem kbd_handlers_never_oops_witness:
  "\<exists>s. kbd_reach (key_kernel 30) 1 s \<and>
    (\<exists>s'. kbd_irq_handler (key_kernel 30) 1 (kbd_dev_addr 0) s = Some (IRQ_NONE, s')) \<and>
    (\<exists>r s'. kbd_read (key_kernel 30) kbd_file Null 5 s = Some (r, s')) \<and>
    (\<exists>s'. kbd_write (key_kernel 30) kbd_file Null 5 s = Some (sint (5 :: size_t), s'))"
proof -
  have n: "0 < KBD_NUM_MINORS" and f: "private_data kbd_file = kbd_dev_addr 0"
    by (simp_all add: KBD_NUM_MINORS_def kbd_file_def)
  obtain s where "kbd_irq_handler (key_kernel 30) 1 (kbd_dev_addr 0) kbd_module0 = Some (IRQ_NONE, s)"
    using kbd_handlers_never_oops [OF kbd_reach.start n f] by blast
  then have "kbd_reach (key_kernel 30) 1 s"
    using kbd_reach.step [OF kbd_reach.start kbd_step.irq [OF n]] by simp
  then show ?thesis using kbd_handlers_never_oops [OF _ n f] by blast
qed

text \<open>
  C1: In every state reached in fewer than \<open>2 ^ 64\<close> steps the write index of each device is its
  read index plus the count, modulo the buffer size, and the count is at most the number of steps
  (nothing bounds it by the size of the buffer).
\<close>

theorem kbd_indices_in_step:
  assumes "kbd_reach K n s" and "n < 2 ^ 64" and "d \<in> set (devs s)"
  shows "unat (putIdx d) = (unat (getIdx d) + unat (cnt d)) mod BUFF_SIZE \<and>
    unat (getIdx d) < BUFF_SIZE \<and> length (buff d) = BUFF_SIZE \<and> unat (cnt d) \<le> n"
  using kbd_reach_in_step [OF assms(1,2)] assms(3)
  by (auto simp: in_step_def kbd_sync_def kbd_wf_def)

text \<open>After one key press.\<close>

lemma kbd_reach_pressed:
  "\<exists>s. kbd_reach bump_kernel 1 s \<and> (Sync (Spin_lock (kbd_lock_addr 0)), 0) \<in> set (klog s) \<and> cnt (devs s ! 0) = 1 \<and> devs s \<noteq> []"
proof -
  have n: "0 < KBD_NUM_MINORS" by (simp add: KBD_NUM_MINORS_def)
  have "\<exists>s. kbd_irq_handler bump_kernel 1 (kbd_dev_addr 0) kbd_module0 = Some (IRQ_NONE, s) \<and>
      (Sync (Spin_lock (kbd_lock_addr 0)), 0) \<in> set (klog s) \<and> cnt (devs s ! 0) = 1 \<and> devs s \<noteq> []"
    by (simp add: kbd_irq_handler_def i8042_read_data_def kcall_eq kdo_klog Let_def is_key_press_def put_char_def
        kbd_module0_def kbd_dev0_def KBD_NUM_MINORS_def BUFF_SIZE_def)
  then show ?thesis using kbd_reach.step [OF kbd_reach.start kbd_step.irq [OF n]] by fastforce
qed

theorem kbd_indices_in_step_witness:
  "\<exists>s. kbd_reach bump_kernel 1 s \<and> unat (cnt (devs s ! 0)) = 1 \<and>
     unat (putIdx (devs s ! 0)) = (unat (getIdx (devs s ! 0)) + 1) mod BUFF_SIZE"
proof -
  obtain s where s: "kbd_reach bump_kernel 1 s" "cnt (devs s ! 0) = 1" "devs s \<noteq> []" using kbd_reach_pressed by blast
  have "devs s ! 0 \<in> set (devs s)" using s(3) by simp
  from kbd_indices_in_step [OF s(1) _ this] s(1,2) show ?thesis by auto
qed


text \<open>A device with the character \<open>a\<close> pending, for the witnesses.\<close>

definition kbd_dev1 :: kbd_dev where
  "kbd_dev1 = \<lparr>buff = 97 # replicate 99 0, putIdx = 1, getIdx = 0, cnt = 1\<rparr>"

lemma kbd_dev1_sync: "kbd_sync kbd_dev1"
  by (simp add: kbd_sync_def kbd_wf_def kbd_dev1_def BUFF_SIZE_def)

lemma kbd_dev1_pending: "pending kbd_dev1 = [97]"
  by (simp add: pending_def kbd_dev1_def)


text \<open>
  C28: As long as at most one character is pending, the buffer is a first-in first-out queue: over every
  interleaving of stores and reads that keeps to that, the reader gets the stored
  characters in order and none is lost.
\<close>

theorem kbd_in_order_when_reader_keeps_up:
  assumes "kbd_sync d" and "within 1 (length (pending d)) ops"
  shows "\<exists>out d'. qrun (\<lambda>ch d. put_char d ch) get_char ops d = Some (out, d') \<and>
    pending d @ enqueued ops = out @ pending d'"
  using kbd_fifo.in_order_delivery [OF assms] by blast

theorem kbd_in_order_when_reader_keeps_up_witness:
  "within 1 (length (pending kbd_dev1)) [Deq, Enq 98, Deq, Deq, Enq 99] \<and>
   (\<exists>out d'. qrun (\<lambda>ch d. put_char d ch) get_char [Deq, Enq 98, Deq, Deq, Enq 99] kbd_dev1 = Some (out, d') \<and>
     [97, 98, 99] = out @ pending d')"
proof -
  have w: "within 1 (length (pending kbd_dev1)) [Deq, Enq (98 :: byte), Deq, Deq, Enq 99]"
    by (simp add: kbd_dev1_pending)
  show ?thesis
    using w kbd_in_order_when_reader_keeps_up [OF kbd_dev1_sync w] by (simp add: kbd_dev1_pending)
qed

text \<open>
  A store into a buffer with \<open>0 < n < BUFF_SIZE\<close> pending characters does not append: it replaces
  the oldest pending character, which is lost, and appends the byte that happened to be in the slot of
  the write index.
\<close>

theorem kbd_store_overwrites_oldest:
  assumes "kbd_sync d" and "pending d = c # cs" and "length (c # cs) < BUFF_SIZE"
  shows "\<exists>d'. put_char d ch = Some d' \<and> pending d' = ch # cs @ [buff d ! unat (putIdx d)]"
proof -
  obtain d' where d': "put_char d ch = Some d'"
    using put_char_wf [OF kbd_sync_wf [OF assms(1)]] by blast
  have "unat (cnt d) < BUFF_SIZE" "cnt d \<noteq> 0"
    using assms(2,3) length_pending [of d] by (auto simp: pending_Nil)
  then show ?thesis
    using put_char_sync [OF assms(1) _ d'] d' assms(2) by simp
qed

theorem kbd_store_overwrites_oldest_witness:
  "\<exists>d'. put_char kbd_dev1 98 = Some d' \<and> pending d' = [98, 0]"
  using kbd_store_overwrites_oldest [OF kbd_dev1_sync kbd_dev1_pending, of 98]
  by (simp add: BUFF_SIZE_def kbd_dev1_def)

text \<open>
  The buffer is not a first-in first-out queue of two characters (nor, as its size suggests,
  of a hundred): the contract fails at the second store.
\<close>

theorem kbd_not_a_fifo_of_two:
  "\<not> bounded_fifo 2 (\<lambda>ch d. put_char d ch) get_char pending kbd_sync"
proof
  assume q: "bounded_fifo 2 (\<lambda>ch d. put_char d ch) get_char pending kbd_sync"
  obtain d' where "put_char kbd_dev1 98 = Some d'" "pending d' = [97, 98]"
    using bounded_fifo.enq_law [OF q kbd_dev1_sync, of 98] by (auto simp: kbd_dev1_pending)
  moreover have "\<exists>d'. put_char kbd_dev1 98 = Some d' \<and> pending d' = [98, 0]"
    by (simp add: put_char_def kbd_dev1_def pending_def BUFF_SIZE_def upt_rec)
  ultimately show False by simp
qed

text \<open>
  The keys of the US keyboard that the driver knows and their scancodes (set 1), written out key by key: the digits, the letters,
  the space bar and the enter key.
\<close>

definition us_keys :: "(nat \<times> char) list" where
  "us_keys = [
     (2, CHR ''1''), (3, CHR ''2''), (4, CHR ''3''), (5, CHR ''4''), (6, CHR ''5''), (7, CHR ''6''), (8, CHR
     ''7''), (9, CHR ''8''), (10, CHR ''9''), (11, CHR ''0''),
     (16, CHR ''q''), (17, CHR ''w''), (18, CHR ''e''), (19, CHR ''r''), (20, CHR ''t''), (21, CHR ''y''), (22, CHR
     ''u''), (23, CHR ''i''), (24, CHR ''o''), (25, CHR ''p''),
     (30, CHR ''a''), (31, CHR ''s''), (32, CHR ''d''), (33, CHR ''f''), (34, CHR ''g''), (35, CHR ''h''), (36, CHR
     ''j''), (37, CHR ''k''), (38, CHR ''l''),
     (44, CHR ''z''), (45, CHR ''x''), (46, CHR ''c''), (47, CHR ''v''), (48, CHR ''b''), (49, CHR ''n''), (50, CHR
     ''m''),
     (57, CHR '' ''), (28, CHR 0x0A)]"

text \<open>The code of such a key, read from the controller, is a press and gives the key's character.\<close>

lemma us_keys_ascii:
  assumes "(k, c) \<in> set us_keys" and "kret K (klog s) (Port (Inb I8042_DATA_REG)) = int k"
  shows "is_key_press (irq_scancode K s) = 1" "word_of_int (get_ascii (irq_scancode K s)) = (of_char c :: byte)"
proof -
  have "list_all (\<lambda>(k, c). k < 128 \<and> ascii_of k = c) us_keys" by code_simp
  then have k: "k < 128" "ascii_of k = c" using assms(1) by (auto simp: list_all_iff)
  have sc: "unat (irq_scancode K s) = k"
    using k(1) by (simp add: irq_scancode_def assms(2) unsigned_ucast_eq unsigned_of_nat take_bit_nat_eq_self)
  have "\<not> bit (unat (irq_scancode K s)) 7" using k(1) unfolding sc by (simp add: bit_iff_odd)
  then have "\<not> bit (irq_scancode K s) 7" by (simp add: bit_unsigned_iff)
  then have off: "irq_scancode K s AND SCANCODE_RELEASED_MASK = 0" "irq_scancode K s AND NOT SCANCODE_RELEASED_MASK = irq_scancode K s"
    by (auto intro!: bit_word_eqI simp: released_bit bit_simps)
  then show "is_key_press (irq_scancode K s) = 1" by (simp add: is_key_press_def)
  show "word_of_int (get_ascii (irq_scancode K s)) = (of_char c :: byte)"
    by (simp add: get_ascii_keymap off(2) sc k(2) of_int_of_char)
qed

text \<open>A read of a device with one character pending.\<close>

lemma kbd_read_one:
  assumes "kbd_dev_index (private_data f) s = Some i" and "kbd_sync (devs s ! i)" and "pending (devs s ! i) = [c]" and "0 < sz"
  shows "\<exists>v h es s' d. klog s' = klog s @ h @ (Mem (Put_user ub 0 c), v) # es \<and> v = kret K (klog s @ h) (Mem (Put_user ub 0 c)) \<and>
    devs s' = (devs s)[i := d] \<and> pending d = [] \<and>
    (if v = 0 then kbd_read K f ub sz s = Some (1, s') \<and> user_writes ub (klog s') = user_writes ub (klog s) @ [(0, c)]
     else kbd_read K f ub sz s = Some (- EFAULT, s') \<and> user_writes ub (klog s') = user_writes ub (klog s))"
proof -
  obtain d where d: "get_char (devs s ! i) = Some (Some c, d)" "kbd_sync d" "pending d = []"
    using kbd_fifo.deq_Cons_law [OF assms(2,3)] by blast
  have i: "i < length (devs s)" by (rule kbd_dev_index_Some [OF assms(1)])
  obtain n where n: "unat sz = Suc n" using assms(4) by (metis not0_implies_Suc unat_gt_0 word_gt_0 neq0_conv)
  define s1 where "s1 = kdo K (Sync (Spin_unlock_irqrestore (kbd_lock_addr i)))
    ((kdo K (Sync (Spin_lock_irqsave (kbd_lock_addr i))) s)\<lparr>devs := (devs s)[i := d]\<rparr>)"
  define s2 where "s2 = kdo K (Mem (Put_user ub 0 c)) s1"
  define v where "v = kret K (klog s1) (Mem (Put_user ub 0 c))"
  have it: "kbd_read_iter K (private_data f) ub 0 s = Some (if v \<noteq> 0 then Inl (- EFAULT) else Inr 1, s2)"
    using kbd_read_iter_eq [OF assms(1) d(1), of K ub 0] by (simp add: Let_def s1_def s2_def v_def)
  obtain h where h: "klog s1 = klog s @ h" "concat (map (user_write ub) h) = []" by (simp add: s1_def kdo_klog)
  then have log: "klog s2 = klog s @ h @ [(Mem (Put_user ub 0 c), v)]" "v = kret K (klog s @ h) (Mem (Put_user ub 0 c))"
    by (simp_all add: s2_def v_def kdo_klog)
  have w: "user_writes ub (klog s2) = user_writes ub (klog s) @ (if v = 0 then [(0, c)] else [])"
    by (simp add: log h(2) log_simps)
  have dv: "devs s2 = (devs s)[i := d]" by (simp add: s2_def s1_def)
  show ?thesis
  proof (cases "v = 0")
    case False
    then show ?thesis
      using it log w dv d(3) n
      by (intro exI [of _ v] exI [of _ h] exI [of _ "[]"] exI [of _ s2] exI [of _ d]) (simp add: kbd_read_def)
  next
    case True
    have idx: "kbd_dev_index (private_data f) s2 = Some i" "devs s2 ! i = d"
      using assms(1) dv i by (auto simp: kbd_dev_index_def split: ptr.splits if_splits)
    have "get_char (devs s2 ! i) = Some (None, d)" using kbd_fifo.deq_Nil_law [OF d(2,3)] idx(2) by simp
    note it2 = kbd_read_iter_eq [OF idx(1) this, of K ub 1]
    define s3 where "s3 = (if n = 0 then s2 else kdo K (Sync (Spin_unlock_irqrestore (kbd_lock_addr i)))
      ((kdo K (Sync (Spin_lock_irqsave (kbd_lock_addr i))) s2)\<lparr>devs := (devs s2)[i := d]\<rparr>))"
    have "kbd_read_loop K n (private_data f) ub 1 s2 = Some (1, s3)"
      using it2 by (cases n) (simp_all add: s3_def Let_def)
    moreover have "user_writes ub (klog s3) = user_writes ub (klog s2)" "devs s3 = (devs s)[i := d]"
      using dv by (simp_all add: s3_def log_simps)
    moreover have "\<exists>es. klog s3 = klog s2 @ es" by (cases "n = 0") (simp_all add: s3_def kdo_klog)
    then obtain es where "klog s3 = klog s2 @ es" ..
    ultimately show ?thesis
      using True it log w d(3) n
      by (intro exI [of _ v] exI [of _ h] exI [of _ es] exI [of _ s3] exI [of _ d]) (auto simp: kbd_read_def)
  qed
qed

text \<open>
  C39: A key pressed while nothing is pending reaches the next reader. For every key of the table, when the controller delivers
  its code, the interrupt handler and then a read of any positive number of characters make one store into the user's
  buffer, of the character of the key at its start. If the store succeeds, the read returns 1 and this is all the user has got; if
  it faults, the read returns \<open>-EFAULT\<close> and the user has got nothing. Either way nothing is pending afterwards, so in the
  second case the key is lost.
\<close>

theorem kbd_press_then_read:
  assumes "kbd_dev_index (private_data f) s = Some i" and "kbd_sync (devs s ! i)" and "pending (devs s ! i) = []"
    and "(k, c) \<in> set us_keys" and "kret K (klog s) (Port (Inb 0x60)) = int k" and "0 < sz"
  shows "\<exists>s1 v h es s2. kbd_irq_handler K irq_no (private_data f) s = Some (IRQ_NONE, s1) \<and>
    klog s2 = klog s1 @ h @ (Mem (Put_user ub 0 (of_char c)), v) # es \<and>
    v = kret K (klog s1 @ h) (Mem (Put_user ub 0 (of_char c))) \<and> pending (devs s2 ! i) = [] \<and>
    (if v = 0 then kbd_read K f ub sz s1 = Some (1, s2) \<and> user_writes ub (klog s2) = user_writes ub (klog s1) @ [(0, of_char c)]
     else kbd_read K f ub sz s1 = Some (- EFAULT, s2) \<and> user_writes ub (klog s2) = user_writes ub (klog s1))"
proof -
  have "kret K (klog s) (Port (Inb I8042_DATA_REG)) = int k" using assms(5) by (simp add: I8042_DATA_REG_def)
  note key = us_keys_ascii [OF assms(4) this]
  let ?c = "of_char c :: byte"
  obtain d1 where d1: "put_char (devs s ! i) ?c = Some d1" "kbd_sync d1" "pending d1 = [?c]"
    using kbd_fifo.enq_law [OF assms(2), of ?c] assms(3) by auto
  obtain s1 where s1: "kbd_irq_handler K irq_no (private_data f) s = Some (IRQ_NONE, s1)"
      "devs s1 = (devs s)[i := d1]"
    using kbd_irq_press [of K s "private_data f" i d1 irq_no] assms(1) d1(1) key by auto
  have i: "i < length (devs s)" by (rule kbd_dev_index_Some [OF assms(1)])
  then have idx: "kbd_dev_index (private_data f) s1 = Some i" "devs s1 ! i = d1"
    using assms(1) s1(2) by (auto simp: kbd_dev_index_def split: ptr.splits if_splits)
  obtain v h es s2 d where r: "klog s2 = klog s1 @ h @ (Mem (Put_user ub 0 ?c), v) # es"
      "v = kret K (klog s1 @ h) (Mem (Put_user ub 0 ?c))" "devs s2 = (devs s1)[i := d]" "pending d = []"
      "if v = 0 then kbd_read K f ub sz s1 = Some (1, s2) \<and> user_writes ub (klog s2) = user_writes ub (klog s1) @ [(0, ?c)]
       else kbd_read K f ub sz s1 = Some (- EFAULT, s2) \<and> user_writes ub (klog s2) = user_writes ub (klog s1)"
    using kbd_read_one [OF idx(1) _ _ assms(6), of ?c ub K] d1(2,3) unfolding idx(2) by blast
  have "pending (devs s2 ! i) = []" using r(3,4) i s1(2) by simp
  then show ?thesis using s1(1) r(1,2,5) by blast
qed

theorem kbd_press_then_read_witness:
  "\<exists>s1 s2. kbd_irq_handler (key_kernel 30) 1 (kbd_dev_addr 0) kbd_module0 = Some (IRQ_NONE, s1) \<and>
    kbd_read (key_kernel 30) kbd_file (Heap 7) 5 s1 = Some (1, s2) \<and>
    user_writes (Heap 7) (klog s2) = user_writes (Heap 7) (klog s1) @ [(0, of_char (CHR ''a''))]"
proof -
  have a: "(30, CHR ''a'') \<in> set us_keys" by (simp add: us_keys_def)
  have k: "kret (key_kernel 30) (klog kbd_module0) (Port (Inb 0x60)) = int 30"
    by (simp add: key_kernel_def I8042_DATA_REG_def)
  have h: "kbd_dev_index (private_data kbd_file) kbd_module0 = Some 0" "devs kbd_module0 ! 0 = kbd_dev0"
    by (simp_all add: kbd_file_def kbd_module0_def KBD_NUM_MINORS_def)
  have p: "kbd_sync (devs kbd_module0 ! 0)" "pending (devs kbd_module0 ! 0) = []"
    by (simp_all add: h(2) kbd_dev0_sync pending_def) (simp add: kbd_dev0_def)
  have "0 < (5 :: size_t)" by simp
  from kbd_press_then_read [OF h(1) p a k this, of 1 "Heap 7"]
  obtain s1 v s2 where r: "kbd_irq_handler (key_kernel 30) 1 (private_data kbd_file) kbd_module0 = Some (IRQ_NONE, s1)" "v = 0"
      "if v = 0 then kbd_read (key_kernel 30) kbd_file (Heap 7) 5 s1 = Some (1, s2) \<and>
         user_writes (Heap 7) (klog s2) = user_writes (Heap 7) (klog s1) @ [(0, of_char (CHR ''a''))]
       else kbd_read (key_kernel 30) kbd_file (Heap 7) 5 s1 = Some (- EFAULT, s2) \<and>
         user_writes (Heap 7) (klog s2) = user_writes (Heap 7) (klog s1)"
    by (elim exE conjE) (rule that, auto simp: key_kernel_def)
  then show ?thesis by (auto simp: kbd_file_def)
qed

text \<open>
  Distinct keys give distinct characters: two scancodes that give the same character, other than
  the question mark of the unknown keys, are the press or release codes of one key.
\<close>

theorem get_ascii_distinguishes_keys:
  assumes "get_ascii a = get_ascii b" and "get_ascii a \<noteq> of_char (CHR ''?'')"
  shows "a AND NOT SCANCODE_RELEASED_MASK = b AND NOT SCANCODE_RELEASED_MASK"
proof -
  have "ascii_of (unat (a AND NOT SCANCODE_RELEASED_MASK)) \<noteq> CHR ''?''"
    using assms(2) by (metis get_ascii_keymap)
  then show ?thesis
    using assms(1) ascii_of_inj by (simp add: get_ascii_keymap word_unat_eq_iff)
qed

theorem get_ascii_distinguishes_keys_witness:
  "get_ascii 0x1e = get_ascii 0x9e \<and> get_ascii 0x1e \<noteq> of_char (CHR ''?'') \<and>
    (0x1e :: u32) AND NOT SCANCODE_RELEASED_MASK = 0x9e AND NOT SCANCODE_RELEASED_MASK"
proof -
  have "get_ascii 0x1e = get_ascii 0x9e" "get_ascii 0x1e \<noteq> of_char (CHR ''?'')"
    by (simp_all add: get_ascii_def SCANCODE_RELEASED_MASK_def row3_def)
  then show ?thesis using get_ascii_distinguishes_keys by blast
qed

text \<open>
  The bit \<open>0x80\<close> alone tells a release from a press, and the character does not depend on it.
\<close>

theorem scancode_release_bit:
  "is_key_press (sc XOR SCANCODE_RELEASED_MASK) = 1 - is_key_press sc \<and>
   get_ascii (sc XOR SCANCODE_RELEASED_MASK) = get_ascii sc"
proof -
  have exp: "SCANCODE_RELEASED_MASK = 2 ^ 7" by (simp add: SCANCODE_RELEASED_MASK_def)
  have "(sc XOR SCANCODE_RELEASED_MASK) AND NOT SCANCODE_RELEASED_MASK = sc AND NOT SCANCODE_RELEASED_MASK"
    by (rule bit_word_eqI) (auto simp: bit_simps)
  moreover have "w AND SCANCODE_RELEASED_MASK = 0 \<longleftrightarrow> \<not> bit w 7" for w :: u32
    unfolding exp by (rule and_exp_eq_0_iff_not_bit)
  moreover have "bit (sc XOR SCANCODE_RELEASED_MASK) 7 \<longleftrightarrow> \<not> bit sc 7"
    by (simp add: released_bit bit_simps)
  ultimately show ?thesis
    by (simp add: is_key_press_def get_ascii_keymap)
qed

lemma kbd_read_loop_locks:
  "locks (klog s) = Some [] \<Longrightarrow> kbd_read_loop K n data ub rd s = Some (r, s') \<Longrightarrow>
    locks (klog s') = Some []"
proof (induction n arbitrary: rd s)
  case 0
  then show ?case by simp
next
  case (Suc n)
  then obtain x s1 where s1: "kbd_read_iter K data ub rd s = Some (x, s1)"
    by (auto simp: bind_Some_conv)
  then have "locks (klog s1) = Some []"
    using Suc.prems(1)
    by (auto simp: kbd_read_iter_def kcall_eq Let_def bind_Some_conv log_simps
        split: option.splits if_splits)
  then show ?case using Suc.IH Suc.prems(2) s1 by (auto split: sum.splits)
qed

text \<open>
  Lock discipline: a handler entered with no lock held leaves with no lock held, on every path,
  having released each lock it took with the primitive that matches.
\<close>

theorem kbd_handlers_release_their_locks:
  assumes "locks (klog s) = Some []"
  shows "(kbd_irq_handler K irq_no data s = Some (r1, s1) \<longrightarrow> locks (klog s1) = Some []) \<and>
    (kbd_read K f ub sz s = Some (r2, s2) \<longrightarrow> locks (klog s2) = Some []) \<and>
    (kbd_write K f ub sz s = Some (r3, s3) \<longrightarrow> locks (klog s3) = Some [])"
  using assms kbd_read_loop_locks [OF assms]
  by (auto simp: kbd_irq_handler_def i8042_read_data_def kbd_read_def kbd_write_def kcall_eq Let_def
      bind_Some_conv log_simps split: if_splits)

theorem kbd_handlers_release_their_locks_witness:
  "\<exists>r s1. kbd_read (key_kernel 30) kbd_file Null 3 kbd_module0 = Some (r, s1) \<and> locks (klog s1) = Some []"
proof -
  have l: "locks (klog kbd_module0) = Some []" by (simp add: kbd_module0_def log_simps)
  have f: "kbd_dev_index (private_data kbd_file) kbd_module0 = Some 0" "kbd_sync (devs kbd_module0 ! 0)"
    by (simp_all add: kbd_file_def kbd_module0_def KBD_NUM_MINORS_def kbd_dev0_sync)
  have "unat (0 :: size_t) + unat (3 :: size_t) < 2 ^ 64" by simp
  then obtain r s1 where "kbd_read (key_kernel 30) kbd_file Null 3 kbd_module0 = Some (r, s1)"
    using kbd_read_loop_reads [OF f] unfolding kbd_read_def by blast
  then show ?thesis using kbd_handlers_release_their_locks [OF l] by blast
qed

lemmas kbd_init_unfold = kbd_init_def init_minors_def request_irqs_def releaseDataPort_def
  releaseStatusPort_def

lemma NUM_MINORS_upt: "[0..<KBD_NUM_MINORS] = [0]"
  by (simp add: KBD_NUM_MINORS_def)

text \<open>
  Initialisation never keeps the I/O ports: whatever the kernel answers, and also when it returns 0,
  the module holds no port after \<open>kbd_init\<close>, because the success path runs into the release labels.
\<close>

theorem kbd_init_keeps_no_port:
  assumes "held (klog s) = []" and "kbd_init K s = (r, s')"
  shows "RPort p n \<notin> set (held (klog s'))"
proof -
  have "held_ports (klog s) = []" using assms(1) by (simp add: held_ports_def)
  then have "held_ports (klog s') = []"
    using assms(2)
    by (auto simp: kbd_init_unfold NUM_MINORS_upt kcall_eq Let_def log_simps split: if_splits)
  then show ?thesis by (simp add: held_ports_mem)
qed

theorem kbd_init_keeps_no_port_witness:
  "fst (kbd_init bump_kernel kbd_module0) = 0 \<and>
   RPort I8042_DATA_REG 1 \<notin> set (held (klog (snd (kbd_init bump_kernel kbd_module0))))"
proof -
  have "held (klog kbd_module0) = []" by (simp add: kbd_module0_def held_def log_simps)
  moreover have "fst (kbd_init bump_kernel kbd_module0) = 0"
    by (simp add: kbd_init_unfold NUM_MINORS_upt kcall_eq Let_def kbd_module0_def held_kdo)
      (simp add: held_def log_simps)
  ultimately show ?thesis
    using kbd_init_keeps_no_port [of kbd_module0 bump_kernel] by (metis prod.collapse)
qed

text \<open>
  When the kernel refuses a port, initialisation fails with \<open>-EBUSY\<close>, but the device numbers
  stay registered, and the refused port is released although the module does not hold it.
\<close>

theorem kbd_init_port_refused:
  assumes "held (klog s) = []"
    and "\<And>h. kret K h (Chrdev (Register_chrdev_region
           (MKDEV KBD_MAJOR_NUMBER KBD_MINOR_NUMBER) KBD_NUM_MINORS KBD_MODULE_NAME)) = 0"
    and "\<And>h. kret K h (Port (Request_region I8042_DATA_REG 1 KBD_MODULE_NAME)) = 0"
  shows "\<exists>s'. kbd_init K s = (- EBUSY, s') \<and>
    held (klog s') = [RRegion (MKDEV KBD_MAJOR_NUMBER KBD_MINOR_NUMBER) KBD_NUM_MINORS] \<and>
    overreleased (klog s') = RPort I8042_DATA_REG 1 # overreleased (klog s)"
  using assms
  by (simp add: kbd_init_unfold kcall_eq Let_def held_def overreleased_def log_simps acct_step_def)

text \<open>A kernel that refuses every port.\<close>

definition no_port_kernel :: kernel where
  "no_port_kernel = bump_kernel\<lparr>kret := (\<lambda>h c. 0)\<rparr>"

theorem kbd_init_port_refused_witness:
  "\<exists>s'. kbd_init no_port_kernel kbd_module0 = (- EBUSY, s') \<and>
    held (klog s') = [RRegion (42, 0) 1] \<and> overreleased (klog s') = [RPort 0x60 1]"
  using kbd_init_port_refused [of kbd_module0 no_port_kernel]
  by (simp add: no_port_kernel_def kbd_module0_def held_def overreleased_def log_simps kbd_consts MKDEV_def)

text \<open>
  Loading and unloading: after a successful \<open>kbd_init\<close> and \<open>kbd_exit\<close> the interrupt line, the
  device and the device numbers are all given back (\<open>free_irq\<close> names the same cookie as
  \<open>request_irq\<close>), and each of the two ports has been released once more than it was requested.
\<close>

theorem kbd_load_unload:
  assumes "held (klog s) = []" and "kbd_init K s = (0, s1)"
    and "\<And>h. kret K h (Chrdev (Cdev_add (kbd_dev_addr 0) (MKDEV KBD_MAJOR_NUMBER KBD_MINOR_NUMBER) 1)) = 0"
  shows "held (klog (kbd_exit K s1)) = [] \<and>
    overreleased (klog (kbd_exit K s1)) =
      RPort I8042_DATA_REG 1 # RPort I8042_STATUS_REG 1 # overreleased (klog s)"
proof -
  have "acct (klog s) = ([], overreleased (klog s))" using assms(1) by (simp add: acct_held)
  then have "acct (klog s1) = ([RIrq I8042_KBD_IRQ (kbd_dev_addr 0), RCdev (kbd_dev_addr 0),
      RRegion (MKDEV KBD_MAJOR_NUMBER KBD_MINOR_NUMBER) KBD_NUM_MINORS], overreleased (klog s))"
    using assms(2,3)
    by (auto simp: kbd_init_unfold NUM_MINORS_upt kcall_eq Let_def log_simps acct_step_def
        EBUSY_def I8042_DATA_REG_def I8042_STATUS_REG_def split: if_splits)
  then show ?thesis
    by (simp add: kbd_exit_def NUM_MINORS_upt Let_def held_def overreleased_def log_simps)
qed

theorem kbd_load_unload_witness:
  "\<exists>s1. kbd_init bump_kernel kbd_module0 = (0, s1) \<and> held (klog (kbd_exit bump_kernel s1)) = [] \<and>
    overreleased (klog (kbd_exit bump_kernel s1)) = [RPort 0x60 1, RPort 0x64 1]"
proof -
  have h: "held (klog kbd_module0) = []" by (simp add: kbd_module0_def held_def log_simps)
  have "fst (kbd_init bump_kernel kbd_module0) = 0"
    by (simp add: kbd_init_unfold NUM_MINORS_upt kcall_eq Let_def kbd_module0_def held_kdo)
      (simp add: held_def log_simps)
  then obtain s1 where s1: "kbd_init bump_kernel kbd_module0 = (0, s1)" by (metis prod.collapse)
  then show ?thesis
    using kbd_load_unload [OF h s1]
    by (simp add: kbd_module0_def overreleased_def log_simps kbd_consts)
qed

end
