(* ===== verification/Klist.thy ===== *)
theory Klist
  imports Kernel
begin

text \<open>
  The circular doubly-linked lists of \<open>linux/list.h\<close> as the list modules use them. The header is not
  part of the repository: its operations are a parameter \<open>list_api\<close>, and what the modules rely on
  is the contract \<open>list_h\<close>, a locale. The two loop macros are C loops over the \<open>next\<close> pointers
  (\<open>list_for_each\<close>, and \<open>list_for_each_safe\<close>, which reads the next pointer before the body runs), with
  one proof rule each; a loop that runs for ever or follows a dangling pointer has the value \<open>None\<close>.

  A module's list nodes live in a store: \<open>links\<close> maps the address of each \<open>list_head\<close> that exists to its
  two pointers, \<open>heap\<close> the address of each allocated structure to its other members. The node embedded in
  a structure is named by the address of the structure, so that \<open>list_entry\<close> is the identity on
  names and looking its result up in \<open>heap\<close> fails for a node that is in no structure, the list head.
\<close>

section \<open>List heads\<close>

record list_head =
  lnext :: ptr
  lprev :: ptr

type_synonym links = "ptr \<rightharpoonup> list_head"

record list_api =
  INIT_LIST_HEAD :: "ptr \<Rightarrow> links \<Rightarrow> links option"
  list_add :: "ptr \<Rightarrow> ptr \<Rightarrow> links \<Rightarrow> links option"
  list_del :: "ptr \<Rightarrow> links \<Rightarrow> links option"

definition nx :: "links \<Rightarrow> ptr \<Rightarrow> ptr option" where "nx l p = map_option lnext (l p)"
definition pv :: "links \<Rightarrow> ptr \<Rightarrow> ptr option" where "pv l p = map_option lprev (l p)"

definition linked :: "links \<Rightarrow> ptr \<Rightarrow> ptr \<Rightarrow> bool" where
  "linked l a b \<longleftrightarrow> nx l a = Some b \<and> pv l b = Some a"

fun chain :: "links \<Rightarrow> ptr list \<Rightarrow> bool" where
  "chain l (a # b # ps) \<longleftrightarrow> linked l a b \<and> chain l (b # ps)"
| "chain l _ \<longleftrightarrow> True"

text \<open>The ring of \<open>h\<close> runs through the distinct nodes \<open>ps\<close> and back.\<close>

definition is_list :: "links \<Rightarrow> ptr \<Rightarrow> ptr list \<Rightarrow> bool" where
  "is_list l h ps \<longleftrightarrow> distinct (h # ps) \<and> chain l (h # ps @ [h])"

lemma chain_Cons: "ps \<noteq> [] \<Longrightarrow> chain l (a # ps) \<longleftrightarrow> linked l a (hd ps) \<and> chain l ps"
  by (cases ps) auto

lemma chain_append:
  "xs \<noteq> [] \<Longrightarrow> ys \<noteq> [] \<Longrightarrow>
    chain l (xs @ ys) \<longleftrightarrow> chain l xs \<and> linked l (last xs) (hd ys) \<and> chain l ys"
proof (induction xs)
  case (Cons a xs)
  then show ?case by (cases xs) (auto simp: chain_Cons)
qed simp

lemma chain_cong:
  "(\<And>p. p \<in> set (butlast ps) \<Longrightarrow> nx l' p = nx l p) \<Longrightarrow> (\<And>p. p \<in> set (tl ps) \<Longrightarrow> pv l' p = pv l p) \<Longrightarrow>
    chain l' ps \<longleftrightarrow> chain l ps"
  by (induction l ps rule: chain.induct) (auto simp: linked_def)

lemma is_list_frame:
  "is_list l h ps \<Longrightarrow> (\<And>p. p \<in> set (h # ps) \<Longrightarrow> l' p = l p) \<Longrightarrow> is_list l' h ps"
proof -
  assume l: "is_list l h ps" and eq: "\<And>p. p \<in> set (h # ps) \<Longrightarrow> l' p = l p"
  have "chain l' (h # ps @ [h]) \<longleftrightarrow> chain l (h # ps @ [h])"
    by (rule chain_cong) (use eq in \<open>auto simp: nx_def pv_def butlast_append\<close>)
  with l show ?thesis by (simp add: is_list_def)
qed

lemma is_list_linked:
  "is_list l h (xs @ ys) \<Longrightarrow> linked l (last (h # xs)) (hd (ys @ [h]))"
  using chain_append [of "h # xs" "ys @ [h]" l] by (simp add: is_list_def)

lemma is_list_head:
  assumes "is_list l h ps"
  shows "nx l h = Some (hd (ps @ [h]))" "pv l h = Some (last (h # ps))"
  using is_list_linked [of l h "[]" ps] is_list_linked [of l h ps "[]"] assms
  by (simp_all add: linked_def)

lemma is_list_next:
  "is_list l h (xs @ p # ys) \<Longrightarrow> nx l p = Some (hd (ys @ [h]))"
  using is_list_linked [of l h "xs @ [p]" ys] by (simp add: linked_def)

lemma is_list_distinct: "is_list l h ps \<Longrightarrow> distinct ps" "is_list l h ps \<Longrightarrow> h \<notin> set ps"
  by (simp_all add: is_list_def)

section \<open>The contract of the header\<close>

text \<open>
  \<open>INIT_LIST_HEAD\<close> makes an empty list of a head, \<open>list_add\<close> inserts a node after the head, \<open>list_del\<close>
  unlinks a node; none touches a node outside the list, and none makes or destroys a \<open>list_head\<close>.
\<close>

locale list_h =
  fixes L :: list_api
  assumes init_law: "h \<in> dom l \<Longrightarrow> \<exists>l'. INIT_LIST_HEAD L h l = Some l' \<and> is_list l' h [] \<and>
      dom l' = dom l \<and> (\<forall>p. p \<noteq> h \<longrightarrow> l' p = l p)"
    and add_law: "is_list l h ps \<Longrightarrow> n \<in> dom l \<Longrightarrow> n \<notin> set (h # ps) \<Longrightarrow>
      \<exists>l'. list_add L n h l = Some l' \<and> is_list l' h (n # ps) \<and>
      dom l' = dom l \<and> (\<forall>p. p \<notin> set (h # n # ps) \<longrightarrow> l' p = l p)"
    and del_law: "is_list l h (xs @ p # ys) \<Longrightarrow>
      \<exists>l'. list_del L p l = Some l' \<and> is_list l' h (xs @ ys) \<and>
      dom l' = dom l \<and> (\<forall>q. q \<notin> set (h # xs @ p # ys) \<longrightarrow> l' q = l q)"
begin

lemma add_then_del:
  assumes "is_list l h ps" "n \<in> dom l" "n \<notin> set (h # ps)"
  shows "\<exists>l' l''. list_add L n h l = Some l' \<and> list_del L n l' = Some l'' \<and> is_list l'' h ps"
proof -
  obtain l' where l': "list_add L n h l = Some l'" "is_list l' h ([] @ n # ps)"
    using add_law [OF assms] by auto
  then show ?thesis using del_law [OF l'(2)] by auto
qed

end

section \<open>The header's own implementation meets the contract\<close>

definition set_next :: "ptr \<Rightarrow> ptr \<Rightarrow> links \<Rightarrow> links option" where
  "set_next p q l = do { x \<leftarrow> l p; Some (l(p \<mapsto> x\<lparr>lnext := q\<rparr>)) }"

definition set_prev :: "ptr \<Rightarrow> ptr \<Rightarrow> links \<Rightarrow> links option" where
  "set_prev p q l = do { x \<leftarrow> l p; Some (l(p \<mapsto> x\<lparr>lprev := q\<rparr>)) }"

text \<open>Unlinked nodes are poisoned, as the kernel does.\<close>

definition LIST_POISON1 :: ptr where "LIST_POISON1 = Static ''LIST_POISON'' 0x100 ''''"
definition LIST_POISON2 :: ptr where "LIST_POISON2 = Static ''LIST_POISON'' 0x122 ''''"

definition dll :: list_api where
  "dll = \<lparr>INIT_LIST_HEAD = \<lambda>h l. do { l \<leftarrow> set_next h h l; set_prev h h l },
          list_add = \<lambda>n h l. do {
            f \<leftarrow> nx l h; l \<leftarrow> set_prev f n l; l \<leftarrow> set_next n f l; l \<leftarrow> set_prev n h l; set_next h n l },
          list_del = \<lambda>p l. do {
            b \<leftarrow> nx l p; a \<leftarrow> pv l p; l \<leftarrow> set_prev b a l; l \<leftarrow> set_next a b l;
            l \<leftarrow> set_next p LIST_POISON1 l; set_prev p LIST_POISON2 l }\<rparr>"

lemma set_next_Some:
  "p \<in> dom l \<Longrightarrow> \<exists>l'. set_next p q l = Some l' \<and> dom l' = dom l \<and> nx l' = (nx l)(p := Some q) \<and>
     pv l' = pv l \<and> (\<forall>r. r \<noteq> p \<longrightarrow> l' r = l r)"
proof -
  assume "p \<in> dom l"
  then obtain x where "l p = Some x" by blast
  then show ?thesis
    by (intro exI [of _ "l(p \<mapsto> x\<lparr>lnext := q\<rparr>)"]) (auto simp: set_next_def nx_def pv_def)
qed

lemma set_prev_Some:
  "p \<in> dom l \<Longrightarrow> \<exists>l'. set_prev p q l = Some l' \<and> dom l' = dom l \<and> pv l' = (pv l)(p := Some q) \<and>
     nx l' = nx l \<and> (\<forall>r. r \<noteq> p \<longrightarrow> l' r = l r)"
proof -
  assume "p \<in> dom l"
  then obtain x where "l p = Some x" by blast
  then show ?thesis
    by (intro exI [of _ "l(p \<mapsto> x\<lparr>lprev := q\<rparr>)"]) (auto simp: set_prev_def nx_def pv_def)
qed

lemma nx_dom: "nx l p = Some q \<Longrightarrow> p \<in> dom l" and pv_dom: "pv l p = Some q \<Longrightarrow> p \<in> dom l"
  by (auto simp: nx_def pv_def)

lemma dll_init:
  assumes "h \<in> dom l"
  shows "\<exists>l'. INIT_LIST_HEAD dll h l = Some l' \<and> is_list l' h [] \<and> dom l' = dom l \<and>
    (\<forall>p. p \<noteq> h \<longrightarrow> l' p = l p)"
proof -
  obtain l1 where l1: "set_next h h l = Some l1" "dom l1 = dom l" "nx l1 = (nx l)(h := Some h)"
    "\<forall>r. r \<noteq> h \<longrightarrow> l1 r = l r" using set_next_Some [OF assms] by blast
  then obtain l2 where "set_prev h h l1 = Some l2" "dom l2 = dom l" "nx l2 = nx l1"
    "pv l2 = (pv l1)(h := Some h)" "\<forall>r. r \<noteq> h \<longrightarrow> l2 r = l r" using set_prev_Some [of h l1 h] l1 assms by auto
  with l1 show ?thesis by (auto simp: dll_def is_list_def linked_def)
qed

lemma dll_add:
  assumes l: "is_list l h ps" and n: "n \<in> dom l" "n \<notin> set (h # ps)"
  shows "\<exists>l'. list_add dll n h l = Some l' \<and> is_list l' h (n # ps) \<and> dom l' = dom l \<and>
    (\<forall>p. p \<notin> set (h # n # ps) \<longrightarrow> l' p = l p)"
proof -
  let ?f = "hd (ps @ [h])"
  have f: "nx l h = Some ?f" "?f \<in> dom l" and h: "h \<in> dom l"
    using is_list_linked [of l h "[]" ps] l by (auto simp: linked_def dest: nx_dom pv_dom)
  have f': "?f \<in> set (h # ps)" "?f \<notin> set (tl (ps @ [h]))"
    using is_list_distinct [OF l] by (cases ps; auto)+
  obtain l1 where l1: "set_prev ?f n l = Some l1" "dom l1 = dom l" "pv l1 = (pv l)(?f := Some n)" "nx l1 = nx l"
    "\<forall>r. r \<noteq> ?f \<longrightarrow> l1 r = l r" using set_prev_Some [OF f(2)] by blast
  obtain l2 where l2: "set_next n ?f l1 = Some l2" "dom l2 = dom l" "nx l2 = (nx l)(n := Some ?f)" "pv l2 = pv l1"
    "\<forall>r. r \<noteq> n \<longrightarrow> l2 r = l1 r" using set_next_Some [of n l1 ?f] n(1) l1(2,4) by auto
  obtain l3 where l3: "set_prev n h l2 = Some l3" "dom l3 = dom l" "pv l3 = (pv l2)(n := Some h)" "nx l3 = nx l2"
    "\<forall>r. r \<noteq> n \<longrightarrow> l3 r = l2 r" using set_prev_Some [of n l2 h] n(1) l2(2) by auto
  obtain l4 where l4: "set_next h n l3 = Some l4" "dom l4 = dom l" "nx l4 = (nx l3)(h := Some n)" "pv l4 = pv l3"
    "\<forall>r. r \<noteq> h \<longrightarrow> l4 r = l3 r" using set_next_Some [of h l3 n] h l3(2) by auto
  have nx4: "nx l4 = (nx l)(n := Some ?f, h := Some n)" and pv4: "pv l4 = (pv l)(?f := Some n, n := Some h)"
    by (simp_all add: l4(3,4) l3(3,4) l2(3,4) l1(3,4))
  have "chain l4 (ps @ [h]) \<longleftrightarrow> chain l (ps @ [h])"
  proof (rule chain_cong)
    show "nx l4 p = nx l p" if "p \<in> set (butlast (ps @ [h]))" for p
      using that is_list_distinct [OF l] n(2) by (auto simp: nx4)
    show "pv l4 p = pv l p" if p: "p \<in> set (tl (ps @ [h]))" for p
    proof -
      have "p \<noteq> ?f" using p f'(2) by metis
      moreover have "p \<noteq> n" using p n(2) by (cases ps) auto
      ultimately show ?thesis by (simp add: pv4)
    qed
  qed
  moreover have "?f \<noteq> n" using f'(1) n(2) by metis
  ultimately have "is_list l4 h (n # ps)"
    using l n(2) by (auto simp: is_list_def chain_Cons linked_def nx4 pv4)
  moreover have "\<forall>p. p \<notin> set (h # n # ps) \<longrightarrow> l4 p = l p"
    using f'(1) l4(5) l3(5) l2(5) l1(5) by (metis list.set_intros(1,2) set_ConsD)
  ultimately show ?thesis
    using l4(2) by (simp add: dll_def f(1) l1(1) l2(1) l3(1) l4(1))
qed

lemma dll_del:
  assumes l: "is_list l h (xs @ p # ys)"
  shows "\<exists>l'. list_del dll p l = Some l' \<and> is_list l' h (xs @ ys) \<and> dom l' = dom l \<and>
    (\<forall>q. q \<notin> set (h # xs @ p # ys) \<longrightarrow> l' q = l q)"
proof -
  define a b where "a = last (h # xs)" and "b = hd (ys @ [h])"
  have lk: "linked l a p" "linked l p b"
    using is_list_linked [of l h xs "p # ys"] is_list_linked [of l h "xs @ [p]" ys] l by (auto simp: a_def b_def)
  then have d: "a \<in> dom l" "b \<in> dom l" "p \<in> dom l" and ab: "nx l p = Some b" "pv l p = Some a"
    by (auto simp: linked_def dest: nx_dom pv_dom)
  have dist: "distinct (h # xs @ p # ys)" using l by (simp add: is_list_def)
  have a1: "a \<in> set (h # xs)" "butlast (h # xs) @ [a] = h # xs"
    unfolding a_def by (rule last_in_set, simp) (rule append_butlast_last_id, simp)
  have "distinct (butlast (h # xs) @ [a])" unfolding a1(2) using dist by simp
  then have a: "a \<notin> set (butlast (h # xs))" "a \<notin> set ys" "a \<noteq> p"
    using a1(1) dist by auto
  have b: "b \<in> set (h # ys)" "b \<notin> set (tl (ys @ [h]))" "b \<notin> set xs" "b \<noteq> p"
    using dist by (cases ys; auto simp: b_def)+
  obtain l1 where l1: "set_prev b a l = Some l1" "dom l1 = dom l" "pv l1 = (pv l)(b := Some a)" "nx l1 = nx l"
    "\<forall>r. r \<noteq> b \<longrightarrow> l1 r = l r" using set_prev_Some [OF d(2)] by blast
  obtain l2 where l2: "set_next a b l1 = Some l2" "dom l2 = dom l" "nx l2 = (nx l)(a := Some b)" "pv l2 = pv l1"
    "\<forall>r. r \<noteq> a \<longrightarrow> l2 r = l1 r" using set_next_Some [of a l1 b] d(1) l1(2,4) by auto
  obtain l3 where l3: "set_next p LIST_POISON1 l2 = Some l3" "dom l3 = dom l" "nx l3 = (nx l2)(p := Some LIST_POISON1)"
    "pv l3 = pv l2" "\<forall>r. r \<noteq> p \<longrightarrow> l3 r = l2 r" using set_next_Some [of p l2 LIST_POISON1] d(3) l2(2) by auto
  obtain l4 where l4: "set_prev p LIST_POISON2 l3 = Some l4" "dom l4 = dom l" "pv l4 = (pv l3)(p := Some LIST_POISON2)"
    "nx l4 = nx l3" "\<forall>r. r \<noteq> p \<longrightarrow> l4 r = l3 r" using set_prev_Some [of p l3 LIST_POISON2] d(3) l3(2) by auto
  have nx4: "nx l4 = (nx l)(a := Some b, p := Some LIST_POISON1)"
    and pv4: "pv l4 = (pv l)(b := Some a, p := Some LIST_POISON2)"
    by (simp_all add: l4(3,4) l3(3,4) l2(3,4) l1(3,4))
  have c: "chain l (h # xs)" "chain l (ys @ [h])"
    using l chain_append [of "h # xs" "p # ys @ [h]" l] by (auto simp: is_list_def chain_Cons)
  have "chain l4 (h # xs) \<longleftrightarrow> chain l (h # xs)"
  proof (rule chain_cong)
    show "nx l4 q = nx l q" if q: "q \<in> set (butlast (h # xs))" for q
      using q in_set_butlastD [OF q] a dist by (auto simp: nx4)
    show "pv l4 q = pv l q" if "q \<in> set (tl (h # xs))" for q
      using that b dist by (auto simp: pv4)
  qed
  moreover have "chain l4 (ys @ [h]) \<longleftrightarrow> chain l (ys @ [h])"
  proof (rule chain_cong)
    show "nx l4 q = nx l q" if "q \<in> set (butlast (ys @ [h]))" for q
      using that a dist by (auto simp: nx4)
    show "pv l4 q = pv l q" if q: "q \<in> set (tl (ys @ [h]))" for q
    proof -
      have "q \<noteq> p" using q dist by (cases ys) auto
      moreover have "q \<noteq> b" using q b(2) by metis
      ultimately show ?thesis by (simp add: pv4)
    qed
  qed
  moreover have "linked l4 (last (h # xs)) (hd (ys @ [h]))"
    unfolding a_def [symmetric] b_def [symmetric] using a(3) b(4) by (simp add: linked_def nx4 pv4)
  ultimately have "is_list l4 h (xs @ ys)"
    using c dist chain_append [of "h # xs" "ys @ [h]" l4] by (simp add: is_list_def)
  moreover have "\<forall>q. q \<notin> set (h # xs @ p # ys) \<longrightarrow> l4 q = l q"
    using a1(1) b(1) l4(5) l3(5) l2(5) l1(5) by fastforce
  ultimately show ?thesis
    using l4(2) by (simp add: dll_def ab l1(1) l2(1) l3(1) l4(1))
qed

interpretation header: list_h dll
proof unfold_locales
  show "\<exists>l'. INIT_LIST_HEAD dll h l = Some l' \<and> is_list l' h [] \<and> dom l' = dom l \<and>
      (\<forall>p. p \<noteq> h \<longrightarrow> l' p = l p)" if "h \<in> dom l" for h l
    using that by (rule dll_init)
  show "\<exists>l'. list_add dll n h l = Some l' \<and> is_list l' h (n # ps) \<and> dom l' = dom l \<and>
      (\<forall>p. p \<notin> set (h # n # ps) \<longrightarrow> l' p = l p)"
    if "is_list l h ps" "n \<in> dom l" "n \<notin> set (h # ps)" for l h ps n
    using that by (rule dll_add)
  show "\<exists>l'. list_del dll p l = Some l' \<and> is_list l' h (xs @ ys) \<and> dom l' = dom l \<and>
      (\<forall>q. q \<notin> set (h # xs @ p # ys) \<longrightarrow> l' q = l q)"
    if "is_list l h (xs @ p # ys)" for l h xs p ys
    using that by (rule dll_del)
qed

section \<open>The loops\<close>

text \<open>
  The body of a loop gets the node and the state; \<open>Some x\<close> as its first result leaves the loop with
  \<open>x\<close> (a \<open>return\<close> in the body). \<open>lk\<close> reads the links off the state.
\<close>

partial_function (option) for_each ::
    "('s \<Rightarrow> links) \<Rightarrow> ptr \<Rightarrow> (ptr \<Rightarrow> 's \<Rightarrow> ('r option \<times> 's) option) \<Rightarrow> ptr \<Rightarrow> 's \<Rightarrow> ('r option \<times> 's) option"
  where
  "for_each lk h body p s =
     (if p = h then Some (None, s)
      else Option.bind (body p s) (\<lambda>rs.
        case fst rs of
          Some x \<Rightarrow> Some (Some x, snd rs)
        | None \<Rightarrow> Option.bind (nx (lk (snd rs)) p) (\<lambda>n. for_each lk h body n (snd rs))))"

definition list_for_each ::
    "('s \<Rightarrow> links) \<Rightarrow> ptr \<Rightarrow> (ptr \<Rightarrow> 's \<Rightarrow> ('r option \<times> 's) option) \<Rightarrow> 's \<Rightarrow> ('r option \<times> 's) option"
  where
  "list_for_each lk h body s = do { p \<leftarrow> nx (lk s) h; for_each lk h body p s }"

partial_function (option) for_each_safe ::
    "('s \<Rightarrow> links) \<Rightarrow> ptr \<Rightarrow> (ptr \<Rightarrow> 's \<Rightarrow> ('r option \<times> 's) option) \<Rightarrow> ptr \<Rightarrow> ptr \<Rightarrow> 's
      \<Rightarrow> ('r option \<times> 's) option"
  where
  "for_each_safe lk h body p n s =
     (if p = h then Some (None, s)
      else Option.bind (body p s) (\<lambda>rs.
        case fst rs of
          Some x \<Rightarrow> Some (Some x, snd rs)
        | None \<Rightarrow> Option.bind (nx (lk (snd rs)) n) (\<lambda>m. for_each_safe lk h body n m (snd rs))))"

definition list_for_each_safe ::
    "('s \<Rightarrow> links) \<Rightarrow> ptr \<Rightarrow> (ptr \<Rightarrow> 's \<Rightarrow> ('r option \<times> 's) option) \<Rightarrow> 's \<Rightarrow> ('r option \<times> 's) option"
  where
  "list_for_each_safe lk h body s = do {
     p \<leftarrow> nx (lk s) h; n \<leftarrow> nx (lk s) p; for_each_safe lk h body p n s }"

text \<open>
  The rule of \<open>list_for_each\<close>. \<open>I ys s\<close> holds in front of each turn, \<open>ys\<close> being the nodes to come;
  the body leaves its own node and the ones to come linked. The loop ends, with the result of a
  return that satisfies \<open>Q\<close> or with \<open>I []\<close>.
\<close>

lemma for_each_rule:
  assumes step: "\<And>p ys s. I (p # ys) s \<Longrightarrow> \<exists>r s'. body p s = Some (r, s') \<and>
      (case r of Some x \<Rightarrow> Q x s'
       | None \<Rightarrow> I ys s' \<and> (\<exists>xs. is_list (lk s') h (xs @ p # ys)))"
    and "I ys s" and "h \<notin> set ys"
  shows "\<exists>r s'. for_each lk h body (hd (ys @ [h])) s = Some (r, s') \<and>
    (case r of Some x \<Rightarrow> Q x s' | None \<Rightarrow> I [] s')"
  using assms(2,3)
proof (induction ys arbitrary: s)
  case Nil
  then show ?case by (subst for_each.simps) simp
next
  case (Cons p ys)
  obtain r s1 where b: "body p s = Some (r, s1)"
    and r: "case r of Some x \<Rightarrow> Q x s1 | None \<Rightarrow> I ys s1 \<and> (\<exists>xs. is_list (lk s1) h (xs @ p # ys))"
    using step [OF Cons.prems(1)] by blast
  show ?case
  proof (cases r)
    case None
    then have "I ys s1" "nx (lk s1) p = Some (hd (ys @ [h]))" using r is_list_next by fastforce+
    then show ?thesis
      using Cons.IH [of s1] Cons.prems(2) b None by (subst for_each.simps) auto
  next
    case (Some x)
    then show ?thesis using r b Cons.prems(2) by (subst for_each.simps) auto
  qed
qed

lemma list_for_each_rule:
  assumes "is_list (lk s) h ys" and "I ys s"
    and "\<And>p ys s. I (p # ys) s \<Longrightarrow> \<exists>r s'. body p s = Some (r, s') \<and>
      (case r of Some x \<Rightarrow> Q x s'
       | None \<Rightarrow> I ys s' \<and> (\<exists>xs. is_list (lk s') h (xs @ p # ys)))"
  shows "\<exists>r s'. list_for_each lk h body s = Some (r, s') \<and>
    (case r of Some x \<Rightarrow> Q x s' | None \<Rightarrow> I [] s')"
  using for_each_rule [where I = I and Q = Q and body = body and lk = lk and h = h and ys = ys and s = s] assms is_list_head(1) [OF assms(1)]
    is_list_distinct(2) [OF assms(1)]
  by (simp add: list_for_each_def)

text \<open>
  The rule of \<open>list_for_each_safe\<close>: the body may unlink and free its own node, only the nodes to come
  have to stay linked.
\<close>

lemma for_each_safe_rule:
  assumes step: "\<And>p ys s. I (p # ys) s \<Longrightarrow> \<exists>r s'. body p s = Some (r, s') \<and>
      (case r of Some x \<Rightarrow> Q x s' | None \<Rightarrow> I ys s' \<and> (\<exists>xs. is_list (lk s') h (xs @ ys)))"
    and "I ys s" and "h \<notin> set ys" and "ys = [] \<or> m = hd (tl ys @ [h])"
  shows "\<exists>r s'. for_each_safe lk h body (hd (ys @ [h])) m s = Some (r, s') \<and>
    (case r of Some x \<Rightarrow> Q x s' | None \<Rightarrow> I [] s')"
  using assms(2-)
proof (induction ys arbitrary: s m)
  case Nil
  then show ?case by (subst for_each_safe.simps) simp
next
  case (Cons p ys)
  obtain r s1 where b: "body p s = Some (r, s1)"
    and r: "case r of Some x \<Rightarrow> Q x s1 | None \<Rightarrow> I ys s1 \<and> (\<exists>xs. is_list (lk s1) h (xs @ ys))"
    using step [OF Cons.prems(1)] by blast
  show ?case
  proof (cases r)
    case None
    then obtain xs where "I ys s1" and l: "is_list (lk s1) h (xs @ ys)" using r by auto
    moreover have "\<exists>k. nx (lk s1) m = Some k \<and> (ys = [] \<or> k = hd (tl ys @ [h]))"
    proof (cases ys)
      case Nil
      then show ?thesis using is_list_head(1) [OF l] Cons.prems(3) by simp
    next
      case ys: (Cons q zs)
      then show ?thesis using is_list_next [of "lk s1" h xs q zs] l Cons.prems(3) by simp
    qed
    ultimately show ?thesis
      using Cons.IH [of s1] Cons.prems(2,3) b None by (subst for_each_safe.simps) auto
  next
    case (Some x)
    then show ?thesis using r b Cons.prems(2) by (subst for_each_safe.simps) auto
  qed
qed

lemma list_for_each_safe_rule:
  assumes "is_list (lk s) h ys" and "I ys s"
    and "\<And>p ys s. I (p # ys) s \<Longrightarrow> \<exists>r s'. body p s = Some (r, s') \<and>
      (case r of Some x \<Rightarrow> Q x s' | None \<Rightarrow> I ys s' \<and> (\<exists>xs. is_list (lk s') h (xs @ ys)))"
  shows "\<exists>r s'. list_for_each_safe lk h body s = Some (r, s') \<and>
    (case r of Some x \<Rightarrow> Q x s' | None \<Rightarrow> I [] s')"
proof -
  have "\<exists>m. nx (lk s) (hd (ys @ [h])) = Some m \<and> (ys = [] \<or> m = hd (tl ys @ [h]))"
  proof (cases ys)
    case Nil
    then show ?thesis using is_list_head(1) [OF assms(1)] by simp
  next
    case (Cons q zs)
    then show ?thesis using is_list_next [of "lk s" h "[]" q zs] assms(1) by simp
  qed
  then show ?thesis
    using for_each_safe_rule [where I = I and Q = Q and body = body and lk = lk and h = h and ys = ys and s = s] assms is_list_head(1) [OF assms(1)]
      is_list_distinct(2) [OF assms(1)]
    by (auto simp: list_for_each_safe_def)
qed

end
