(* ===== verification/Store.thy ===== *)
theory Store
  imports Klist "HOL-Library.Multiset"
begin

text \<open>
  The store of a list module: the list heads that exist, the structures that are allocated and the call
  log. The invariant \<open>store_ok\<close> ties the three together, and one lemma per primitive says how it moves
  the invariant on. All the list modules are proved over these lemmas.
\<close>

section \<open>State and primitives\<close>

record 'n list_module = kstate +
  links :: links
  heap :: "ptr \<rightharpoonup> 'n"

text \<open>The running task and its neighbours in the task structures, and the tick rate: given by the
  kernel.\<close>

record tasks =
  current :: ptr
  parent :: "ptr \<Rightarrow> ptr"
  next_task :: "ptr \<Rightarrow> ptr"
  task_pid :: "ptr \<Rightarrow> int"
  HZ :: nat

text \<open>Memory that \<open>kmalloc\<close> returned becomes a structure with members \<open>n\<close> and a list node that is not
  initialised (its pointers are written before anything reads them).\<close>

definition new_node :: "ptr \<Rightarrow> 'n \<Rightarrow> ('n, 'z) list_module_scheme \<Rightarrow> ('n, 'z) list_module_scheme" where
  "new_node p n s =
     s\<lparr>heap := (heap s)(p \<mapsto> n), links := (links s)(p \<mapsto> \<lparr>lnext = Null, lprev = Null\<rparr>)\<rparr>"

text \<open>\<open>kfree\<close> of a structure: nothing may use it afterwards. Freeing what is not allocated is an
  oops.\<close>

definition kfree_node :: "kernel \<Rightarrow> ptr \<Rightarrow> ('n, 'z) list_module_scheme \<Rightarrow> ('n, 'z) list_module_scheme option" where
  "kfree_node K p s = do {
     n \<leftarrow> heap s p;
     Some (kdo K (Mem (Kfree p)) (s\<lparr>heap := (heap s)(p := None), links := (links s)(p := None)\<rparr>))
   }"

text \<open>\<open>list_del(p); kfree(list_entry(p, ...));\<close>\<close>

definition unlink_and_free :: "list_api \<Rightarrow> kernel \<Rightarrow> ptr \<Rightarrow> ('n, 'z) list_module_scheme \<Rightarrow> ('n, 'z) list_module_scheme option" where
  "unlink_and_free L K p s = do {
     l \<leftarrow> list_del L p (links s);
     kfree_node K p (s\<lparr>links := l\<rparr>)
   }"

text \<open>\<open>INIT_LIST_HEAD(&p->node); list_add(&p->node, &head);\<close>\<close>

definition init_and_add :: "list_api \<Rightarrow> ptr \<Rightarrow> ptr \<Rightarrow> ('n, 'z) list_module_scheme \<Rightarrow> ('n, 'z) list_module_scheme option" where
  "init_and_add L p h s = do {
     l \<leftarrow> INIT_LIST_HEAD L p (links s);
     l \<leftarrow> list_add L p h l;
     Some (s\<lparr>links := l\<rparr>)
   }"

section \<open>The invariant\<close>

text \<open>
  \<open>store_ok h xs zs s\<close>: the list of \<open>h\<close> holds the entries \<open>xs\<close> (addresses and members, in list order),
  the structures \<open>zs\<close> are allocated but not on the list, nothing else is allocated, and the memory the
  kernel has handed out and not got back is exactly that of \<open>xs\<close> and \<open>zs\<close>.
\<close>

definition store_ok :: "ptr \<Rightarrow> (ptr \<times> 'n) list \<Rightarrow> (ptr \<times> 'n) list \<Rightarrow> ('n, 'z) list_module_scheme \<Rightarrow> bool" where
  "store_ok h xs zs s \<longleftrightarrow>
     is_list (links s) h (map fst xs) \<and>
     heap s = map_of (xs @ zs) \<and>
     distinct (map fst (xs @ zs)) \<and> h \<notin> set (map fst zs) \<and> Null \<notin> set (map fst (xs @ zs)) \<and>
     mset (held_mem (klog s)) = mset (map (RMem \<circ> fst) (xs @ zs)) \<and>
     set (map fst zs) \<subseteq> dom (links s)"

lemma kdo_store [simp]: "links (kdo K c s) = links s" "heap (kdo K c s) = heap s"
  by (simp_all add: kdo_eq)

lemma store_ok_list: "store_ok h xs zs s \<Longrightarrow> is_list (links s) h (map fst xs)"
  by (simp add: store_ok_def)

lemma store_ok_same:
  "store_ok h xs zs s \<Longrightarrow> links s' = links s \<Longrightarrow> heap s' = heap s \<Longrightarrow>
    held_mem (klog s') = held_mem (klog s) \<Longrightarrow> store_ok h xs zs s'"
  by (simp add: store_ok_def)

lemma store_ok_kdo [simp]:
  "store_ok h xs zs (kdo K (Sync a) s) = store_ok h xs zs s"
  "store_ok h xs zs (kdo K (Time b) s) = store_ok h xs zs s"
  "store_ok h xs zs (kdo K (Print c) s) = store_ok h xs zs s"
  by (simp_all add: store_ok_def log_simps)

lemma store_ok_heap:
  "store_ok h (xs @ (p, n) # ys) zs s \<Longrightarrow> heap s p = Some n"
  by (simp add: store_ok_def map_of_middle image_iff del: map_of_append)

lemma store_ok_head: "store_ok h xs zs s \<Longrightarrow> heap s h = None"
  by (auto simp: store_ok_def is_list_def map_of_eq_None_iff)

text \<open>The order of the structures that are not on the list does not matter.\<close>

lemma store_ok_perm:
  assumes "store_ok h xs zs s" and "mset zs = mset zs'"
  shows "store_ok h xs zs' s"
proof -
  have set: "set zs = set zs'" and "mset (map fst zs) = mset (map fst zs')"
    using assms(2) by (auto dest: mset_eq_setD)
  then have d: "distinct (map fst zs')" "distinct (map fst zs)"
    using assms(1) mset_eq_imp_distinct_iff [of "map fst zs" "map fst zs'"] by (simp_all add: store_ok_def)
  have "map_of zs' k = map_of zs k" for k
    using d set map_of_eq_Some_iff [OF d(1)] map_of_eq_Some_iff [OF d(2)]
    by (metis option.exhaust)
  then have "map_of zs' = map_of zs" ..
  then show ?thesis
    using assms d set by (auto simp: store_ok_def)
qed

lemma store_ok_update:
  assumes "store_ok h (xs @ (p, n) # ys) zs s"
  shows "store_ok h (xs @ (p, n') # ys) zs (s\<lparr>heap := (heap s)(p \<mapsto> n')\<rparr>)"
proof -
  have "(map_of (xs @ (p, n) # ys @ zs))(p \<mapsto> n') = map_of (xs @ (p, n') # ys @ zs)"
    using assms by (auto simp: store_ok_def map_of_middle simp del: map_of_append)
  then show ?thesis using assms by (simp add: store_ok_def)
qed

lemma store_ok_alloc:
  assumes "store_ok h xs zs s" and "kmalloc_fresh K" and "r = kret K (klog s) (Mem (Kmalloc sz f))"
    and "r \<noteq> 0" and "h = Static v i m"
  shows "store_ok h xs ((Heap r, n) # zs) (new_node (Heap r) n (kdo K (Mem (Kmalloc sz f)) s))"
proof -
  have "RMem (Heap r) \<notin> set (held_mem (klog s))"
    using assms(2,3) by (simp add: kmalloc_fresh_def held_mem_mem [symmetric])
  then have p: "Heap r \<notin> set (map fst (xs @ zs))"
    using assms(1) mset_eq_setD [of "held_mem (klog s)" "map (RMem \<circ> fst) (xs @ zs)"]
    by (force simp: store_ok_def)
  moreover have "is_list ((links s)(Heap r \<mapsto> x)) h (map fst xs)" for x
    by (rule is_list_frame [of "links s"]) (use assms(1,5) p in \<open>auto simp: store_ok_def\<close>)
  moreover have "(map_of (xs @ zs))(Heap r \<mapsto> n) = map_of (xs @ (Heap r, n) # zs)"
    using p by (auto simp: map_of_middle simp del: map_of_append)
  ultimately show ?thesis
    using assms(1,3-5) by (auto simp: store_ok_def new_node_def log_simps)
qed

text \<open>
  A step that only prints: it changes nothing but the log, and there neither the memory held nor the
  locks. A loop that runs such a step on every entry prints the entries in list order; the two macros agree.
\<close>

definition prints_only ::
    "('n \<Rightarrow> ('n, 'z) list_module_scheme \<Rightarrow> ('n, 'z) list_module_scheme) \<Rightarrow> ('n \<Rightarrow> (string \<times> parg list) list) \<Rightarrow> bool" where
  "prints_only f out \<longleftrightarrow>
     (\<forall>n s. links (f n s) = links s \<and> heap (f n s) = heap s \<and> held_mem (klog (f n s)) = held_mem (klog s) \<and>
       locks (klog (f n s)) = locks (klog s) \<and> jiffies_reads (klog (f n s)) = jiffies_reads (klog s) \<and>
       printed (klog (f n s)) = printed (klog s) @ out n)"

definition visited ::
    "ptr \<Rightarrow> (ptr \<times> 'n) list \<Rightarrow> (ptr \<times> 'n) list \<Rightarrow> ('n \<Rightarrow> (string \<times> parg list) list) \<Rightarrow> ('n, 'z) list_module_scheme
      \<Rightarrow> (ptr \<times> 'n) list \<Rightarrow> ('n, 'z) list_module_scheme \<Rightarrow> bool" where
  "visited h xs zs out s ds s' \<longleftrightarrow> store_ok h xs zs s' \<and> locks (klog s') = locks (klog s) \<and>
     jiffies_reads (klog s') = jiffies_reads (klog s) \<and>
     printed (klog s') = printed (klog s) @ concat (map (out \<circ> snd) ds)"

lemma visit_step:
  assumes "prints_only f out" and "\<exists>ds ys. xs = ds @ ys \<and> p # ps = map fst ys \<and> visited h xs zs out s0 ds s"
  shows "\<exists>s' us. do { n \<leftarrow> heap s p; Some (None :: unit option, f n s) } = Some (None, s') \<and>
    (\<exists>ds ys. xs = ds @ ys \<and> ps = map fst ys \<and> visited h xs zs out s0 ds s') \<and> is_list (links s') h (us @ p # ps)"
proof -
  obtain ds n ys where xs: "xs = ds @ (p, n) # ys" "ps = map fst ys" and v: "visited h xs zs out s0 ds s"
    using assms(2) by (auto simp: Cons_eq_map_conv)
  have ok: "store_ok h xs zs s" using v by (simp add: visited_def)
  have ok': "store_ok h xs zs (f n s)"
    by (rule store_ok_same [OF ok]) (use assms(1) in \<open>simp_all add: prints_only_def\<close>)
  have "heap s p = Some n" using store_ok_heap [of h ds p n ys zs s] ok xs(1) by simp
  moreover have "visited h xs zs out s0 (ds @ [(p, n)]) (f n s)"
    using v ok' assms(1) by (simp add: visited_def prints_only_def)
  moreover have "is_list (links (f n s)) h (map fst ds @ p # ps)" using store_ok_list [OF ok'] xs by simp
  ultimately show ?thesis
    using xs by (intro exI [of _ "f n s"] exI [of _ "map fst ds"] conjI exI [of _ "ds @ [(p, n)]"] exI [of _ ys])
      simp_all
qed

lemma visit_loop:
  assumes "prints_only f out" and "store_ok h xs zs s"
  shows "\<exists>s'. list_for_each links h (\<lambda>p s. do { n \<leftarrow> heap s p; Some (None :: unit option, f n s) }) s = Some (None, s') \<and>
      visited h xs zs out s xs s'"
    and "\<exists>s'. list_for_each_safe links h (\<lambda>p s. do { n \<leftarrow> heap s p; Some (None :: unit option, f n s) }) s = Some (None, s') \<and>
      visited h xs zs out s xs s'"
proof -
  let ?body = "\<lambda>p s. do { n \<leftarrow> heap s p; Some (None :: unit option, f n s) }"
  let ?I = "\<lambda>ps s'. \<exists>ds ys. xs = ds @ ys \<and> ps = map fst ys \<and> visited h xs zs out s ds s'"
  have l: "is_list (links s) h (map fst xs)" by (rule store_ok_list [OF assms(2)])
  have I: "?I (map fst xs) s" using assms(2) by (intro exI [of _ "[]"] exI [of _ xs]) (simp add: visited_def)
  have step: "\<exists>r s'. ?body p s1 = Some (r, s') \<and> (case r of Some x \<Rightarrow> False
      | None \<Rightarrow> ?I ps s' \<and> (\<exists>us. is_list (links s') h (us @ p # ps)))" if i: "?I (p # ps) s1" for p ps s1
    using visit_step [OF assms(1) i] by fastforce
  have step2: "\<exists>r s'. ?body p s1 = Some (r, s') \<and> (case r of Some x \<Rightarrow> False
      | None \<Rightarrow> ?I ps s' \<and> (\<exists>us. is_list (links s') h (us @ ps)))" if i: "?I (p # ps) s1" for p ps s1
  proof -
    obtain s' us where "?body p s1 = Some (None, s')" "?I ps s'" "is_list (links s') h ((us @ [p]) @ ps)"
      using visit_step [OF assms(1) i] by auto
    then show ?thesis by (intro exI [of _ None] exI [of _ s']) (simp only: option.case, blast)
  qed
  have "\<exists>r s'. list_for_each links h ?body s = Some (r, s') \<and> (case r of Some x \<Rightarrow> False | None \<Rightarrow> ?I [] s')"
    by (rule list_for_each_rule [OF l I step])
  then obtain r s' where "list_for_each links h ?body s = Some (r, s')" "case r of Some x \<Rightarrow> False | None \<Rightarrow> ?I [] s'"
    by (elim exE conjE)
  then show "\<exists>s'. list_for_each links h ?body s = Some (None, s') \<and> visited h xs zs out s xs s'" by (cases r) auto
  have "\<exists>r s'. list_for_each_safe links h ?body s = Some (r, s') \<and> (case r of Some x \<Rightarrow> False | None \<Rightarrow> ?I [] s')"
    by (rule list_for_each_safe_rule [OF l I step2])
  then obtain r s' where "list_for_each_safe links h ?body s = Some (r, s')" "case r of Some x \<Rightarrow> False | None \<Rightarrow> ?I [] s'"
    by (elim exE conjE)
  then show "\<exists>s'. list_for_each_safe links h ?body s = Some (None, s') \<and> visited h xs zs out s xs s'" by (cases r) auto
qed

text \<open>A loop that returns the first entry with a property, in both macros.\<close>

definition first_match :: "('n \<Rightarrow> bool) \<Rightarrow> (ptr \<times> 'n) list \<Rightarrow> ptr option \<Rightarrow> bool" where
  "first_match P xs r \<longleftrightarrow>
     (case r of
        None \<Rightarrow> \<forall>x\<in>set xs. \<not> P (snd x)
      | Some q \<Rightarrow> \<exists>ys n us. xs = ys @ (q, n) # us \<and> P n \<and> (\<forall>x\<in>set ys. \<not> P (snd x)))"

lemma search_step:
  assumes "store_ok h xs zs s" and "\<exists>ys us. xs = ys @ us \<and> q # ps = map fst us \<and> (\<forall>x\<in>set ys. \<not> P (snd x))"
  shows "\<exists>r vs. do { n \<leftarrow> heap s q; Some (if P n then Some q else None, s) } = Some (r, s) \<and>
    (case r of Some x \<Rightarrow> first_match P xs (Some x)
     | None \<Rightarrow> \<exists>ys us. xs = ys @ us \<and> ps = map fst us \<and> (\<forall>x\<in>set ys. \<not> P (snd x))) \<and>
    is_list (links s) h (vs @ q # ps)"
proof -
  obtain ys n us where xs: "xs = ys @ (q, n) # us" "ps = map fst us" "\<forall>x\<in>set ys. \<not> P (snd x)"
    using assms(2) by (auto simp: Cons_eq_map_conv)
  have q: "heap s q = Some n" using store_ok_heap [of h ys q n us zs s] assms(1) xs(1) by simp
  have l: "is_list (links s) h (map fst ys @ q # ps)" using store_ok_list [OF assms(1)] xs by simp
  show ?thesis
  proof (cases "P n")
    case True
    then have "first_match P xs (Some q)" using xs unfolding first_match_def by auto
    then show ?thesis using q l True by (intro exI [of _ "Some q"] exI [of _ "map fst ys"]) simp
  next
    case False
    then have "\<exists>ys us. xs = ys @ us \<and> ps = map fst us \<and> (\<forall>x\<in>set ys. \<not> P (snd x))"
      using xs by (intro exI [of _ "ys @ [(q, n)]"] exI [of _ us]) auto
    then show ?thesis using q l False by (intro exI [of _ None] exI [of _ "map fst ys"]) simp
  qed
qed

lemma search_loop:
  assumes "store_ok h xs zs s"
  shows "\<exists>r. list_for_each links h (\<lambda>q s. do { n \<leftarrow> heap s q; Some (if P n then Some q else None, s) }) s = Some (r, s) \<and>
      first_match P xs r"
    and "\<exists>r. list_for_each_safe links h (\<lambda>q s. do { n \<leftarrow> heap s q; Some (if P n then Some q else None, s) }) s = Some (r, s) \<and>
      first_match P xs r"
proof -
  let ?body = "\<lambda>q s. do { n \<leftarrow> heap s q; Some (if P n then Some q else None, s) }"
  let ?J = "\<lambda>ps. \<exists>ys us. xs = ys @ us \<and> ps = map fst us \<and> (\<forall>x\<in>set ys. \<not> P (snd x))"
  let ?I = "\<lambda>ps s'. s' = s \<and> ?J ps" and ?Q = "\<lambda>q s'. s' = s \<and> first_match P xs (Some q)"
  have l: "is_list (links s) h (map fst xs)" by (rule store_ok_list [OF assms])
  have I: "?I (map fst xs) s" by (auto intro: exI [of _ "[]"])
  have step: "\<exists>r s'. ?body p s1 = Some (r, s') \<and> (case r of Some x \<Rightarrow> ?Q x s'
      | None \<Rightarrow> ?I ps s' \<and> (\<exists>us. is_list (links s') h (us @ p # ps)))" if i: "?I (p # ps) s1" for p ps s1
  proof -
    have s1: "s1 = s" and j: "?J (p # ps)" using i by blast+
    obtain r vs where "?body p s = Some (r, s)" "is_list (links s) h (vs @ p # ps)"
      "case r of Some x \<Rightarrow> first_match P xs (Some x) | None \<Rightarrow> ?J ps"
      using search_step [OF assms j] by (elim exE conjE) (rule that)
    then show ?thesis unfolding s1 by (intro exI [of _ r] exI [of _ s]) (cases r; simp; blast)
  qed
  have step2: "\<exists>r s'. ?body p s1 = Some (r, s') \<and> (case r of Some x \<Rightarrow> ?Q x s'
      | None \<Rightarrow> ?I ps s' \<and> (\<exists>us. is_list (links s') h (us @ ps)))" if i: "?I (p # ps) s1" for p ps s1
  proof -
    have s1: "s1 = s" and j: "?J (p # ps)" using i by blast+
    obtain r vs where "?body p s = Some (r, s)" "is_list (links s) h ((vs @ [p]) @ ps)"
      "case r of Some x \<Rightarrow> first_match P xs (Some x) | None \<Rightarrow> ?J ps"
      using search_step [OF assms j] by (elim exE conjE) (rule that, simp_all)
    then show ?thesis unfolding s1 by (intro exI [of _ r] exI [of _ s]) (cases r; simp only: option.case; blast)
  qed
  have "\<exists>r s'. list_for_each links h ?body s = Some (r, s') \<and> (case r of Some x \<Rightarrow> ?Q x s' | None \<Rightarrow> ?I [] s')"
    by (rule list_for_each_rule [OF l I step])
  then obtain r s' where "list_for_each links h ?body s = Some (r, s')" "case r of Some x \<Rightarrow> ?Q x s' | None \<Rightarrow> ?I [] s'"
    by (elim exE conjE)
  then show "\<exists>r. list_for_each links h ?body s = Some (r, s) \<and> first_match P xs r"
    by (cases r) (auto simp: first_match_def)
  have "\<exists>r s'. list_for_each_safe links h ?body s = Some (r, s') \<and> (case r of Some x \<Rightarrow> ?Q x s' | None \<Rightarrow> ?I [] s')"
    by (rule list_for_each_safe_rule [OF l I step2])
  then obtain r s' where "list_for_each_safe links h ?body s = Some (r, s')" "case r of Some x \<Rightarrow> ?Q x s' | None \<Rightarrow> ?I [] s'"
    by (elim exE conjE)
  then show "\<exists>r. list_for_each_safe links h ?body s = Some (r, s) \<and> first_match P xs r"
    by (cases r) (auto simp: first_match_def)
qed

context list_h
begin

lemma store_ok_add:
  assumes "store_ok h xs ((p, n) # zs) s"
  shows "\<exists>l. list_add L p h (links s) = Some l \<and> store_ok h ((p, n) # xs) zs (s\<lparr>links := l\<rparr>)"
proof -
  have "p \<in> dom (links s)" "p \<notin> set (h # map fst xs)"
    using assms by (auto simp: store_ok_def)
  then obtain l where l: "list_add L p h (links s) = Some l" "is_list l h (p # map fst xs)" "dom l = dom (links s)"
    using add_law [OF store_ok_list [OF assms]] by blast
  moreover have "map_of (xs @ (p, n) # zs) = map_of ((p, n) # xs @ zs)"
    using assms by (auto simp: store_ok_def map_of_middle simp del: map_of_append)
  ultimately show ?thesis using assms by (auto simp: store_ok_def)
qed

lemma store_ok_init_and_add:
  assumes "store_ok h xs ((p, n) # zs) s"
  shows "\<exists>s'. init_and_add L p h s = Some s' \<and> store_ok h ((p, n) # xs) zs s' \<and> klog s' = klog s"
proof -
  have p: "p \<in> dom (links s)" "p \<notin> set (h # map fst xs)" using assms by (auto simp: store_ok_def)
  then obtain l where l: "INIT_LIST_HEAD L p (links s) = Some l" "dom l = dom (links s)" "\<forall>q. q \<noteq> p \<longrightarrow> l q = links s q"
    using init_law by blast
  have "is_list l h (map fst xs)"
    by (rule is_list_frame [OF store_ok_list [OF assms]]) (use p(2) l(3) in auto)
  then have "store_ok h xs ((p, n) # zs) (s\<lparr>links := l\<rparr>)" using assms l(2) by (simp add: store_ok_def)
  then show ?thesis using store_ok_add l(1) by (fastforce simp: init_and_add_def)
qed

text \<open>The state of a module that was just loaded, after its list head is initialised.\<close>

lemma store_ok_start:
  assumes "h \<in> dom (links s)" "heap s = Map.empty" "held_mem (klog s) = []"
  shows "\<exists>l. INIT_LIST_HEAD L h (links s) = Some l \<and> store_ok h [] [] (s\<lparr>links := l\<rparr>)"
  using init_law [OF assms(1)] assms(2,3) by (auto simp: store_ok_def)

lemma store_ok_unlink_and_free:
  assumes "store_ok h (xs @ (p, n) # ys) zs s"
  shows "\<exists>s'. unlink_and_free L K p s = Some s' \<and> store_ok h (xs @ ys) zs s' \<and>
    klog s' = klog (kdo K (Mem (Kfree p)) s)"
proof -
  have "is_list (links s) h (map fst xs @ p # map fst ys)" using store_ok_list [OF assms] by simp
  then obtain l where l: "list_del L p (links s) = Some l" "is_list l h (map fst (xs @ ys))" "dom l = dom (links s)"
    using del_law by fastforce
  have p: "p \<notin> set (h # map fst (xs @ ys @ zs))" using assms(1) by (auto simp: store_ok_def is_list_def)
  let ?s = "s\<lparr>heap := (heap s)(p := None), links := l(p := None)\<rparr>"
  have "is_list (l(p := None)) h (map fst (xs @ ys))"
    by (rule is_list_frame [OF l(2)]) (use p in auto)
  moreover have "(map_of (xs @ (p, n) # ys @ zs))(p := None) = map_of (xs @ ys @ zs)"
    using p by (intro map_of_middle_delete) auto
  moreover have "mset (remove1 (RMem p) (held_mem (klog s))) = mset (map (RMem \<circ> fst) (xs @ ys @ zs))"
    using assms(1) by (simp add: store_ok_def)
  ultimately have "store_ok h (xs @ ys) zs (kdo K (Mem (Kfree p)) ?s)"
    using assms l(3) p by (auto simp: store_ok_def log_simps)
  moreover have "unlink_and_free L K p s = Some (kdo K (Mem (Kfree p)) ?s)"
    using store_ok_heap [OF assms(1)] by (simp add: unlink_and_free_def kfree_node_def l(1))
  ultimately show ?thesis by (simp add: kdo_klog)
qed

text \<open>A loop that deletes every entry leaves the list empty and gives all the memory of its entries back.\<close>

lemma purge_loop:
  assumes "store_ok h xs zs s"
  shows "\<exists>s'. list_for_each_safe links h (\<lambda>p s. do { s \<leftarrow> unlink_and_free L K p s; Some (None :: unit option, s) }) s
      = Some (None, s') \<and> store_ok h [] zs s' \<and> locks (klog s') = locks (klog s) \<and>
    printed (klog s') = printed (klog s) \<and> jiffies_reads (klog s') = jiffies_reads (klog s)"
proof -
  let ?body = "\<lambda>p s. do { s \<leftarrow> unlink_and_free L K p s; Some (None :: unit option, s) }"
  let ?I = "\<lambda>ps s'. \<exists>ys. ps = map fst ys \<and> store_ok h ys zs s' \<and> locks (klog s') = locks (klog s) \<and>
      printed (klog s') = printed (klog s) \<and> jiffies_reads (klog s') = jiffies_reads (klog s)"
  have "\<exists>r s'. list_for_each_safe links h ?body s = Some (r, s') \<and>
      (case r of Some x \<Rightarrow> False | None \<Rightarrow> ?I [] s')"
  proof (rule list_for_each_safe_rule)
    show "is_list (links s) h (map fst xs)" by (rule store_ok_list [OF assms])
    show "?I (map fst xs) s" using assms by blast
    fix p ps s1 assume "?I (p # ps) s1"
    then obtain n ys where "store_ok h ([] @ (p, n) # ys) zs s1" "ps = map fst ys" "locks (klog s1) = locks (klog s)"
      "printed (klog s1) = printed (klog s)" "jiffies_reads (klog s1) = jiffies_reads (klog s)"
      by (auto simp: Cons_eq_map_conv)
    moreover from this obtain s2 where "unlink_and_free L K p s1 = Some s2" "store_ok h ys zs s2"
      "klog s2 = klog (kdo K (Mem (Kfree p)) s1)"
      using store_ok_unlink_and_free [of h "[]" p n ys zs s1] by auto
    ultimately show "\<exists>r s'. ?body p s1 = Some (r, s') \<and>
        (case r of Some x \<Rightarrow> False | None \<Rightarrow> ?I ps s' \<and> (\<exists>xs. is_list (links s') h (xs @ ps)))"
      using store_ok_list [of h ys zs s2] by (auto simp: log_simps intro: exI [of _ "[]"])
  qed
  then obtain r s' where r: "list_for_each_safe links h ?body s = Some (r, s')"
    "case r of Some x \<Rightarrow> False | None \<Rightarrow> ?I [] s'" by blast
  then show ?thesis by (cases r) auto
qed

end

end
