(* ===== verification/List_sync.thy ===== *)
theory List_sync
  imports Store
begin

text \<open>
  The synchronised list module, \<open>KernelModules/list-sync-mod/list-sync.c\<close>: a list of process snapshots
  behind a read-write lock, with three exported functions. \<open>list_h\<close> of \<open>linux/list.h\<close>, the kernel and
  the task structures are parameters. First the definitions in the order of the file, then the abstract
  list each function works on and the refinement, then the interleaving of several callers at the
  granularity of the critical sections, and the contract the exports give to other modules.
\<close>

section \<open>Definitions\<close>

record task_info =
  pid :: int
  timestamp :: ulong
  count :: u32

type_synonym list_sync = "task_info list_module"

definition sync_head :: ptr where "sync_head = Static ''list_sync.head'' 0 ''''"
definition sync_lock :: ptr where "sync_lock = Static ''list_sync.lock'' 0 ''''"

text \<open>When the module is loaded nothing is allocated and the static head is zeroed.\<close>

definition list_sync0 :: list_sync where
  "list_sync0 = \<lparr>klog = [], links = [sync_head \<mapsto> \<lparr>lnext = Null, lprev = Null\<rparr>], heap = Map.empty\<rparr>"

definition sizeof_task_info :: nat where "sizeof_task_info = 40"

definition task_info_alloc :: "kernel \<Rightarrow> int \<Rightarrow> list_sync \<Rightarrow> ptr \<times> list_sync" where
  "task_info_alloc K p s =
     (let (r, s) = kcall K (Mem (Kmalloc sizeof_task_info ''GFP_KERNEL'')) s; ti = ptr_of r in
      if ti = Null then (Null, s)
      else let (j, s) = kcall K (Time Jiffies) s in
        (ti, new_node ti \<lparr>pid = p, timestamp = word_of_int j, count = 0\<rparr> s))"

definition task_info_find_pid :: "int \<Rightarrow> list_sync \<Rightarrow> (ptr \<times> list_sync) option" where
  "task_info_find_pid p s = do {
     (r, s) \<leftarrow> list_for_each links sync_head (\<lambda>q s. do {
        ti \<leftarrow> heap s q;
        Some (if pid ti = p then Some q else None, s)
      }) s;
     Some (case r of Some q \<Rightarrow> q | None \<Rightarrow> Null, s)
   }"

text \<open>
  \<open>task_info_add_to_list\<close> in its three parts: the first critical section, which reports whether it found
  the process, the allocation, and the second critical section. A null \<open>ti\<close> is passed on to \<open>list_add\<close>
  as the source does; the store holds no node at NULL.
\<close>

definition add_lookup :: "kernel \<Rightarrow> int \<Rightarrow> list_sync \<Rightarrow> (bool \<times> list_sync) option" where
  "add_lookup K p s = do {
     let s = kdo K (Sync (Write_lock sync_lock)) s;
     (q, s) \<leftarrow> task_info_find_pid p s;
     if q \<noteq> Null then do {
       let (j, s) = kcall K (Time Jiffies) s;
       ti \<leftarrow> heap s q;
       let s = s\<lparr>heap := (heap s)(q \<mapsto> ti\<lparr>timestamp := word_of_int j, count := count ti + 1\<rparr>)\<rparr>;
       Some (True, kdo K (Sync (Write_unlock sync_lock)) s)
     } else Some (False, kdo K (Sync (Write_unlock sync_lock)) s)
   }"

definition add_insert :: "list_api \<Rightarrow> kernel \<Rightarrow> ptr \<Rightarrow> list_sync \<Rightarrow> list_sync option" where
  "add_insert L K q s = do {
     let s = kdo K (Sync (Write_lock sync_lock)) s;
     l \<leftarrow> (if q = Null then None else list_add L q sync_head (links s));
     Some (kdo K (Sync (Write_unlock sync_lock)) (s\<lparr>links := l\<rparr>))
   }"

definition task_info_add_to_list :: "list_api \<Rightarrow> kernel \<Rightarrow> int \<Rightarrow> list_sync \<Rightarrow> list_sync option" where
  "task_info_add_to_list L K p s = do {
     (found, s) \<leftarrow> add_lookup K p s;
     if found then Some s
     else let (q, s) = task_info_alloc K p s in add_insert L K q s
   }"

definition task_info_add_for_current :: "list_api \<Rightarrow> kernel \<Rightarrow> tasks \<Rightarrow> list_sync \<Rightarrow> list_sync option" where
  "task_info_add_for_current L K T s = do {
     s \<leftarrow> task_info_add_to_list L K (task_pid T (current T)) s;
     s \<leftarrow> task_info_add_to_list L K (task_pid T (parent T (current T))) s;
     s \<leftarrow> task_info_add_to_list L K (task_pid T (next_task T (current T))) s;
     task_info_add_to_list L K (task_pid T (next_task T (next_task T (current T)))) s
   }"

definition task_info_print_list :: "kernel \<Rightarrow> string \<Rightarrow> list_sync \<Rightarrow> list_sync option" where
  "task_info_print_list K msg s = do {
     let s = kdo K (Print (Pr_info ''%s: [ '' [PStr msg])) s;
     let s = kdo K (Sync (Read_lock sync_lock)) s;
     (_, s) \<leftarrow> list_for_each links sync_head (\<lambda>q s. do {
        ti \<leftarrow> heap s q;
        Some (None :: unit option, kdo K (Print (Pr_info ''(%d, %lu) '' [PInt (pid ti), PUlong (timestamp ti)])) s)
      }) s;
     let s = kdo K (Sync (Read_unlock sync_lock)) s;
     Some (kdo K (Print (Pr_info '']'' [])) s)
   }"

text \<open>The test of \<open>task_info_remove_expired\<close>: the subtraction wraps at 64 bits and is compared unsigned,
  the counter is read as a signed 32-bit number.\<close>

definition expired :: "nat \<Rightarrow> ulong \<Rightarrow> task_info \<Rightarrow> bool" where
  "expired hz j ti \<longleftrightarrow> j - timestamp ti > of_nat (3 * hz) \<and> sint (count ti) < 5"

definition task_info_remove_expired :: "list_api \<Rightarrow> kernel \<Rightarrow> tasks \<Rightarrow> list_sync \<Rightarrow> list_sync option" where
  "task_info_remove_expired L K T s = do {
     let s = kdo K (Sync (Write_lock sync_lock)) s;
     (_, s) \<leftarrow> list_for_each_safe links sync_head (\<lambda>p s. do {
        let (j, s) = kcall K (Time Jiffies) s;
        ti \<leftarrow> heap s p;
        if expired (HZ T) (word_of_int j) ti then do {
          s \<leftarrow> unlink_and_free L K p s;
          Some (None :: unit option, s)
        } else Some (None, s)
      }) s;
     Some (kdo K (Sync (Write_unlock sync_lock)) s)
   }"

definition task_info_purge_list :: "list_api \<Rightarrow> kernel \<Rightarrow> list_sync \<Rightarrow> list_sync option" where
  "task_info_purge_list L K s = do {
     let s = kdo K (Sync (Write_lock sync_lock)) s;
     (_, s) \<leftarrow> list_for_each_safe links sync_head (\<lambda>p s. do {
        s \<leftarrow> unlink_and_free L K p s;
        Some (None :: unit option, s)
      }) s;
     Some (kdo K (Sync (Write_unlock sync_lock)) s)
   }"

definition list_sync_init :: "list_api \<Rightarrow> kernel \<Rightarrow> tasks \<Rightarrow> list_sync \<Rightarrow> (int \<times> list_sync) option" where
  "list_sync_init L K T s = do {
     l \<leftarrow> INIT_LIST_HEAD L sync_head (links s);
     s \<leftarrow> task_info_add_for_current L K T (s\<lparr>links := l\<rparr>);
     s \<leftarrow> task_info_print_list K ''after first add'' s;
     let s = kdo K (Time (Set_current_state ''TASK_INTERRUPTIBLE'')) s;
     let s = kdo K (Time (Schedule_timeout (of_nat (5 * HZ T)))) s;
     Some (0, s)
   }"

text \<open>\<open>list_entry(head.prev)\<close> is no structure when the list is empty; the store to its counter is then a
  store outside every object.\<close>

definition list_sync_exit :: "list_api \<Rightarrow> kernel \<Rightarrow> tasks \<Rightarrow> list_sync \<Rightarrow> list_sync option" where
  "list_sync_exit L K T s = do {
     p \<leftarrow> pv (links s) sync_head;
     ti \<leftarrow> heap s p;
     let s = s\<lparr>heap := (heap s)(p \<mapsto> ti\<lparr>count := 10\<rparr>)\<rparr>;
     s \<leftarrow> task_info_remove_expired L K T s;
     s \<leftarrow> task_info_print_list K ''after removing expired'' s;
     task_info_purge_list L K s
   }"

section \<open>The abstract list\<close>

text \<open>
  What the functions do to the list of entries. \<open>touch\<close> is the update of a process that is on the list;
  only its first entry is touched. \<open>survivors hz js xs\<close> are the entries that stay when the check of the
  \<open>i\<close>-th entry reads the tick counter \<open>js ! i\<close>.
\<close>

definition touched :: "ulong \<Rightarrow> task_info \<Rightarrow> task_info" where
  "touched j ti = ti\<lparr>timestamp := j, count := count ti + 1\<rparr>"

fun touch :: "int \<Rightarrow> ulong \<Rightarrow> (ptr \<times> task_info) list \<Rightarrow> (ptr \<times> task_info) list" where
  "touch p j [] = []"
| "touch p j ((q, ti) # xs) = (if pid ti = p then (q, touched j ti) # xs else (q, ti) # touch p j xs)"

fun survivors :: "nat \<Rightarrow> ulong list \<Rightarrow> (ptr \<times> task_info) list \<Rightarrow> (ptr \<times> task_info) list" where
  "survivors hz (j # js) (x # xs) =
     (if expired hz j (snd x) then survivors hz js xs else x # survivors hz js xs)"
| "survivors hz _ _ = []"

abbreviation "pids \<equiv> map (pid \<circ> snd)"

lemma survivors_append:
  "length js = length xs \<Longrightarrow> survivors hz (js @ [j]) (xs @ [x]) =
     survivors hz js xs @ (if expired hz j (snd x) then [] else [x])"
  by (induction hz js xs rule: survivors.induct) auto

lemma survivors_subset: "set (survivors hz js xs) \<subseteq> set xs"
  by (induction hz js xs rule: survivors.induct) auto

lemma survivors_const:
  "length js = length xs \<Longrightarrow> set js \<subseteq> {j} \<Longrightarrow> survivors hz js xs = filter (\<lambda>x. \<not> expired hz j (snd x)) xs"
  by (induction hz js xs rule: survivors.induct) auto

lemma survivors_none:
  "(\<And>x j. x \<in> set xs \<Longrightarrow> j \<in> set js \<Longrightarrow> expired hz j (snd x)) \<Longrightarrow> survivors hz js xs = []"
  by (induction hz js xs rule: survivors.induct) auto

lemma pids_touch [simp]: "pids (touch p j xs) = pids xs"
  by (induction p j xs rule: touch.induct) (auto simp: touched_def)

lemma fst_touch [simp]: "map fst (touch p j xs) = map fst xs"
  by (induction p j xs rule: touch.induct) auto

lemma touch_first:
  "p \<notin> set (pids xs) \<Longrightarrow> pid ti = p \<Longrightarrow> touch p j (xs @ (q, ti) # ys) = xs @ (q, touched j ti) # ys"
  by (induction xs) auto

section \<open>The functions refine the abstract list\<close>

text \<open>\<open>sync_ok xs zs s\<close>: the module is at rest (no lock held), with \<open>xs\<close> on the list and \<open>zs\<close>
  allocated by callers that have not inserted them yet.\<close>

definition sync_ok :: "(ptr \<times> task_info) list \<Rightarrow> (ptr \<times> task_info) list \<Rightarrow> list_sync \<Rightarrow> bool" where
  "sync_ok xs zs s \<longleftrightarrow> store_ok sync_head xs zs s \<and> locks (klog s) = Some []"

lemma find_loop:
  assumes "store_ok sync_head xs zs s"
  shows "\<exists>r. task_info_find_pid p s = Some (r, s) \<and>
    (if p \<in> set (pids xs) then
       \<exists>ys ti us. xs = ys @ (r, ti) # us \<and> pid ti = p \<and> p \<notin> set (pids ys) \<and> r \<noteq> Null
     else r = Null)"
proof -
  obtain r where r: "task_info_find_pid p s = Some (case r of Some q \<Rightarrow> q | None \<Rightarrow> Null, s)"
    "first_match (\<lambda>ti. pid ti = p) xs r"
    using search_loop(1) [OF assms, of "\<lambda>ti. pid ti = p"] by (auto simp: task_info_find_pid_def)
  have "Null \<notin> set (map fst xs)" using assms by (simp add: store_ok_def)
  then show ?thesis using r by (cases r) (force simp: first_match_def)+
qed

lemma add_lookup_ok:
  assumes "sync_ok xs zs s"
  shows "\<exists>s'. add_lookup K p s = Some (p \<in> set (pids xs), s') \<and>
    (if p \<in> set (pids xs) then
       \<exists>j. sync_ok (touch p j xs) zs s' \<and> jiffies_reads (klog s') = jiffies_reads (klog s) @ [j]
     else sync_ok xs zs s' \<and> jiffies_reads (klog s') = jiffies_reads (klog s))"
proof -
  let ?s = "kdo K (Sync (Write_lock sync_lock)) s"
  have ok: "store_ok sync_head xs zs ?s" and l: "locks (klog s) = Some []"
    using assms by (simp_all add: sync_ok_def)
  obtain r where f: "task_info_find_pid p ?s = Some (r, ?s)"
    and r: "if p \<in> set (pids xs) then \<exists>ys ti us. xs = ys @ (r, ti) # us \<and> pid ti = p \<and> p \<notin> set (pids ys) \<and> r \<noteq> Null
      else r = Null" using find_loop [OF ok] by blast
  show ?thesis
  proof (cases "p \<in> set (pids xs)")
    case False
    then show ?thesis
      using f r ok l by (simp add: add_lookup_def sync_ok_def log_simps)
  next
    case True
    then obtain ys ti us where xs: "xs = ys @ (r, ti) # us" "pid ti = p" "p \<notin> set (pids ys)" "r \<noteq> Null"
      using r by auto
    let ?j = "word_of_int (kret K (klog ?s) (Time Jiffies)) :: ulong"
    let ?s2 = "(kdo K (Time Jiffies) ?s)\<lparr>heap := (heap s)(r \<mapsto> touched ?j ti)\<rparr>"
    have "store_ok sync_head (ys @ (r, ti) # us) zs (kdo K (Time Jiffies) ?s)" using ok xs(1) by simp
    from store_ok_update [OF this, of "touched ?j ti"]
    have "store_ok sync_head (touch p ?j xs) zs ?s2"
      using touch_first [OF xs(3,2)] by (simp add: xs(1))
    moreover have "heap s r = Some ti" using store_ok_heap [of sync_head ys r ti us zs ?s] ok xs(1) by simp
    moreover have "locks (klog ?s2) = Some [(sync_lock, Writer)]"
      "jiffies_reads (klog ?s2) = jiffies_reads (klog s) @ [?j]"
      using l by (simp_all add: log_simps)
    ultimately show ?thesis
      using f xs(4) True
      by (auto simp: add_lookup_def sync_ok_def kcall_eq Let_def log_simps touched_def simp del: touch.simps)
  qed
qed

lemma task_info_alloc_ok:
  assumes "sync_ok xs zs s" and "kmalloc_fresh K"
  shows "\<exists>s'. task_info_alloc K p s = (Null, s') \<and> sync_ok xs zs s' \<and>
      kret K (klog s) (Mem (Kmalloc sizeof_task_info ''GFP_KERNEL'')) = 0 \<or>
    (\<exists>q j. task_info_alloc K p s = (q, s') \<and> q \<noteq> Null \<and>
      sync_ok xs ((q, \<lparr>pid = p, timestamp = j, count = 0\<rparr>) # zs) s' \<and>
      jiffies_reads (klog s') = jiffies_reads (klog s) @ [j])"
proof (cases "kret K (klog s) (Mem (Kmalloc sizeof_task_info ''GFP_KERNEL'')) = 0")
  case True
  moreover have "store_ok sync_head xs zs (kdo K (Mem (Kmalloc sizeof_task_info ''GFP_KERNEL'')) s)"
    by (rule store_ok_same [of _ _ _ s]) (use assms True in \<open>simp_all add: sync_ok_def log_simps\<close>)
  ultimately show ?thesis
    using assms by (simp add: task_info_alloc_def kcall_eq Let_def sync_ok_def log_simps)
next
  case False
  let ?c = "Mem (Kmalloc sizeof_task_info ''GFP_KERNEL'')"
  let ?q = "Heap (kret K (klog s) ?c)"
  let ?j = "word_of_int (kret K (klog (kdo K ?c s)) (Time Jiffies)) :: ulong"
  let ?n = "\<lparr>pid = p, timestamp = ?j, count = 0\<rparr>"
  have "store_ok sync_head xs ((?q, ?n) # zs) (new_node ?q ?n (kdo K ?c s))"
    using assms False by (intro store_ok_alloc) (auto simp: sync_ok_def sync_head_def)
  then have "store_ok sync_head xs ((?q, ?n) # zs) (new_node ?q ?n (kdo K (Time Jiffies) (kdo K ?c s)))"
    by (rule store_ok_same) (simp_all add: new_node_def log_simps)
  moreover have "klog (new_node ?q ?n (kdo K (Time Jiffies) (kdo K ?c s))) = klog (kdo K (Time Jiffies) (kdo K ?c s))"
    by (simp add: new_node_def)
  ultimately show ?thesis
    using assms False by (auto simp: task_info_alloc_def kcall_eq Let_def sync_ok_def log_simps)
qed

lemma add_insert_Null: "add_insert L K Null s = None"
  by (simp add: add_insert_def)

context list_h
begin

lemma add_insert_ok:
  assumes "sync_ok xs ((q, ti) # zs) s"
  shows "\<exists>s'. add_insert L K q s = Some s' \<and> sync_ok ((q, ti) # xs) zs s' \<and>
    jiffies_reads (klog s') = jiffies_reads (klog s)"
proof -
  have ok: "store_ok sync_head xs ((q, ti) # zs) (kdo K (Sync (Write_lock sync_lock)) s)"
    and l: "locks (klog s) = Some []" using assms by (simp_all add: sync_ok_def)
  then have "q \<noteq> Null" by (auto simp: store_ok_def)
  with store_ok_add [OF ok] l show ?thesis
    by (auto simp: add_insert_def sync_ok_def log_simps)
qed

text \<open>The whole function, with both outcomes of the allocation.\<close>

lemma add_to_list_cases:
  assumes "sync_ok xs zs s" and "kmalloc_fresh K"
  shows "\<exists>s1. add_lookup K p s = Some (p \<in> set (pids xs), s1) \<and>
    (if p \<notin> set (pids xs) \<and> kret K (klog s1) (Mem (Kmalloc sizeof_task_info ''GFP_KERNEL'')) = 0
     then task_info_add_to_list L K p s = None
     else \<exists>s' j. task_info_add_to_list L K p s = Some s' \<and>
       jiffies_reads (klog s') = jiffies_reads (klog s) @ [j] \<and>
       (if p \<in> set (pids xs) then sync_ok (touch p j xs) zs s'
        else \<exists>q. sync_ok ((q, \<lparr>pid = p, timestamp = j, count = 0\<rparr>) # xs) zs s'))"
proof -
  obtain s1 where s1: "add_lookup K p s = Some (p \<in> set (pids xs), s1)"
    "if p \<in> set (pids xs) then
       \<exists>j. sync_ok (touch p j xs) zs s1 \<and> jiffies_reads (klog s1) = jiffies_reads (klog s) @ [j]
     else sync_ok xs zs s1 \<and> jiffies_reads (klog s1) = jiffies_reads (klog s)"
    using add_lookup_ok [OF assms(1)] by blast
  show ?thesis
  proof (cases "p \<in> set (pids xs)")
    case True
    then show ?thesis using s1 by (auto simp: task_info_add_to_list_def)
  next
    case False
    then have ok: "sync_ok xs zs s1" and jr: "jiffies_reads (klog s1) = jiffies_reads (klog s)"
      using s1(2) by simp_all
    show ?thesis
    proof (cases "kret K (klog s1) (Mem (Kmalloc sizeof_task_info ''GFP_KERNEL'')) = 0")
      case True
      then have "fst (task_info_alloc K p s1) = Null" by (simp add: task_info_alloc_def kcall_eq)
      then show ?thesis
        using s1(1) False True by (auto simp: task_info_add_to_list_def add_insert_Null split: prod.split)
    next
      case nz: False
      obtain q j s2 where s2: "task_info_alloc K p s1 = (q, s2)"
        "sync_ok xs ((q, \<lparr>pid = p, timestamp = j, count = 0\<rparr>) # zs) s2"
        "jiffies_reads (klog s2) = jiffies_reads (klog s1) @ [j]"
        using task_info_alloc_ok [OF ok assms(2)] nz by blast
      then show ?thesis
        using add_insert_ok [OF s2(2), of K] s1(1) False jr nz by (auto simp: task_info_add_to_list_def)
    qed
  qed
qed

lemma add_to_list_ok:
  assumes "sync_ok xs zs s" and "kmalloc_fresh K" and "kmalloc_succeeds K"
  shows "\<exists>s' j. task_info_add_to_list L K p s = Some s' \<and>
    jiffies_reads (klog s') = jiffies_reads (klog s) @ [j] \<and>
    (if p \<in> set (pids xs) then sync_ok (touch p j xs) zs s'
     else \<exists>q. sync_ok ((q, \<lparr>pid = p, timestamp = j, count = 0\<rparr>) # xs) zs s')"
  using add_to_list_cases [OF assms(1,2), of p] assms(3) unfolding kmalloc_succeeds_def by auto

lemma remove_expired_ok:
  assumes "sync_ok xs zs s"
  shows "\<exists>s' js. task_info_remove_expired L K T s = Some s' \<and> length js = length xs \<and>
    jiffies_reads (klog s') = jiffies_reads (klog s) @ js \<and> sync_ok (survivors (HZ T) js xs) zs s' \<and>
    printed (klog s') = printed (klog s) \<and> set js \<subseteq> range (tick K)"
proof -
  define s0 where "s0 = kdo K (Sync (Write_lock sync_lock)) s"
  let ?body = "\<lambda>p s. do {
        let (j, s) = kcall K (Time Jiffies) s;
        ti \<leftarrow> heap s p;
        if expired (HZ T) (word_of_int j) ti then do {
          s \<leftarrow> unlink_and_free L K p s;
          Some (None :: unit option, s)
        } else Some (None, s) }"
  let ?I = "\<lambda>ps s'. \<exists>ds ys js. xs = ds @ ys \<and> ps = map fst ys \<and> length js = length ds \<and>
      store_ok sync_head (survivors (HZ T) js ds @ ys) zs s' \<and>
      locks (klog s') = Some [(sync_lock, Writer)] \<and> jiffies_reads (klog s') = jiffies_reads (klog s) @ js \<and>
      printed (klog s') = printed (klog s) \<and> set js \<subseteq> range (tick K)"
  have s0: "store_ok sync_head xs zs s0" "locks (klog s0) = Some [(sync_lock, Writer)]"
    "jiffies_reads (klog s0) = jiffies_reads (klog s)" "printed (klog s0) = printed (klog s)"
    using assms by (simp_all add: s0_def sync_ok_def log_simps)
  have "\<exists>r s'. list_for_each_safe links sync_head ?body s0 = Some (r, s') \<and>
      (case r of Some x \<Rightarrow> False | None \<Rightarrow> ?I [] s')"
  proof (rule list_for_each_safe_rule)
    show "is_list (links s0) sync_head (map fst xs)" by (rule store_ok_list [OF s0(1)])
    show "?I (map fst xs) s0" using s0 by (intro exI [of _ "[]"] exI [of _ xs]) simp
    fix p ps s1 assume "?I (p # ps) s1"
    then obtain ds ti ys js where xs: "xs = ds @ (p, ti) # ys" "ps = map fst ys" "length js = length ds"
      and ok: "store_ok sync_head (survivors (HZ T) js ds @ (p, ti) # ys) zs s1"
      and l: "locks (klog s1) = Some [(sync_lock, Writer)]" "jiffies_reads (klog s1) = jiffies_reads (klog s) @ js"
      "printed (klog s1) = printed (klog s)" "set js \<subseteq> range (tick K)"
      by (auto simp: Cons_eq_map_conv)
    let ?j = "word_of_int (kret K (klog s1) (Time Jiffies)) :: ulong"
    let ?s2 = "kdo K (Time Jiffies) s1"
    obtain s3 where s3: "unlink_and_free L K p ?s2 = Some s3" "store_ok sync_head (survivors (HZ T) js ds @ ys) zs s3"
      "klog s3 = klog (kdo K (Mem (Kfree p)) ?s2)"
      using store_ok_unlink_and_free [of sync_head "survivors (HZ T) js ds" p ti ys zs ?s2] ok by auto
    let ?s' = "if expired (HZ T) ?j ti then s3 else ?s2"
    have b: "?body p s1 = Some (None, ?s')"
      using store_ok_heap [OF ok] s3(1) by (simp add: kcall_eq)
    have ok': "store_ok sync_head (survivors (HZ T) (js @ [?j]) (ds @ [(p, ti)]) @ ys) zs ?s'"
      using s3(2) ok xs(3) by (simp add: survivors_append)
    moreover have "locks (klog ?s') = Some [(sync_lock, Writer)]"
      "jiffies_reads (klog ?s') = jiffies_reads (klog s) @ js @ [?j]" "printed (klog ?s') = printed (klog s)"
      using l by (simp_all add: s3(3) log_simps)
    moreover have "set (js @ [?j]) \<subseteq> range (tick K)" using l(4) by (auto simp: tick_def)
    ultimately have "?I ps ?s'"
      using xs by (intro exI [of _ "ds @ [(p, ti)]"] exI [of _ ys] exI [of _ "js @ [?j]"]) simp
    moreover have "\<exists>xs. is_list (links ?s') sync_head (xs @ ps)"
      using store_ok_list [OF ok'] xs(2) by (metis map_append)
    ultimately show "\<exists>r s'. ?body p s1 = Some (r, s') \<and>
        (case r of Some x \<Rightarrow> False | None \<Rightarrow> ?I ps s' \<and> (\<exists>xs. is_list (links s') sync_head (xs @ ps)))"
      using b by (intro exI [of _ None] exI [of _ ?s']) simp
  qed
  then obtain r s' where f: "list_for_each_safe links sync_head ?body s0 = Some (r, s')"
    "case r of Some x \<Rightarrow> False | None \<Rightarrow> ?I [] s'" by blast
  then have "?I [] s'" by (cases r) auto
  then show ?thesis
    using f(1) by (auto simp: task_info_remove_expired_def sync_ok_def log_simps simp flip: s0_def)
qed

lemma purge_ok:
  assumes "sync_ok xs zs s"
  shows "\<exists>s'. task_info_purge_list L K s = Some s' \<and> sync_ok [] zs s' \<and>
    printed (klog s') = printed (klog s) \<and> jiffies_reads (klog s') = jiffies_reads (klog s)"
  using purge_loop [of sync_head xs zs "kdo K (Sync (Write_lock sync_lock)) s" K] assms
  by (auto simp: task_info_purge_list_def sync_ok_def log_simps)

end

text \<open>What \<open>task_info_print_list\<close> prints.\<close>

definition listing :: "string \<Rightarrow> (ptr \<times> task_info) list \<Rightarrow> (string \<times> parg list) list" where
  "listing msg xs = (''%s: [ '', [PStr msg]) #
     map (\<lambda>(q, ti). (''(%d, %lu) '', [PInt (pid ti), PUlong (timestamp ti)])) xs @ [('']'', [])]"

lemma print_list_ok:
  assumes "sync_ok xs zs s"
  shows "\<exists>s'. task_info_print_list K msg s = Some s' \<and> sync_ok xs zs s' \<and>
    printed (klog s') = printed (klog s) @ listing msg xs \<and> jiffies_reads (klog s') = jiffies_reads (klog s)"
proof -
  let ?s = "kdo K (Sync (Read_lock sync_lock)) (kdo K (Print (Pr_info ''%s: [ '' [PStr msg])) s)"
  let ?out = "\<lambda>ti. [(''(%d, %lu) '', [PInt (pid ti), PUlong (timestamp ti)])]"
  have "prints_only (\<lambda>ti. kdo K (Print (Pr_info ''(%d, %lu) '' [PInt (pid ti), PUlong (timestamp ti)]))) ?out"
    by (simp add: prints_only_def log_simps)
  moreover have "store_ok sync_head xs zs ?s" using assms by (simp add: sync_ok_def)
  moreover have "concat (map (?out \<circ> snd) xs) =
      map (\<lambda>(q, ti). (''(%d, %lu) '', [PInt (pid ti), PUlong (timestamp ti)])) xs"
    by (induction xs) auto
  ultimately show ?thesis
    using visit_loop(1) assms
    by (fastforce simp: task_info_print_list_def visited_def sync_ok_def listing_def log_simps)
qed

text \<open>A null result of the allocation is dereferenced.\<close>

lemma add_to_list_oom:
  assumes "sync_ok xs zs s" and "p \<notin> set (pids xs)"
    and "\<And>h. kret K h (Mem (Kmalloc sizeof_task_info ''GFP_KERNEL'')) = 0"
  shows "task_info_add_to_list L K p s = None"
  using add_lookup_ok [OF assms(1), of K p] assms(2,3)
  by (auto simp: task_info_add_to_list_def task_info_alloc_def add_insert_def kcall_eq Let_def)

text \<open>The processes that \<open>task_info_add_for_current\<close> adds.\<close>

definition neighbours :: "tasks \<Rightarrow> int set" where
  "neighbours T = {task_pid T (current T), task_pid T (parent T (current T)),
     task_pid T (next_task T (current T)), task_pid T (next_task T (next_task T (current T)))}"

definition distinct_ok :: "(ptr \<times> task_info) list \<Rightarrow> list_sync \<Rightarrow> bool" where
  "distinct_ok xs s \<longleftrightarrow> sync_ok xs [] s \<and> distinct (pids xs)"

lemma distinct_survivors: "distinct (pids xs) \<Longrightarrow> distinct (pids (survivors hz js xs))"
  by (induction hz js xs rule: survivors.induct) (use survivors_subset in fastforce)+

context list_h
begin

lemma add_to_list_distinct:
  assumes "distinct_ok xs s" and "kmalloc_fresh K" and "kmalloc_succeeds K"
  shows "\<exists>s' xs'. task_info_add_to_list L K p s = Some s' \<and> distinct_ok xs' s' \<and>
    set (pids xs') = insert p (set (pids xs))"
proof -
  obtain s' j where s': "task_info_add_to_list L K p s = Some s'"
    "if p \<in> set (pids xs) then sync_ok (touch p j xs) [] s'
     else \<exists>q. sync_ok ((q, \<lparr>pid = p, timestamp = j, count = 0\<rparr>) # xs) [] s'"
    using add_to_list_ok [of xs "[]" s K p] assms unfolding distinct_ok_def by blast
  show ?thesis
  proof (cases "p \<in> set (pids xs)")
    case True
    then show ?thesis
      using s' assms(1) pids_touch [of p j xs]
      by (intro exI [of _ s'] exI [of _ "touch p j xs"]) (auto simp: distinct_ok_def simp del: map_map pids_touch)
  next
    case False
    then obtain q where "sync_ok ((q, \<lparr>pid = p, timestamp = j, count = 0\<rparr>) # xs) [] s'" using s'(2) by auto
    then show ?thesis
      using s'(1) assms(1) False
      by (intro exI [of _ s'] exI [of _ "(q, \<lparr>pid = p, timestamp = j, count = 0\<rparr>) # xs"]) (simp add: distinct_ok_def)
  qed
qed

lemma add_for_current_distinct:
  assumes ok: "distinct_ok xs s" and K: "kmalloc_fresh K" "kmalloc_succeeds K"
  shows "\<exists>s' xs'. task_info_add_for_current L K T s = Some s' \<and> distinct_ok xs' s' \<and>
    set (pids xs') = neighbours T \<union> set (pids xs)"
proof -
  note add = add_to_list_distinct [OF _ K]
  obtain s1 x1 where 1: "task_info_add_to_list L K (task_pid T (current T)) s = Some s1" "distinct_ok x1 s1"
    "set (pids x1) = insert (task_pid T (current T)) (set (pids xs))" using add [OF ok] by blast
  obtain s2 x2 where 2: "task_info_add_to_list L K (task_pid T (parent T (current T))) s1 = Some s2" "distinct_ok x2 s2"
    "set (pids x2) = insert (task_pid T (parent T (current T))) (set (pids x1))" using add [OF 1(2)] by blast
  obtain s3 x3 where 3: "task_info_add_to_list L K (task_pid T (next_task T (current T))) s2 = Some s3" "distinct_ok x3 s3"
    "set (pids x3) = insert (task_pid T (next_task T (current T))) (set (pids x2))" using add [OF 2(2)] by blast
  obtain s4 x4 where 4: "task_info_add_to_list L K (task_pid T (next_task T (next_task T (current T)))) s3 = Some s4"
    "distinct_ok x4 s4"
    "set (pids x4) = insert (task_pid T (next_task T (next_task T (current T)))) (set (pids x3))"
    using add [OF 3(2)] by blast
  have "task_info_add_for_current L K T s = Some s4"
    by (simp add: task_info_add_for_current_def 1(1) 2(1) 3(1) 4(1))
  moreover have "set (pids x4) = neighbours T \<union> set (pids xs)"
    unfolding 4(3) 3(3) 2(3) 1(3) neighbours_def by blast
  ultimately show ?thesis using 4(2) by blast
qed

lemma remove_expired_distinct:
  assumes "distinct_ok xs s"
  shows "\<exists>s' js. task_info_remove_expired L K T s = Some s' \<and> length js = length xs \<and>
    jiffies_reads (klog s') = jiffies_reads (klog s) @ js \<and> distinct_ok (survivors (HZ T) js xs) s' \<and>
    printed (klog s') = printed (klog s) \<and> set js \<subseteq> range (tick K)"
proof -
  have ok: "sync_ok xs [] s" and d: "distinct (pids xs)" using assms by (simp_all add: distinct_ok_def)
  show ?thesis
    using remove_expired_ok [OF ok, of K T] distinct_survivors [OF d, of "HZ T"] unfolding distinct_ok_def by auto
qed

lemma print_list_distinct:
  assumes "distinct_ok xs s"
  shows "\<exists>s'. task_info_print_list K msg s = Some s' \<and> distinct_ok xs s' \<and>
    printed (klog s') = printed (klog s) @ listing msg xs"
  using print_list_ok [of xs "[]" s] assms unfolding distinct_ok_def by blast

lemma list_sync0_init:
  "\<exists>l. INIT_LIST_HEAD L sync_head (links list_sync0) = Some l \<and> distinct_ok [] (list_sync0\<lparr>links := l\<rparr>)"
  using init_law [of sync_head "links list_sync0"]
  by (auto simp: list_sync0_def distinct_ok_def sync_ok_def store_ok_def held_mem_def held_def log_simps)

lemma list_sync_init_ok:
  assumes "kmalloc_fresh K" and "kmalloc_succeeds K"
  shows "\<exists>s xs. list_sync_init L K T list_sync0 = Some (0, s) \<and> distinct_ok xs s \<and> set (pids xs) = neighbours T"
proof -
  obtain l where l: "INIT_LIST_HEAD L sync_head (links list_sync0) = Some l" "distinct_ok [] (list_sync0\<lparr>links := l\<rparr>)"
    using list_sync0_init by blast
  obtain s1 xs where s1: "task_info_add_for_current L K T (list_sync0\<lparr>links := l\<rparr>) = Some s1" "distinct_ok xs s1"
    "set (pids xs) = neighbours T" using add_for_current_distinct [OF l(2) assms, of T] by auto
  obtain s2 where s2: "task_info_print_list K ''after first add'' s1 = Some s2" "distinct_ok xs s2"
    using print_list_distinct [OF s1(2)] by blast
  then have "distinct_ok xs (kdo K (Time b) (kdo K (Time a) s2))" for a b
    by (simp add: distinct_ok_def sync_ok_def log_simps)
  then show ?thesis using s1(3) by (auto simp: list_sync_init_def l(1) s1(1) s2(1))
qed

lemma list_sync_exit_ok:
  assumes "sync_ok (xs @ [(q, ti)]) zs s"
  shows "\<exists>s' js j. list_sync_exit L K T s = Some s' \<and> sync_ok [] zs s' \<and> length js = length xs \<and>
    jiffies_reads (klog s') = jiffies_reads (klog s) @ js @ [j] \<and>
    printed (klog s') = printed (klog s) @ listing ''after removing expired''
      (survivors (HZ T) js xs @ [(q, ti\<lparr>count := 10\<rparr>)])"
proof -
  let ?x = "xs @ [(q, ti\<lparr>count := 10\<rparr>)]" and ?s = "s\<lparr>heap := (heap s)(q \<mapsto> ti\<lparr>count := 10\<rparr>)\<rparr>"
  have st: "store_ok sync_head (xs @ (q, ti) # []) zs s" using assms by (simp add: sync_ok_def)
  have p: "pv (links s) sync_head = Some q" "heap s q = Some ti"
    using is_list_head(2) [OF store_ok_list [OF st]] store_ok_heap [OF st] by simp_all
  have "sync_ok ?x zs ?s"
    using store_ok_update [OF st, of "ti\<lparr>count := 10\<rparr>"] assms by (simp add: sync_ok_def)
  then obtain s1 ks where s1: "task_info_remove_expired L K T ?s = Some s1" "length ks = length ?x"
    "jiffies_reads (klog s1) = jiffies_reads (klog s) @ ks" "sync_ok (survivors (HZ T) ks ?x) zs s1"
    "printed (klog s1) = printed (klog s)"
    using remove_expired_ok [of ?x zs ?s K T] by auto
  obtain js j where ks: "ks = js @ [j]" "length js = length xs"
    using s1(2) by (cases ks rule: rev_cases) auto
  have sv: "survivors (HZ T) ks ?x = survivors (HZ T) js xs @ [(q, ti\<lparr>count := 10\<rparr>)]"
    using ks by (simp add: survivors_append expired_def)
  obtain s2 where s2: "task_info_print_list K ''after removing expired'' s1 = Some s2"
    "sync_ok (survivors (HZ T) ks ?x) zs s2" "jiffies_reads (klog s2) = jiffies_reads (klog s1)"
    "printed (klog s2) = printed (klog s1) @ listing ''after removing expired'' (survivors (HZ T) ks ?x)"
    using print_list_ok [OF s1(4)] by blast
  obtain s3 where s3: "task_info_purge_list L K s2 = Some s3" "sync_ok [] zs s3"
    "printed (klog s3) = printed (klog s2)" "jiffies_reads (klog s3) = jiffies_reads (klog s2)"
    using purge_ok [OF s2(2)] by blast
  have "list_sync_exit L K T s = Some s3"
    by (simp add: list_sync_exit_def p s1(1) s2(1) s3(1))
  moreover have "jiffies_reads (klog s3) = jiffies_reads (klog s) @ js @ [j]"
    using s3(4) s2(3) s1(3) ks(1) by simp
  ultimately show ?thesis
    using s3(2,3) s2(4) s1(5) sv ks(2) by (intro exI [of _ s3] exI [of _ js] exI [of _ j]) simp
qed

text \<open>On an empty list the last entry is the head itself.\<close>

lemma list_sync_exit_empty:
  assumes "sync_ok [] zs s"
  shows "list_sync_exit L K T s = None"
proof -
  have st: "store_ok sync_head [] zs s" using assms by (simp add: sync_ok_def)
  then have "pv (links s) sync_head = Some sync_head" using is_list_head(2) [OF store_ok_list [OF st]] by simp
  then show ?thesis using store_ok_head [OF st] by (simp add: list_sync_exit_def)
qed

end

section \<open>Concurrent callers\<close>

text \<open>
  Several threads call the module. A thread that adds a process runs the three parts of
  \<open>task_info_add_to_list\<close> one after the other, and between them other threads run; the lock makes each
  critical section, and each removal and printing, one step. \<open>caller\<close> is where a thread is.
\<close>

datatype caller = Idle | Looking int | Allocating int | Inserting ptr

type_synonym sync_system = "(nat \<Rightarrow> caller) \<times> list_sync"

inductive sync_step :: "list_api \<Rightarrow> kernel \<Rightarrow> tasks \<Rightarrow> sync_system \<Rightarrow> sync_system \<Rightarrow> bool" for L K T where
  enter: "c i = Idle \<Longrightarrow> sync_step L K T (c, s) (c(i := Looking p), s)"
| found: "c i = Looking p \<Longrightarrow> add_lookup K p s = Some (True, s') \<Longrightarrow> sync_step L K T (c, s) (c(i := Idle), s')"
| missing: "c i = Looking p \<Longrightarrow> add_lookup K p s = Some (False, s') \<Longrightarrow>
    sync_step L K T (c, s) (c(i := Allocating p), s')"
| alloc: "c i = Allocating p \<Longrightarrow> task_info_alloc K p s = (q, s') \<Longrightarrow> sync_step L K T (c, s) (c(i := Inserting q), s')"
| insert: "c i = Inserting q \<Longrightarrow> add_insert L K q s = Some s' \<Longrightarrow> sync_step L K T (c, s) (c(i := Idle), s')"
| remove: "task_info_remove_expired L K T s = Some s' \<Longrightarrow> sync_step L K T (c, s) (c, s')"
| print: "task_info_print_list K msg s = Some s' \<Longrightarrow> sync_step L K T (c, s) (c, s')"

inductive_cases sync_stepE: "sync_step L K T x y"

text \<open>The reachable states, from the empty list with every thread idle.\<close>

inductive sync_reach :: "list_api \<Rightarrow> kernel \<Rightarrow> tasks \<Rightarrow> sync_system \<Rightarrow> bool" for L K T where
  start: "INIT_LIST_HEAD L sync_head (links list_sync0) = Some l \<Longrightarrow>
    sync_reach L K T (\<lambda>i. Idle, list_sync0\<lparr>links := l\<rparr>)"
| step: "sync_reach L K T x \<Longrightarrow> sync_step L K T x y \<Longrightarrow> sync_reach L K T y"

text \<open>
  Each thread that is about to insert owns one allocated structure that no other thread owns, unless its allocation has failed.
\<close>

definition callers_ok :: "(nat \<Rightarrow> caller) \<Rightarrow> (ptr \<times> task_info) list \<Rightarrow> bool" where
  "callers_ok c zs \<longleftrightarrow>
     (\<forall>i q. c i = Inserting q \<longrightarrow> q \<noteq> Null \<longrightarrow> q \<in> fst ` set zs) \<and>
     (\<forall>i k q. c i = Inserting q \<longrightarrow> c k = Inserting q \<longrightarrow> q \<noteq> Null \<longrightarrow> i = k)"

definition system_ok :: "sync_system \<Rightarrow> bool" where
  "system_ok x \<longleftrightarrow> (\<exists>xs zs. sync_ok xs zs (snd x) \<and> callers_ok (fst x) zs)"

lemma callers_ok_leave:
  "callers_ok c zs \<Longrightarrow> (\<And>q. a = Inserting q \<Longrightarrow> q = Null) \<Longrightarrow> callers_ok (c(i := a)) zs"
  unfolding callers_ok_def by (auto split: if_splits)

lemma callers_ok_own:
  "callers_ok c zs \<Longrightarrow> q \<notin> fst ` set zs \<Longrightarrow> callers_ok (c(i := Inserting q)) ((q, ti) # zs)"
  unfolding callers_ok_def by (auto split: if_splits)

lemma callers_ok_give:
  assumes "callers_ok c zs" "c i = Inserting q" "q \<noteq> Null"
  shows "\<exists>ti zs'. mset zs = mset ((q, ti) # zs') \<and> callers_ok (c(i := Idle)) zs'"
proof -
  obtain ti where ti: "(q, ti) \<in> set zs" using assms unfolding callers_ok_def by fastforce
  have "p \<in> fst ` set (remove1 (q, ti) zs)" if k: "(c(i := Idle)) k = Inserting p" "p \<noteq> Null" for k p
  proof -
    have "c k = Inserting p" "k \<noteq> i" using k by (auto split: if_splits)
    then obtain n where "(p, n) \<in> set zs" "p \<noteq> q"
      using assms k(2) unfolding callers_ok_def by fastforce
    then have "(p, n) \<in> set (remove1 (q, ti) zs)" by (simp add: in_set_remove1)
    then show ?thesis by force
  qed
  then have "callers_ok (c(i := Idle)) (remove1 (q, ti) zs)"
    using assms(1) unfolding callers_ok_def by (auto split: if_splits)
  then show ?thesis using ti by (intro exI [of _ ti] exI [of _ "remove1 (q, ti) zs"]) simp
qed

lemma sync_ok_perm: "sync_ok xs zs s \<Longrightarrow> mset zs = mset zs' \<Longrightarrow> sync_ok xs zs' s"
  by (auto simp: sync_ok_def intro: store_ok_perm)

lemma sync_ok_fresh: "sync_ok xs ((q, ti) # zs) s \<Longrightarrow> q \<notin> fst ` set zs"
  by (auto simp: sync_ok_def store_ok_def)

context list_h
begin

lemma insert_ready:
  assumes "sync_ok xs zs s" and "callers_ok c zs" and "c i = Inserting q" and "q \<noteq> Null"
  shows "\<exists>ti zs' s'. add_insert L K q s = Some s' \<and> sync_ok ((q, ti) # xs) zs' s' \<and> callers_ok (c(i := Idle)) zs'"
proof -
  obtain ti zs' where zs': "mset zs = mset ((q, ti) # zs')" "callers_ok (c(i := Idle)) zs'"
    using callers_ok_give [OF assms(2-4)] by blast
  then show ?thesis
    using add_insert_ok [OF sync_ok_perm [OF assms(1) zs'(1)], of K] by blast
qed

lemma sync_step_ok:
  assumes "sync_step L K T x y" and "system_ok x" and "kmalloc_fresh K"
  shows "system_ok y"
proof -
  obtain xs zs where ok: "sync_ok xs zs (snd x)" "callers_ok (fst x) zs" using assms(2) by (auto simp: system_ok_def)
  from assms(1) show ?thesis
  proof cases
    case (enter c i s p)
    then show ?thesis using ok callers_ok_leave [of c zs "Looking p" i] by (auto simp: system_ok_def)
  next
    case (found c i p s s')
    then show ?thesis
      using ok callers_ok_leave [of c zs Idle i] add_lookup_ok [of xs zs s K p]
      by (auto simp: system_ok_def split: if_splits)
  next
    case (missing c i p s s')
    then show ?thesis
      using ok callers_ok_leave [of c zs "Allocating p" i] add_lookup_ok [of xs zs s K p]
      by (auto simp: system_ok_def split: if_splits)
  next
    case (alloc c i p s q s')
    then consider "q = Null" "sync_ok xs zs s'" | j where "sync_ok xs ((q, \<lparr>pid = p, timestamp = j, count = 0\<rparr>) # zs) s'"
      using ok(1) task_info_alloc_ok [of xs zs s K p] assms(3) by auto
    then show ?thesis
    proof cases
      case 1
      then show ?thesis using alloc ok(2) callers_ok_leave [of c zs "Inserting q" i] by (auto simp: system_ok_def)
    next
      case 2
      then show ?thesis using alloc ok(2) callers_ok_own [of c zs q i] sync_ok_fresh unfolding system_ok_def by fastforce
    qed
  next
    case (insert c i q s s')
    then have "q \<noteq> Null" using add_insert_Null by auto
    then show ?thesis using insert insert_ready [OF ok(1), of c i q K] ok(2) by (auto simp: system_ok_def)
  next
    case (remove s s' c)
    then show ?thesis using ok remove_expired_ok [of xs zs s K T] by (auto simp: system_ok_def)
  next
    case (print msg s s' c)
    then show ?thesis using ok print_list_ok [of xs zs s K msg] by (auto simp: system_ok_def)
  qed
qed

lemma sync_reach_ok:
  assumes "sync_reach L K T x" and "kmalloc_fresh K"
  shows "system_ok x"
  using assms(1)
proof induction
  case (start l)
  then show ?case using list_sync0_init
    by (auto simp: system_ok_def callers_ok_def distinct_ok_def intro!: exI [of _ "[]"])
next
  case (step x y)
  then show ?case using sync_step_ok assms(2) by blast
qed

end

section \<open>The contract of the exported functions\<close>

text \<open>
  What another module may rely on: called in a state that satisfies \<open>ok\<close>, each exported function
  returns and keeps \<open>ok\<close>. Its client lemma is that no sequence of calls faults.
\<close>

datatype export_call = Add_for_current | Remove_expired | Print_list string

fun run_exports ::
    "('s \<Rightarrow> 's option) \<Rightarrow> ('s \<Rightarrow> 's option) \<Rightarrow> (string \<Rightarrow> 's \<Rightarrow> 's option) \<Rightarrow> export_call list \<Rightarrow> 's \<Rightarrow> 's option" where
  "run_exports add rm pr [] s = Some s"
| "run_exports add rm pr (e # es) s = do {
     s \<leftarrow> (case e of Add_for_current \<Rightarrow> add s | Remove_expired \<Rightarrow> rm s | Print_list m \<Rightarrow> pr m s);
     run_exports add rm pr es s
   }"

locale exported_list =
  fixes add :: "'s \<Rightarrow> 's option" and rm :: "'s \<Rightarrow> 's option" and pr :: "string \<Rightarrow> 's \<Rightarrow> 's option"
    and ok :: "'s \<Rightarrow> bool"
  assumes add_total: "ok s \<Longrightarrow> \<exists>s'. add s = Some s' \<and> ok s'"
    and rm_total: "ok s \<Longrightarrow> \<exists>s'. rm s = Some s' \<and> ok s'"
    and pr_total: "ok s \<Longrightarrow> \<exists>s'. pr m s = Some s' \<and> ok s'"
begin

lemma clients_never_fault: "ok s \<Longrightarrow> \<exists>s'. run_exports add rm pr es s = Some s' \<and> ok s'"
proof (induction es arbitrary: s)
  case (Cons e es)
  have "\<exists>s1. (case e of Add_for_current \<Rightarrow> add s | Remove_expired \<Rightarrow> rm s | Print_list m \<Rightarrow> pr m s) = Some s1 \<and> ok s1"
    using Cons.prems add_total rm_total pr_total by (cases e) auto
  then show ?case using Cons.IH by auto
qed simp

end

text \<open>The module fulfils the contract wherever the header does and allocation succeeds.\<close>

locale list_sync_env = list_h L for L +
  fixes K :: kernel and T :: tasks
  assumes fresh: "kmalloc_fresh K" and succeeds: "kmalloc_succeeds K"

sublocale list_sync_env \<subseteq> exports:
  exported_list "task_info_add_for_current L K T" "task_info_remove_expired L K T" "task_info_print_list K"
    "\<lambda>s. \<exists>xs. distinct_ok xs s"
proof
  fix s m assume "\<exists>xs. distinct_ok xs s"
  then obtain xs where xs: "distinct_ok xs s" by blast
  show "\<exists>s'. task_info_add_for_current L K T s = Some s' \<and> (\<exists>xs. distinct_ok xs s')"
    using add_for_current_distinct [OF xs fresh succeeds] by blast
  show "\<exists>s'. task_info_remove_expired L K T s = Some s' \<and> (\<exists>xs. distinct_ok xs s')"
    using remove_expired_distinct [OF xs] by blast
  show "\<exists>s'. task_info_print_list K m s = Some s' \<and> (\<exists>xs. distinct_ok xs s')"
    using print_list_distinct [OF xs] by blast
qed

context list_sync_env
begin

lemma exports_safe:
  "distinct_ok xs s \<Longrightarrow> \<exists>s' xs'. run_exports (task_info_add_for_current L K T) (task_info_remove_expired L K T)
    (task_info_print_list K) calls s = Some s' \<and> distinct_ok xs' s'"
  using exports.clients_never_fault by blast

end

text \<open>A concrete set of tasks, for the instances below.\<close>

definition shell_tasks :: tasks where
  "shell_tasks = \<lparr>current = Heap 30, parent = (\<lambda>p. Heap 10), next_task = (\<lambda>p. if p = Heap 30 then Heap 31 else Heap 0),
     task_pid = (\<lambda>p. case p of Heap n \<Rightarrow> n | _ \<Rightarrow> 0), HZ = 250\<rparr>"

interpretation loaded: list_sync_env dll bump_kernel shell_tasks
  by unfold_locales (rule bump_kmalloc_fresh, rule bump_kmalloc_succeeds)

text \<open>The state right after \<open>INIT_LIST_HEAD\<close>.\<close>

definition empty_links :: links where
  "empty_links = [sync_head \<mapsto> \<lparr>lnext = sync_head, lprev = sync_head\<rparr>]"

definition empty_sync :: list_sync where "empty_sync = list_sync0\<lparr>links := empty_links\<rparr>"

lemma empty_sync_init: "INIT_LIST_HEAD dll sync_head (links list_sync0) = Some empty_links"
  by (simp add: dll_def set_next_def set_prev_def list_sync0_def empty_links_def)

lemma empty_sync_ok: "distinct_ok [] empty_sync" "sync_ok [] [] empty_sync"
  using header.list_sync0_init by (simp_all add: empty_sync_init empty_sync_def distinct_ok_def)

text \<open>A state with one entry, and a kernel whose clock has run on for a long time since.\<close>

definition one_entry :: "(ptr \<times> task_info) list" where
  "one_entry = [(Heap 1, \<lparr>pid = 9, timestamp = 0, count = 0\<rparr>)]"

definition one_sync :: list_sync where
  "one_sync = \<lparr>klog = [(Mem (Kmalloc 40 ''GFP_KERNEL''), 1)],
     links = [sync_head \<mapsto> \<lparr>lnext = Heap 1, lprev = Heap 1\<rparr>, Heap 1 \<mapsto> \<lparr>lnext = sync_head, lprev = sync_head\<rparr>],
     heap = map_of one_entry\<rparr>"

definition late_kernel :: kernel where
  "late_kernel = bump_kernel\<lparr>kret := (\<lambda>h c. case c of Time Jiffies \<Rightarrow> 1000000 | _ \<Rightarrow> bump_ret h c)\<rparr>"

lemma one_sync_ok: "sync_ok one_entry [] one_sync"
  by (simp add: sync_ok_def store_ok_def one_sync_def one_entry_def is_list_def linked_def nx_def pv_def
      sync_head_def held_mem_def held_def acct_def acct_step_def locks_def log_simps)

section \<open>Properties\<close>

text \<open>
  Two threads that add the same process can both miss it: there is a reachable state in which each of them is about to insert an
  entry of its own.
\<close>

lemma both_inserting:
  assumes "list_h L" and "kmalloc_fresh K" and "kmalloc_succeeds K"
  shows "\<exists>q1 j1 q2 j2 s. sync_reach L K T ((\<lambda>i. Idle)(0 := Inserting q1, 1 := Inserting q2), s) \<and>
    sync_ok [] [(q2, \<lparr>pid = p, timestamp = j2, count = 0\<rparr>), (q1, \<lparr>pid = p, timestamp = j1, count = 0\<rparr>)] s"
proof -
  note go = sync_reach.step [OF _ sync_step.enter] sync_reach.step [OF _ sync_step.missing]
    sync_reach.step [OF _ sync_step.alloc]
  have malloc: "\<exists>q j s'. task_info_alloc K p s = (q, s') \<and> sync_ok xs ((q, \<lparr>pid = p, timestamp = j, count = 0\<rparr>) # zs) s'"
    if "sync_ok xs zs s" for xs zs s
    using task_info_alloc_ok [OF that assms(2), of p] assms(3) unfolding kmalloc_succeeds_def by blast
  have miss: "\<exists>s'. add_lookup K p s = Some (False, s') \<and> sync_ok [] zs s'" if "sync_ok [] zs s" for zs s
    using add_lookup_ok [OF that, of K p] by auto
  obtain l where l: "INIT_LIST_HEAD L sync_head (links list_sync0) = Some l" "sync_ok [] [] (list_sync0\<lparr>links := l\<rparr>)"
    using list_h.list_sync0_init [OF assms(1)] by (auto simp: distinct_ok_def)
  define c where "c = (\<lambda>i :: nat. Idle)(0 := Looking p, 1 := Looking p)"
  have r0: "sync_reach L K T (c, list_sync0\<lparr>links := l\<rparr>)"
    using go(1) [OF go(1) [OF sync_reach.start [OF l(1), of K T], of 0 p], of 1 p] by (simp add: c_def)
  obtain s1 where s1: "add_lookup K p (list_sync0\<lparr>links := l\<rparr>) = Some (False, s1)" "sync_ok [] [] s1" using miss [OF l(2)] by blast
  obtain s2 where s2: "add_lookup K p s1 = Some (False, s2)" "sync_ok [] [] s2" using miss [OF s1(2)] by blast
  have r2: "sync_reach L K T (c(0 := Allocating p, 1 := Allocating p), s2)"
    using go(2) [OF go(2) [OF r0 _ s1(1), of 0] _ s2(1), of 1] by (simp add: c_def)
  obtain q1 j1 s3 where s3: "task_info_alloc K p s2 = (q1, s3)" "sync_ok [] [(q1, \<lparr>pid = p, timestamp = j1, count = 0\<rparr>)] s3"
    using malloc [OF s2(2)] by blast
  obtain q2 j2 s4 where s4: "task_info_alloc K p s3 = (q2, s4)"
    "sync_ok [] [(q2, \<lparr>pid = p, timestamp = j2, count = 0\<rparr>), (q1, \<lparr>pid = p, timestamp = j1, count = 0\<rparr>)] s4"
    using malloc [OF s3(2)] by blast
  have "sync_reach L K T (c(0 := Inserting q1, 1 := Inserting q2), s4)"
    using go(3) [OF go(3) [OF r2 _ s3(1), of 0] _ s4(1), of 1] by (simp add: fun_upd_twist)
  moreover have "c(0 := Inserting q1, 1 := Inserting q2) = (\<lambda>i. Idle)(0 := Inserting q1, 1 := Inserting q2)"
    by (auto simp: c_def)
  ultimately have "sync_reach L K T ((\<lambda>i. Idle)(0 := Inserting q1, 1 := Inserting q2), s4)" by simp
  then show ?thesis using s4(2) by (intro exI conjI)
qed

text \<open>Without memory, a thread that adds a process ends up with the null pointer to insert.\<close>

lemma inserting_null:
  assumes "list_h L" and "kmalloc_fresh K" and "\<And>h n f. kret K h (Mem (Kmalloc n f)) = 0"
  shows "\<exists>s. sync_reach L K T ((\<lambda>i. Idle)(0 := Inserting Null), s)"
proof -
  obtain l where l: "INIT_LIST_HEAD L sync_head (links list_sync0) = Some l" "sync_ok [] [] (list_sync0\<lparr>links := l\<rparr>)"
    using list_h.list_sync0_init [OF assms(1)] by (auto simp: distinct_ok_def)
  obtain s1 where s1: "add_lookup K p (list_sync0\<lparr>links := l\<rparr>) = Some (False, s1)" "sync_ok [] [] s1"
    using add_lookup_ok [OF l(2), of K p] by auto
  have a: "task_info_alloc K p s1 = (Null, snd (task_info_alloc K p s1))"
    by (simp add: task_info_alloc_def kcall_eq assms(3))
  have "sync_reach L K T ((\<lambda>i. Idle)(0 := Looking p), list_sync0\<lparr>links := l\<rparr>)"
    by (rule sync_reach.step [OF sync_reach.start [OF l(1)] sync_step.enter]) simp
  then have "sync_reach L K T ((\<lambda>i. Idle)(0 := Allocating p), s1)"
    using sync_reach.step [OF _ sync_step.missing [OF _ s1(1)], of L T "(\<lambda>i. Idle)(0 := Looking p)" 0] by simp
  then have "sync_reach L K T ((\<lambda>i. Idle)(0 := Inserting Null), snd (task_info_alloc K p s1))"
    using sync_reach.step [OF _ sync_step.alloc [OF _ a], of L T "(\<lambda>i. Idle)(0 := Allocating p)" 0] by simp
  then show ?thesis by blast
qed

text \<open>
  C4: Concurrent callers are safe but for one fault: whatever the threads do and however they are interleaved, also when
  allocations fail, the list stays a well-formed ring of allocated structures, the memory held is exactly that of the list and of the
  structures some thread is about to insert, and looking up, removing and printing never fault (no dangling or null
  pointer is followed, every loop ends). An insertion faults exactly when the thread inserts the null pointer of a failed
  allocation, which the code does not check for.
\<close>

theorem list_sync_concurrent_safe:
  assumes "list_h L" and "kmalloc_fresh K" and "sync_reach L K T (c, s)"
  shows "(\<exists>xs zs. sync_ok xs zs s \<and> callers_ok c zs) \<and>
    (\<exists>r. add_lookup K p s = Some r) \<and> (c i = Inserting q \<longrightarrow> (add_insert L K q s = None \<longleftrightarrow> q = Null)) \<and>
    (\<exists>s'. task_info_remove_expired L K T s = Some s') \<and> (\<exists>s'. task_info_print_list K msg s = Some s')"
proof -
  obtain xs zs where ok: "sync_ok xs zs s" "callers_ok c zs"
    using list_h.sync_reach_ok [OF assms(1,3,2)] by (auto simp: system_ok_def)
  have "c i = Inserting q \<longrightarrow> (add_insert L K q s = None \<longleftrightarrow> q = Null)"
    using list_h.insert_ready [OF assms(1) ok, of i q K] by (cases "q = Null") (auto simp: add_insert_Null)
  then show ?thesis
    using ok add_lookup_ok [OF ok(1), of K p] list_h.remove_expired_ok [OF assms(1) ok(1), of K T]
      print_list_ok [OF ok(1), of K msg] by blast
qed

text \<open>A kernel that has no memory left.\<close>

definition no_memory_kernel :: kernel where
  "no_memory_kernel = \<lparr>kret = (\<lambda>h c. 0), kbytes = (\<lambda>h c. [])\<rparr>"

lemma null_not_held: "RMem (Heap 0) \<notin> set (held h)"
proof (induction h rule: rev_induct)
  case (snoc e h)
  have "gain (fst e) (snd e) \<noteq> Some (RMem (Heap 0))"
    by (cases "fst e") (auto elim!: gain_elims split: if_splits)
  then show ?case
    using snoc by (auto simp: held_def log_simps acct_step_def split: option.splits dest: notin_set_remove1)
qed (simp add: held_def log_simps)

lemma no_memory_kernel_answers: "kmalloc_fresh no_memory_kernel" "kret no_memory_kernel h c = 0"
  using null_not_held by (simp_all add: no_memory_kernel_def kmalloc_fresh_def)

theorem list_sync_concurrent_safe_witness:
  "(\<exists>c s q1 q2. sync_reach dll bump_kernel shell_tasks (c, s) \<and> c 0 = Inserting q1 \<and> c 1 = Inserting q2 \<and>
      add_insert dll bump_kernel q1 s \<noteq> None \<and> add_insert dll bump_kernel q2 s \<noteq> None \<and>
      task_info_remove_expired dll bump_kernel shell_tasks s \<noteq> None) \<and>
   (\<exists>c s. sync_reach dll no_memory_kernel shell_tasks (c, s) \<and> c 0 = Inserting Null \<and>
      add_insert dll no_memory_kernel Null s = None \<and> add_lookup no_memory_kernel 7 s \<noteq> None)"
proof
  obtain q1 j1 q2 j2 s where r: "sync_reach dll bump_kernel shell_tasks ((\<lambda>i. Idle)(0 := Inserting q1, 1 := Inserting q2), s)"
      "sync_ok [] [(q2, \<lparr>pid = 7, timestamp = j2, count = 0\<rparr>), (q1, \<lparr>pid = 7, timestamp = j1, count = 0\<rparr>)] s"
    using both_inserting [OF header.list_h_axioms bump_kmalloc_fresh bump_kmalloc_succeeds] by blast
  then have q: "q1 \<noteq> Null" "q2 \<noteq> Null" by (auto simp: sync_ok_def store_ok_def)
  note safe = list_sync_concurrent_safe [OF header.list_h_axioms bump_kmalloc_fresh r(1)]
  have "add_insert dll bump_kernel q1 s \<noteq> None" using safe [of 7 0 q1] q by simp
  moreover have "add_insert dll bump_kernel q2 s \<noteq> None" using safe [of 7 1 q2] q by simp
  moreover have "task_info_remove_expired dll bump_kernel shell_tasks s \<noteq> None" using safe [of 7 1 q2] by auto
  ultimately show "\<exists>c s q1 q2. sync_reach dll bump_kernel shell_tasks (c, s) \<and> c 0 = Inserting q1 \<and> c 1 = Inserting q2 \<and>
      add_insert dll bump_kernel q1 s \<noteq> None \<and> add_insert dll bump_kernel q2 s \<noteq> None \<and>
      task_info_remove_expired dll bump_kernel shell_tasks s \<noteq> None"
    using r(1) by fastforce
next
  note K = no_memory_kernel_answers
  obtain s where r: "sync_reach dll no_memory_kernel shell_tasks ((\<lambda>i. Idle)(0 := Inserting Null), s)"
    using inserting_null [OF header.list_h_axioms K(1)] K(2) by blast
  have "add_insert dll no_memory_kernel Null s = None \<and> add_lookup no_memory_kernel 7 s \<noteq> None"
    using list_sync_concurrent_safe [OF header.list_h_axioms K(1) r, of 7 0 Null] by auto
  then show "\<exists>c s. sync_reach dll no_memory_kernel shell_tasks (c, s) \<and> c 0 = Inserting Null \<and>
      add_insert dll no_memory_kernel Null s = None \<and> add_lookup no_memory_kernel 7 s \<noteq> None"
    using r by fastforce
qed

text \<open>
  Check and insertion are not one critical section: two threads that add the same process can both
  miss it and both insert it. The list then holds two entries of one process, which the
  lookup exists to prevent.
\<close>

theorem list_sync_duplicate_race:
  assumes "list_h L" and "kmalloc_fresh K" and "kmalloc_succeeds K"
  shows "\<exists>c s xs. sync_reach L K T (c, s) \<and> sync_ok xs [] s \<and> pids xs = [p, p]"
proof -
  obtain q1 j1 q2 j2 s4 where r4: "sync_reach L K T ((\<lambda>i. Idle)(0 := Inserting q1, 1 := Inserting q2), s4)"
      "sync_ok [] [(q2, \<lparr>pid = p, timestamp = j2, count = 0\<rparr>), (q1, \<lparr>pid = p, timestamp = j1, count = 0\<rparr>)] s4"
    using both_inserting [OF assms] by blast
  obtain s5 where s5: "add_insert L K q2 s4 = Some s5"
    "sync_ok [(q2, \<lparr>pid = p, timestamp = j2, count = 0\<rparr>)] [(q1, \<lparr>pid = p, timestamp = j1, count = 0\<rparr>)] s5"
    using list_h.add_insert_ok [OF assms(1) r4(2)] by blast
  obtain s6 where s6: "add_insert L K q1 s5 = Some s6"
    "sync_ok [(q1, \<lparr>pid = p, timestamp = j1, count = 0\<rparr>), (q2, \<lparr>pid = p, timestamp = j2, count = 0\<rparr>)] [] s6"
    using list_h.add_insert_ok [OF assms(1) s5(2)] by blast
  note go = sync_reach.step [OF _ sync_step.insert]
  have "sync_reach L K T ((\<lambda>i. Idle)(0 := Inserting q1, 1 := Inserting q2, 1 := Idle, 0 := Idle), s6)"
    using go [OF go [OF r4(1) _ s5(1), of 1] _ s6(1), of 0] by simp
  then show ?thesis using s6(2) by fastforce
qed

theorem list_sync_duplicate_race_witness:
  "\<exists>c s xs. sync_reach dll bump_kernel shell_tasks (c, s) \<and> sync_ok xs [] s \<and> pids xs = [30, 30]"
  by (rule list_sync_duplicate_race [OF header.list_h_axioms bump_kmalloc_fresh bump_kmalloc_succeeds])

text \<open>
  C5: Adding a process, one caller at a time, on every path: if it is on the list, the first of its entries gets the
  current tick count and a counter one higher (modulo \<open>2^32\<close>) and nothing else changes; if it is not and memory can be had, one new
  entry with counter 0 is put in front. All locks are released. If it is not and the allocation, made after the lookup, fails, the
  function faults: it inserts the null pointer.
\<close>

theorem list_sync_add_refines:
  assumes "list_h L" and "kmalloc_fresh K" and "sync_ok xs [] s"
  shows "\<exists>s1. add_lookup K p s = Some (p \<in> set (pids xs), s1) \<and>
    (if p \<notin> set (pids xs) \<and> kret K (klog s1) (Mem (Kmalloc sizeof_task_info ''GFP_KERNEL'')) = 0
     then task_info_add_to_list L K p s = None
     else \<exists>s' j. task_info_add_to_list L K p s = Some s' \<and>
       jiffies_reads (klog s') = jiffies_reads (klog s) @ [j] \<and>
       (if p \<in> set (pids xs) then sync_ok (touch p j xs) [] s'
        else \<exists>q. sync_ok ((q, \<lparr>pid = p, timestamp = j, count = 0\<rparr>) # xs) [] s'))"
  by (rule list_h.add_to_list_cases [OF assms(1,3,2)])

theorem list_sync_add_refines_witness:
  "(\<exists>s' j q. task_info_add_to_list dll bump_kernel 7 one_sync = Some s' \<and>
      sync_ok ((q, \<lparr>pid = 7, timestamp = j, count = 0\<rparr>) # one_entry) [] s') \<and>
   (\<exists>s' j. task_info_add_to_list dll no_memory_kernel 9 one_sync = Some s' \<and> sync_ok (touch 9 j one_entry) [] s') \<and>
   task_info_add_to_list dll no_memory_kernel 7 one_sync = None"
proof -
  note K = no_memory_kernel_answers
  have b: "kret bump_kernel h (Mem (Kmalloc n f)) \<noteq> 0" for h n f
    using bump_kmalloc_succeeds unfolding kmalloc_succeeds_def by blast
  have p: "pids one_entry = [9]" by (simp add: one_entry_def)
  show ?thesis
    using list_sync_add_refines [OF header.list_h_axioms bump_kmalloc_fresh one_sync_ok, of 7]
      list_sync_add_refines [OF header.list_h_axioms K(1) one_sync_ok, of 9]
      list_sync_add_refines [OF header.list_h_axioms K(1) one_sync_ok, of 7] b K(2) p
    by (simp only: list.set insert_iff empty_iff) auto
qed

text \<open>
  C12: Removal: exactly the entries that were expired when their check read the tick counter are unlinked,
  and their memory is given back; all others stay, in order and unchanged.
\<close>

theorem list_sync_remove_expired_refines:
  assumes "list_h L" and "sync_ok xs zs s"
  shows "\<exists>s' js. task_info_remove_expired L K T s = Some s' \<and> length js = length xs \<and>
    jiffies_reads (klog s') = jiffies_reads (klog s) @ js \<and> sync_ok (survivors (HZ T) js xs) zs s' \<and>
    mset (held_mem (klog s')) = mset (map (RMem \<circ> fst) (survivors (HZ T) js xs @ zs))"
proof -
  obtain s' js where "task_info_remove_expired L K T s = Some s'" "length js = length xs"
    "jiffies_reads (klog s') = jiffies_reads (klog s) @ js" "sync_ok (survivors (HZ T) js xs) zs s'"
    using list_h.remove_expired_ok [OF assms] by blast
  then show ?thesis unfolding sync_ok_def store_ok_def by blast
qed

theorem list_sync_remove_expired_refines_witness:
  "\<exists>s' j. task_info_remove_expired dll late_kernel shell_tasks one_sync = Some s' \<and>
    mset (held_mem (klog s')) = mset (map (RMem \<circ> fst) (survivors 250 [j] one_entry))"
proof -
  have "length js = length one_entry \<longleftrightarrow> (\<exists>j. js = [j])" for js :: "ulong list"
    by (simp add: one_entry_def length_Suc_conv)
  then show ?thesis
    using list_sync_remove_expired_refines [OF header.list_h_axioms one_sync_ok, of late_kernel shell_tasks]
    by (auto simp: shell_tasks_def)
qed

text \<open>
  The expiry test survives the wrap-around of the tick counter: an entry that was stamped \<open>d\<close> ticks ago,
  for any \<open>d\<close> below \<open>2^64\<close>, is expired iff more than \<open>3 * HZ\<close> ticks have passed and its counter, read
  as a signed number, is below 5.
\<close>

theorem expired_wraps:
  assumes "3 * hz < 2 ^ 64" and "d < 2 ^ 64"
  shows "expired hz (timestamp ti + of_nat d) ti \<longleftrightarrow> 3 * hz < d \<and> sint (count ti) < 5"
proof -
  have "(of_nat (3 * hz) :: ulong) < of_nat d \<longleftrightarrow> 3 * hz < d"
    using assms by (simp add: word_less_nat_alt unat_of_nat take_bit_nat_eq_self del: of_nat_mult)
  then show ?thesis by (simp add: expired_def del: of_nat_mult)
qed

theorem expired_wraps_witness:
  "expired 250 5 \<lparr>pid = 1, timestamp = - 1000, count = 0\<rparr>"
  using expired_wraps [of 250 1005 "\<lparr>pid = 1, timestamp = - 1000, count = 0\<rparr>"] by simp

text \<open>
  Printing writes the label, one line per entry in list order and the closing bracket, reads the list under
  the read lock only, and changes nothing.
\<close>

theorem list_sync_print_lists_entries:
  assumes "sync_ok xs zs s"
  shows "\<exists>s'. task_info_print_list K msg s = Some s' \<and> sync_ok xs zs s' \<and>
    printed (klog s') = printed (klog s) @ listing msg xs"
  using print_list_ok [OF assms] by blast

theorem list_sync_print_lists_entries_witness:
  "\<exists>s'. task_info_print_list bump_kernel ''empty'' empty_sync = Some s' \<and>
    printed (klog s') = [(''%s: [ '', [PStr ''empty'']), ('']'', [])]"
  using list_sync_print_lists_entries [OF empty_sync_ok(2), of bump_kernel "''empty''"]
  by (auto simp: listing_def empty_sync_def list_sync0_def printed_def)

text \<open>
  Loading the module fills the list with the current process, its parent and the next two tasks, each
  process once even where these coincide, and returns 0.
\<close>

theorem list_sync_init_lists_neighbours:
  assumes "list_h L" and "kmalloc_fresh K" and "kmalloc_succeeds K"
  shows "\<exists>s xs. list_sync_init L K T list_sync0 = Some (0, s) \<and> sync_ok xs [] s \<and>
    distinct (pids xs) \<and> set (pids xs) = neighbours T"
  using list_h.list_sync_init_ok [OF assms] unfolding distinct_ok_def by blast

theorem list_sync_init_lists_neighbours_witness:
  "\<exists>s xs. list_sync_init dll bump_kernel shell_tasks list_sync0 = Some (0, s) \<and> sync_ok xs [] s \<and>
    distinct (pids xs) \<and> set (pids xs) = {30, 10, 31, 0}"
  using list_sync_init_lists_neighbours [OF header.list_h_axioms bump_kmalloc_fresh bump_kmalloc_succeeds, of shell_tasks]
  by (simp add: neighbours_def shell_tasks_def)

text \<open>
  Unloading with a list that is not empty frees everything: the last entry is marked and survives the
  removal of the expired ones, the survivors are printed, then the list is purged and no memory is held.
\<close>

theorem list_sync_exit_frees_all:
  assumes "list_h L" and "sync_ok (xs @ [(q, ti)]) [] s"
  shows "\<exists>s' js j. list_sync_exit L K T s = Some s' \<and> held_mem (klog s') = [] \<and> locks (klog s') = Some [] \<and>
    length js = length xs \<and> jiffies_reads (klog s') = jiffies_reads (klog s) @ js @ [j] \<and>
    printed (klog s') = printed (klog s) @ listing ''after removing expired''
      (survivors (HZ T) js xs @ [(q, ti\<lparr>count := 10\<rparr>)])"
  using list_h.list_sync_exit_ok [OF assms, of K T] by (auto simp: sync_ok_def store_ok_def)

theorem list_sync_exit_frees_all_witness:
  "\<exists>s'. list_sync_exit dll late_kernel shell_tasks one_sync = Some s' \<and> held_mem (klog s') = []"
proof -
  have "sync_ok ([] @ [(Heap 1, \<lparr>pid = 9, timestamp = 0, count = 0\<rparr>)]) [] one_sync"
    using one_sync_ok by (simp add: one_entry_def)
  then show ?thesis
    using list_sync_exit_frees_all [OF header.list_h_axioms, of "[]" "Heap 1" _ one_sync late_kernel shell_tasks]
    by blast
qed

text \<open>
  Unloading with an empty list corrupts memory: \<open>list_entry(head.prev)\<close> is then computed from the head, which
  is in no \<open>task_info\<close>, and the counter is stored there.
\<close>

theorem list_sync_exit_faults_on_empty:
  assumes "list_h L" and "sync_ok [] zs s"
  shows "list_sync_exit L K T s = None"
  by (rule list_h.list_sync_exit_empty [OF assms])

theorem list_sync_exit_faults_on_empty_witness:
  "list_sync_exit dll bump_kernel shell_tasks empty_sync = None"
  by (rule list_sync_exit_faults_on_empty [OF header.list_h_axioms empty_sync_ok(2)])

text \<open>
  The result of the allocation is not checked: when memory runs out while a process that is not on the
  list is being added, the null pointer is dereferenced.
\<close>

theorem list_sync_add_faults_without_memory:
  assumes "sync_ok xs zs s" and "p \<notin> set (pids xs)"
    and "\<And>h. kret K h (Mem (Kmalloc sizeof_task_info ''GFP_KERNEL'')) = 0"
  shows "task_info_add_to_list L K p s = None"
  by (rule add_to_list_oom [OF assms])

text \<open>A kernel with no memory left.\<close>

definition oom_kernel :: kernel where
  "oom_kernel = \<lparr>kret = (\<lambda>h c. 0), kbytes = (\<lambda>h c. [])\<rparr>"

theorem list_sync_add_faults_without_memory_witness:
  "task_info_add_to_list dll oom_kernel 9 empty_sync = None"
  by (rule list_sync_add_faults_without_memory [OF empty_sync_ok(2)]) (simp_all add: oom_kernel_def)

end
