(* ===== verification/List_sym.thy ===== *)
theory List_sym
  imports List_sync
begin

text \<open>
  \<open>KernelModules/list-sym-mod/list-sym.c\<close>: a module that works on the list of \<open>list-sync\<close> through the three
  exported functions. Its state is that of \<open>list-sync\<close>. It relies on the contract \<open>exported_list\<close>.
\<close>

section \<open>Definitions\<close>

definition list_test_init :: "list_api \<Rightarrow> kernel \<Rightarrow> tasks \<Rightarrow> list_sync \<Rightarrow> (int \<times> list_sync) option" where
  "list_test_init L K T s = do {
     s \<leftarrow> task_info_add_for_current L K T s;
     s \<leftarrow> task_info_print_list K ''after new addition'' s;
     Some (0, s)
   }"

definition list_test_exit :: "list_api \<Rightarrow> kernel \<Rightarrow> tasks \<Rightarrow> list_sync \<Rightarrow> list_sync option" where
  "list_test_exit L K T s = do {
     s \<leftarrow> task_info_remove_expired L K T s;
     task_info_print_list K ''after removing expired'' s
   }"

section \<open>The module as a client of the contract\<close>

lemma list_test_init_runs:
  "list_test_init L K T s = map_option (Pair 0) (run_exports (task_info_add_for_current L K T)
     (task_info_remove_expired L K T) (task_info_print_list K) [Add_for_current, Print_list ''after new addition''] s)"
  by (auto simp: list_test_init_def split: bind_splits)

lemma list_test_exit_runs:
  "list_test_exit L K T s = run_exports (task_info_add_for_current L K T)
     (task_info_remove_expired L K T) (task_info_print_list K) [Remove_expired, Print_list ''after removing expired''] s"
  by (auto simp: list_test_exit_def split: bind_splits)

lemma list_sync_envI:
  "list_h L \<Longrightarrow> kmalloc_fresh K \<Longrightarrow> kmalloc_succeeds K \<Longrightarrow> list_sync_env L K"
  by (simp add: list_sync_env_def list_sync_env_axioms_def)

section \<open>Properties\<close>

text \<open>
  The exports are safe to use from another module: from a state in which the list is well-formed and has
  no process twice, any sequence of calls of the three exported functions returns, and leaves such a state.
\<close>

theorem list_sync_clients_never_fault:
  assumes "list_h L" and "kmalloc_fresh K" and "kmalloc_succeeds K" and "distinct_ok xs s"
  shows "\<exists>s' xs'. run_exports (task_info_add_for_current L K T) (task_info_remove_expired L K T)
    (task_info_print_list K) calls s = Some s' \<and> distinct_ok xs' s'"
  by (rule list_sync_env.exports_safe [OF list_sync_envI [OF assms(1-3)] assms(4)])

theorem list_sync_clients_never_fault_witness:
  "\<exists>s' xs'. run_exports (task_info_add_for_current dll bump_kernel shell_tasks)
    (task_info_remove_expired dll bump_kernel shell_tasks) (task_info_print_list bump_kernel)
    [Add_for_current, Add_for_current, Print_list ''twice'', Remove_expired] empty_sync = Some s' \<and> distinct_ok xs' s'"
  by (rule list_sync_clients_never_fault [OF header.list_h_axioms bump_kmalloc_fresh bump_kmalloc_succeeds
        empty_sync_ok(1)])

text \<open>
  The two modules together: with \<open>list-sync\<close> loaded, loading and unloading \<open>list-sym\<close> returns 0 and
  never faults, prints the list both times, and adds the current process and its neighbours to the list.
\<close>

theorem list_sym_load_unload:
  assumes "list_h L" and "kmalloc_fresh K" and "kmalloc_succeeds K" and "distinct_ok xs s"
  shows "\<exists>s1 x1 s2 js. list_test_init L K T s = Some (0, s1) \<and> distinct_ok x1 s1 \<and>
    set (pids x1) = neighbours T \<union> set (pids xs) \<and>
    list_test_exit L K T s1 = Some s2 \<and> distinct_ok (survivors (HZ T) js x1) s2 \<and>
    printed (klog s2) = printed (klog s1) @ listing ''after removing expired'' (survivors (HZ T) js x1)"
proof -
  obtain sa x1 where sa: "task_info_add_for_current L K T s = Some sa" "distinct_ok x1 sa"
    "set (pids x1) = neighbours T \<union> set (pids xs)"
    using list_h.add_for_current_distinct [OF assms(1,4,2,3)] by blast
  obtain s1 where s1: "task_info_print_list K ''after new addition'' sa = Some s1" "distinct_ok x1 s1"
    using list_h.print_list_distinct [OF assms(1) sa(2)] by blast
  obtain sb js where sb: "task_info_remove_expired L K T s1 = Some sb" "distinct_ok (survivors (HZ T) js x1) sb"
    "printed (klog sb) = printed (klog s1)"
    using list_h.remove_expired_distinct [OF assms(1) s1(2)] by blast
  obtain s2 where s2: "task_info_print_list K ''after removing expired'' sb = Some s2"
    "distinct_ok (survivors (HZ T) js x1) s2"
    "printed (klog s2) = printed (klog sb) @ listing ''after removing expired'' (survivors (HZ T) js x1)"
    using list_h.print_list_distinct [OF assms(1) sb(2)] by blast
  show ?thesis
    using sa s1 sb s2 by (auto simp: list_test_init_def list_test_exit_def)
qed

theorem list_sym_load_unload_witness:
  "\<exists>s1 s2. list_test_init dll bump_kernel shell_tasks empty_sync = Some (0, s1) \<and>
    list_test_exit dll bump_kernel shell_tasks s1 = Some s2"
  using list_sym_load_unload [OF header.list_h_axioms bump_kmalloc_fresh bump_kmalloc_succeeds
      empty_sync_ok(1), of shell_tasks] by blast

text \<open>
  Unloading \<open>list-sym\<close> can break \<open>list-sync\<close>: if every entry has expired by then, the list is left empty
  and the later unloading of \<open>list-sync\<close> faults.
\<close>

theorem list_sym_exit_breaks_list_sync:
  assumes "list_h L" and "sync_ok xs [] s"
    and "\<And>x h. x \<in> set xs \<Longrightarrow> expired (HZ T) (tick K h) (snd x)"
  shows "\<exists>s'. list_test_exit L K T s = Some s' \<and> list_sync_exit L K T s' = None"
proof -
  obtain s1 js where s1: "task_info_remove_expired L K T s = Some s1" "sync_ok (survivors (HZ T) js xs) [] s1"
    "set js \<subseteq> range (tick K)" using list_h.remove_expired_ok [OF assms(1,2)] by blast
  then have "survivors (HZ T) js xs = []" using assms(3) by (intro survivors_none) blast
  then obtain s2 where "task_info_print_list K ''after removing expired'' s1 = Some s2" "sync_ok [] [] s2"
    using print_list_ok [OF s1(2)] by force
  then show ?thesis
    using s1(1) list_h.list_sync_exit_empty [OF assms(1)] by (simp add: list_test_exit_def)
qed

theorem list_sym_exit_breaks_list_sync_witness:
  "\<exists>s'. list_test_exit dll late_kernel shell_tasks one_sync = Some s' \<and>
    list_sync_exit dll late_kernel shell_tasks s' = None"
proof (rule list_sym_exit_breaks_list_sync [OF header.list_h_axioms one_sync_ok])
  show "expired (HZ shell_tasks) (tick late_kernel h) (snd x)" if "x \<in> set one_entry" for x h
    using that by (simp add: one_entry_def expired_def shell_tasks_def tick_def late_kernel_def)
qed

end
