(* ===== verification/Kernel_list.thy ===== *)
theory Kernel_list
  imports Store "HOL-Library.Sublist"
begin

text \<open>
  The list module, \<open>KernelModules/kernel-Lists-mod/list.c\<close>: when loaded it lists the current process and three
  of its ancestors, when unloaded it prints and frees the list. Definitions in the order of the calls, then the
  lemmas over the store, then the properties.
\<close>

section \<open>Definitions\<close>

record taskInfo =
  pid :: int
  timestamp :: ulong

type_synonym kernel_list = "taskInfo list_module"

definition head :: ptr where "head = Static ''list.head'' 0 ''''"

definition kernel_list0 :: kernel_list where
  "kernel_list0 = \<lparr>klog = [], links = [head \<mapsto> \<lparr>lnext = Null, lprev = Null\<rparr>], heap = Map.empty\<rparr>"

definition sizeof_taskInfo :: nat where "sizeof_taskInfo = 32"

definition alloc_task_info :: "kernel \<Rightarrow> int \<Rightarrow> kernel_list \<Rightarrow> ptr \<times> kernel_list" where
  "alloc_task_info K p s =
     (let (r, s) = kcall K (Mem (Kmalloc sizeof_taskInfo ''GFP_KERNEL'')) s; t = ptr_of r in
      if t = Null then (Null, kdo K (Print (Pr_debug ''[ERROR] Failed to allocate memory for taskInfo'' [])) s)
      else let (j, s) = kcall K (Time Jiffies) s in
        (t, new_node t \<lparr>pid = p, timestamp = word_of_int j\<rparr> s))"

definition print_task_info :: "kernel \<Rightarrow> taskInfo \<Rightarrow> kernel_list \<Rightarrow> kernel_list" where
  "print_task_info K tsk s =
     (let s = kdo K (Print (Pr_info ''tsk->id: %d'' [PInt (pid tsk)])) s
      in kdo K (Print (Pr_info ''tsk->timestamp: %lx'' [PUlong (timestamp tsk)])) s)"

definition task_info_add_for_current :: "list_api \<Rightarrow> kernel \<Rightarrow> int \<Rightarrow> kernel_list \<Rightarrow> kernel_list option" where
  "task_info_add_for_current L K p s =
     (let (tsk, s) = alloc_task_info K p s in
      if tsk = Null then
        Some (kdo K (Print (Pr_debug ''[ERROR] failed to allocate memory for taskInfo'' [])) s)
      else init_and_add L tsk head s)"

definition task_info_print_list :: "kernel \<Rightarrow> kernel_list \<Rightarrow> kernel_list option" where
  "task_info_print_list K s = do {
     (_, s) \<leftarrow> list_for_each links head (\<lambda>curr s. do {
        currTsk \<leftarrow> heap s curr;
        Some (None :: unit option, print_task_info K currTsk s)
      }) s;
     Some s
   }"

definition task_info_purge_list :: "list_api \<Rightarrow> kernel \<Rightarrow> kernel_list \<Rightarrow> kernel_list option" where
  "task_info_purge_list L K s = do {
     (_, s) \<leftarrow> list_for_each_safe links head (\<lambda>curr s. do {
        s \<leftarrow> unlink_and_free L K curr s;
        Some (None :: unit option, s)
      }) s;
     Some s
   }"

definition init_kernel_list :: "list_api \<Rightarrow> kernel \<Rightarrow> tasks \<Rightarrow> kernel_list \<Rightarrow> (int \<times> kernel_list) option" where
  "init_kernel_list L K T s = do {
     l \<leftarrow> INIT_LIST_HEAD L head (links s);
     s \<leftarrow> task_info_add_for_current L K (task_pid T (current T)) (s\<lparr>links := l\<rparr>);
     s \<leftarrow> task_info_add_for_current L K (task_pid T (parent T (current T))) s;
     s \<leftarrow> task_info_add_for_current L K (task_pid T (parent T (parent T (current T)))) s;
     s \<leftarrow> task_info_add_for_current L K (task_pid T (parent T (parent T (parent T (current T))))) s;
     Some (0, kdo K (Print (Pr_info ''[LOG] Succesffuly added the task info into the linked list'' [])) s)
   }"

definition exit_kernel_list :: "list_api \<Rightarrow> kernel \<Rightarrow> kernel_list \<Rightarrow> kernel_list option" where
  "exit_kernel_list L K s = do {
     s \<leftarrow> task_info_print_list K s;
     s \<leftarrow> task_info_purge_list L K s;
     let s = kdo K (Print (Pr_info ''[LOG] Successfully purged the linked list'' [])) s;
     Some (kdo K (Print (Pr_info ''[LOG] unloading the kernel list module'' [])) s)
   }"

section \<open>The functions over the store\<close>

definition ancestors :: "tasks \<Rightarrow> int list" where
  "ancestors T = map (\<lambda>n. task_pid T ((parent T ^^ n) (current T))) [0..<4]"

definition list_ok :: "(ptr \<times> taskInfo) list \<Rightarrow> kernel_list \<Rightarrow> bool" where
  "list_ok xs s \<longleftrightarrow> store_ok head xs [] s \<and> locks (klog s) = Some []"

abbreviation "pids \<equiv> map (pid \<circ> snd)"

lemma prints_task_info:
  "prints_only (print_task_info K)
     (\<lambda>t. [(''tsk->id: %d'', [PInt (pid t)]), (''tsk->timestamp: %lx'', [PUlong (timestamp t)])])"
  by (simp add: prints_only_def print_task_info_def Let_def log_simps)

text \<open>One addition: the new entry is in front, or allocation failed and nothing changed.\<close>

context list_h
begin

lemma add_ok:
  assumes "list_ok xs s" and "kmalloc_fresh K"
  shows "\<exists>s' ys. task_info_add_for_current L K p s = Some s' \<and> list_ok (ys @ xs) s' \<and>
    (pids ys = [p] \<or> ys = [] \<and> \<not> kmalloc_succeeds K)"
proof (cases "kret K (klog s) (Mem (Kmalloc sizeof_taskInfo ''GFP_KERNEL'')) = 0")
  case True
  have "store_ok head xs [] (kdo K (Mem (Kmalloc sizeof_taskInfo ''GFP_KERNEL'')) s)"
    by (rule store_ok_same [of _ _ _ s]) (use assms True in \<open>simp_all add: list_ok_def log_simps\<close>)
  then show ?thesis
    using assms(1) True
    by (intro exI [of _ "[]"] exI)
      (auto simp: task_info_add_for_current_def alloc_task_info_def kcall_eq Let_def list_ok_def log_simps
        kmalloc_succeeds_def)
next
  case False
  let ?c = "Mem (Kmalloc sizeof_taskInfo ''GFP_KERNEL'')"
  let ?s = "kdo K (Time Jiffies) (kdo K ?c s)"
  let ?q = "Heap (kret K (klog s) ?c)" and ?j = "word_of_int (kret K (klog (kdo K ?c s)) (Time Jiffies)) :: ulong"
  let ?n = "\<lparr>pid = p, timestamp = ?j\<rparr>"
  have "store_ok head xs [(?q, ?n)] (new_node ?q ?n (kdo K ?c s))"
    using assms False by (intro store_ok_alloc) (auto simp: list_ok_def head_def)
  then have ok: "store_ok head xs [(?q, ?n)] (new_node ?q ?n ?s)"
    by (rule store_ok_same) (simp_all add: new_node_def log_simps)
  obtain s' where s': "init_and_add L ?q head (new_node ?q ?n ?s) = Some s'" "store_ok head ((?q, ?n) # xs) [] s'"
    "klog s' = klog (new_node ?q ?n ?s)" using store_ok_init_and_add [OF ok] by blast
  moreover have "locks (klog (new_node ?q ?n ?s)) = Some []"
    using assms(1) by (simp add: new_node_def list_ok_def log_simps)
  moreover have "task_info_add_for_current L K p s = Some s'"
    using False s'(1) by (simp add: task_info_add_for_current_def alloc_task_info_def kcall_eq Let_def)
  ultimately show ?thesis by (intro exI [of _ s'] exI [of _ "[(?q, ?n)]"]) (simp add: list_ok_def)
qed

lemma init_ok:
  assumes "kmalloc_fresh K"
  shows "\<exists>s xs. init_kernel_list L K T kernel_list0 = Some (0, s) \<and> list_ok xs s \<and>
    subseq (rev (pids xs)) (ancestors T) \<and> (kmalloc_succeeds K \<longrightarrow> pids xs = rev (ancestors T))"
proof -
  note add = add_ok [OF _ assms]
  let ?p = "\<lambda>n. task_pid T ((parent T ^^ n) (current T))"
  obtain l where l: "INIT_LIST_HEAD L head (links kernel_list0) = Some l" "list_ok [] (kernel_list0\<lparr>links := l\<rparr>)"
    using store_ok_start [of head kernel_list0]
    by (auto simp: kernel_list0_def list_ok_def held_mem_def held_def log_simps)
  obtain s1 y1 where 1: "task_info_add_for_current L K (?p 0) (kernel_list0\<lparr>links := l\<rparr>) = Some s1" "list_ok (y1 @ []) s1"
    "pids y1 = [?p 0] \<or> y1 = [] \<and> \<not> kmalloc_succeeds K" using add [OF l(2), of "?p 0"] by auto
  obtain s2 y2 where 2: "task_info_add_for_current L K (?p 1) s1 = Some s2" "list_ok (y2 @ y1 @ []) s2"
    "pids y2 = [?p 1] \<or> y2 = [] \<and> \<not> kmalloc_succeeds K" using add [OF 1(2), of "?p 1"] by (elim exE conjE) (rule that)
  obtain s3 y3 where 3: "task_info_add_for_current L K (?p 2) s2 = Some s3" "list_ok (y3 @ y2 @ y1 @ []) s3"
    "pids y3 = [?p 2] \<or> y3 = [] \<and> \<not> kmalloc_succeeds K" using add [OF 2(2), of "?p 2"] by (elim exE conjE) (rule that)
  obtain s4 y4 where 4: "task_info_add_for_current L K (?p 3) s3 = Some s4" "list_ok (y4 @ y3 @ y2 @ y1 @ []) s4"
    "pids y4 = [?p 3] \<or> y4 = [] \<and> \<not> kmalloc_succeeds K" using add [OF 3(2), of "?p 3"] by (elim exE conjE) (rule that)
  let ?xs = "y4 @ y3 @ y2 @ y1"
  have anc: "ancestors T = [?p 0, ?p 1, ?p 2, ?p 3]" by (simp add: ancestors_def upt_rec numeral_eq_Suc)
  have "subseq (rev (pids ?xs)) (ancestors T) \<and> (kmalloc_succeeds K \<longrightarrow> pids ?xs = rev (ancestors T))"
    using 1(3) 2(3) 3(3) 4(3) by (elim disjE conjE) (simp_all add: anc del: One_nat_def)
  moreover have "list_ok ?xs (kdo K (Print c) s4)" for c using 4(2) by (simp add: list_ok_def log_simps)
  moreover have "init_kernel_list L K T kernel_list0 = Some (0, kdo K (Print (Pr_info
      ''[LOG] Succesffuly added the task info into the linked list'' [])) s4)"
    using l(1) 1(1) 2(1) 3(1) 4(1) by (simp add: init_kernel_list_def numeral_eq_Suc)
  ultimately show ?thesis by blast
qed

lemma exit_ok:
  assumes "list_ok xs s"
  shows "\<exists>s'. exit_kernel_list L K s = Some s' \<and> list_ok [] s' \<and>
    printed (klog s') = printed (klog s) @
      concat (map (\<lambda>(q, t). [(''tsk->id: %d'', [PInt (pid t)]), (''tsk->timestamp: %lx'', [PUlong (timestamp t)])]) xs) @
      [(''[LOG] Successfully purged the linked list'', []), (''[LOG] unloading the kernel list module'', [])]"
proof -
  let ?out = "\<lambda>t. [(''tsk->id: %d'', [PInt (pid t)]), (''tsk->timestamp: %lx'', [PUlong (timestamp t)])]"
  obtain s1 where s1: "task_info_print_list K s = Some s1" "visited head xs [] ?out s xs s1"
    using visit_loop(1) [OF prints_task_info [of K], of head xs "[]" s] assms
    by (auto simp: task_info_print_list_def list_ok_def)
  then obtain s2 where "task_info_purge_list L K s1 = Some s2" "store_ok head [] [] s2" "locks (klog s2) = locks (klog s1)"
    "printed (klog s2) = printed (klog s1)"
    using purge_loop [of head xs "[]" s1 K] by (auto simp: task_info_purge_list_def visited_def)
  moreover have "concat (map (?out \<circ> snd) xs) = concat (map (\<lambda>(q, t). ?out t) xs)"
    by (intro arg_cong [of _ _ concat] map_cong) auto
  ultimately show ?thesis
    using s1 assms by (auto simp: exit_kernel_list_def visited_def list_ok_def log_simps)
qed

end

section \<open>Properties\<close>

text \<open>
  Loading \<open>list.c\<close> returns 0 whatever the allocator does: the list holds, last added first, those of the current
  process and its three nearest ancestors for which memory was found, all four of them if none was refused.
  Unloading then prints every entry once, in list order, and gives all the memory back.
\<close>

theorem kernel_list_load_unload:
  assumes "list_h L" and "kmalloc_fresh K"
  shows "\<exists>s xs s'. init_kernel_list L K T kernel_list0 = Some (0, s) \<and> list_ok xs s \<and>
    subseq (rev (pids xs)) (ancestors T) \<and> (kmalloc_succeeds K \<longrightarrow> pids xs = rev (ancestors T)) \<and>
    exit_kernel_list L K s = Some s' \<and> held_mem (klog s') = [] \<and>
    printed (klog s') = printed (klog s) @
      concat (map (\<lambda>(q, t). [(''tsk->id: %d'', [PInt (pid t)]), (''tsk->timestamp: %lx'', [PUlong (timestamp t)])]) xs) @
      [(''[LOG] Successfully purged the linked list'', []), (''[LOG] unloading the kernel list module'', [])]"
proof -
  obtain s xs where s: "init_kernel_list L K T kernel_list0 = Some (0, s)" "list_ok xs s"
    "subseq (rev (pids xs)) (ancestors T)" "kmalloc_succeeds K \<longrightarrow> pids xs = rev (ancestors T)"
    using list_h.init_ok [OF assms] by blast
  moreover have "held_mem (klog s') = []" if "list_ok [] s'" for s'
    using that by (simp add: list_ok_def store_ok_def)
  ultimately show ?thesis using list_h.exit_ok [OF assms(1) s(2), of K] by blast
qed

definition init_tasks :: tasks where
  "init_tasks = \<lparr>current = Heap 30, parent = (\<lambda>p. if p = Heap 30 then Heap 10 else Heap 1), next_task = (\<lambda>p. p),
     task_pid = (\<lambda>p. case p of Heap n \<Rightarrow> n | _ \<Rightarrow> 0), HZ = 250\<rparr>"

theorem kernel_list_load_unload_witness:
  "\<exists>s xs s'. init_kernel_list dll bump_kernel init_tasks kernel_list0 = Some (0, s) \<and> list_ok xs s \<and>
    pids xs = [1, 1, 10, 30] \<and> exit_kernel_list dll bump_kernel s = Some s' \<and> held_mem (klog s') = []"
proof -
  have "rev (ancestors init_tasks) = [1, 1, 10, 30]" by (simp add: ancestors_def init_tasks_def upt_rec numeral_eq_Suc)
  then show ?thesis
    using kernel_list_load_unload [OF header.list_h_axioms bump_kmalloc_fresh, of init_tasks] bump_kmalloc_succeeds
    by metis
qed

end
