(* ===== verification/Kernel_list_full.thy ===== *)
theory Kernel_list_full
  imports Store "HOL-Library.Sublist"
begin

text \<open>
  The extended list module, \<open>KernelModules/kernel-Lists-full-mod/list-full.c\<close>: as \<open>list.c\<close>, with an access counter
  in each entry, a lookup and the removal of the expired entries of one process. The counter is incremented in
  memory that was never initialised: its first value is whatever the kernel's memory held, modelled as an
  answer of the kernel (\<open>Uninit\<close>).
\<close>

section \<open>Definitions\<close>

record taskInfo =
  pid :: int
  cnt :: u32
  timestamp :: ulong

type_synonym kernel_list_full = "taskInfo list_module"

definition head :: ptr where "head = Static ''list_full.head'' 0 ''''"

definition kernel_list_full0 :: kernel_list_full where
  "kernel_list_full0 = \<lparr>klog = [], links = [head \<mapsto> \<lparr>lnext = Null, lprev = Null\<rparr>], heap = Map.empty\<rparr>"

definition sizeof_taskInfo :: nat where "sizeof_taskInfo = 32"

definition print_task_info :: "kernel \<Rightarrow> taskInfo \<Rightarrow> kernel_list_full \<Rightarrow> kernel_list_full" where
  "print_task_info K t s =
     (let s = kdo K (Print (Pr_info ''[LOG] PID: %d'' [PInt (pid t)])) s;
          s = kdo K (Print (Pr_info ''[LOG] CNT: %d'' [PInt (sint (cnt t))])) s
      in kdo K (Print (Pr_info ''[LOG] timestamp: %lx'' [PUlong (timestamp t)])) s)"

definition print_full_list :: "kernel \<Rightarrow> kernel_list_full \<Rightarrow> kernel_list_full option" where
  "print_full_list K s = do {
     (_, s) \<leftarrow> list_for_each_safe links head (\<lambda>tmp s. do {
        t \<leftarrow> heap s tmp;
        Some (None :: unit option, print_task_info K t s)
      }) s;
     Some s
   }"

definition alloc_task_info :: "kernel \<Rightarrow> int \<Rightarrow> kernel_list_full \<Rightarrow> ptr \<times> kernel_list_full" where
  "alloc_task_info K p s =
     (let (r, s) = kcall K (Mem (Kmalloc sizeof_taskInfo ''GFP_KERNEL'')) s; t = ptr_of r in
      if t = Null then (Null, kdo K (Print (Pr_debug ''[ERROR] Failed to allocate memory for taskInfo'' [])) s)
      else let (j, s) = kcall K (Time Jiffies) s; (c, s) = kcall K (Mem (Uninit t ''cnt'')) s in
        (t, new_node t \<lparr>pid = p, cnt = word_of_int c + 1, timestamp = word_of_int j\<rparr> s))"

definition task_info_add_for_current ::
    "list_api \<Rightarrow> kernel \<Rightarrow> int \<Rightarrow> kernel_list_full \<Rightarrow> kernel_list_full option" where
  "task_info_add_for_current L K p s =
     (let (tsk, s) = alloc_task_info K p s in
      if tsk = Null then
        Some (kdo K (Print (Pr_debug ''[ERROR] failed to allocate memory for taskInfo'' [])) s)
      else init_and_add L tsk head s)"

definition task_info_find_pid :: "int \<Rightarrow> kernel_list_full \<Rightarrow> (ptr \<times> kernel_list_full) option" where
  "task_info_find_pid p s = do {
     (r, s) \<leftarrow> list_for_each_safe links head (\<lambda>curr s. do {
        tsk \<leftarrow> heap s curr;
        Some (if pid tsk = p then Some curr else None, s)
      }) s;
     Some (case r of Some q \<Rightarrow> q | None \<Rightarrow> Null, s)
   }"

definition task_info_purge_list :: "list_api \<Rightarrow> kernel \<Rightarrow> kernel_list_full \<Rightarrow> kernel_list_full option" where
  "task_info_purge_list L K s = do {
     (_, s) \<leftarrow> list_for_each_safe links head (\<lambda>curr s. do {
        s \<leftarrow> unlink_and_free L K curr s;
        Some (None :: unit option, s)
      }) s;
     Some s
   }"

text \<open>The conjunction of the removal stops at the first test that fails: the clock is read only for an entry
  of the process with a low counter.\<close>

definition task_info_remove_expired ::
    "list_api \<Rightarrow> kernel \<Rightarrow> tasks \<Rightarrow> int \<Rightarrow> kernel_list_full \<Rightarrow> kernel_list_full option" where
  "task_info_remove_expired L K T p s = do {
     (_, s) \<leftarrow> list_for_each_safe links head (\<lambda>curr s. do {
        tsk \<leftarrow> heap s curr;
        if pid tsk = p \<and> sint (cnt tsk) < 5 then
          let (j, s) = kcall K (Time Jiffies) s in
          if word_of_int j - timestamp tsk > of_nat (3 * HZ T) then do {
            s \<leftarrow> unlink_and_free L K curr s;
            Some (None :: unit option, s)
          } else Some (None, s)
        else Some (None, s)
      }) s;
     Some s
   }"

definition init_full_kernel_list ::
    "list_api \<Rightarrow> kernel \<Rightarrow> tasks \<Rightarrow> kernel_list_full \<Rightarrow> (int \<times> kernel_list_full) option" where
  "init_full_kernel_list L K T s = do {
     l \<leftarrow> INIT_LIST_HEAD L head (links s);
     s \<leftarrow> task_info_add_for_current L K (task_pid T (current T)) (s\<lparr>links := l\<rparr>);
     s \<leftarrow> task_info_add_for_current L K (task_pid T (parent T (current T))) s;
     s \<leftarrow> task_info_add_for_current L K (task_pid T (parent T (parent T (current T)))) s;
     s \<leftarrow> task_info_add_for_current L K (task_pid T (parent T (parent T (parent T (current T))))) s;
     (_, s) \<leftarrow> task_info_find_pid (task_pid T (parent T (current T))) s;
     let s = kdo K (Print (Pr_info ''[LOG] Succesffuly added the task info into the linked list'' [])) s;
     s \<leftarrow> task_info_remove_expired L K T (task_pid T (parent T (parent T (current T)))) s;
     Some (0, s)
   }"

definition exit_full_kernel_list :: "list_api \<Rightarrow> kernel \<Rightarrow> kernel_list_full \<Rightarrow> kernel_list_full option" where
  "exit_full_kernel_list L K s = do {
     s \<leftarrow> print_full_list K s;
     s \<leftarrow> task_info_purge_list L K s;
     let s = kdo K (Print (Pr_info ''[LOG] Successfully purged the linked list'' [])) s;
     Some (kdo K (Print (Pr_info ''[LOG] unloading the kernel list module'' [])) s)
   }"

section \<open>The abstract list\<close>

definition list_ok :: "(ptr \<times> taskInfo) list \<Rightarrow> kernel_list_full \<Rightarrow> bool" where
  "list_ok xs s \<longleftrightarrow> store_ok head xs [] s \<and> locks (klog s) = Some []"

abbreviation "pids \<equiv> map (pid \<circ> snd)"

text \<open>The entries whose age is looked at, and what is kept when these checks read the tick counts \<open>js\<close>.\<close>

definition candidate :: "int \<Rightarrow> ptr \<times> taskInfo \<Rightarrow> bool" where
  "candidate p x \<longleftrightarrow> pid (snd x) = p \<and> sint (cnt (snd x)) < 5"

fun kept :: "nat \<Rightarrow> int \<Rightarrow> ulong list \<Rightarrow> (ptr \<times> taskInfo) list \<Rightarrow> (ptr \<times> taskInfo) list" where
  "kept hz p js [] = []"
| "kept hz p js (x # xs) =
     (if candidate p x then
        case js of
          [] \<Rightarrow> x # xs
        | j # js' \<Rightarrow> if j - timestamp (snd x) > of_nat (3 * hz) then kept hz p js' xs else x # kept hz p js' xs
      else x # kept hz p js xs)"

lemma kept_append:
  "length js = length (filter (candidate p) ds) \<Longrightarrow>
    kept hz p (js @ ks) (ds @ xs) = kept hz p js ds @ kept hz p ks xs"
  by (induction ds arbitrary: js) (auto simp: length_Suc_conv)

lemma kept_others: "candidate p x \<or> x \<notin> set xs \<or> x \<in> set (kept hz p js xs)"
  by (induction hz p js xs rule: kept.induct) (auto split: list.splits)

lemma prints_full_task_info:
  "prints_only (print_task_info K)
     (\<lambda>t. [(''[LOG] PID: %d'', [PInt (pid t)]), (''[LOG] CNT: %d'', [PInt (sint (cnt t))]),
           (''[LOG] timestamp: %lx'', [PUlong (timestamp t)])])"
  by (simp add: prints_only_def print_task_info_def Let_def log_simps)

section \<open>The functions refine the abstract list\<close>

lemma find_ok:
  assumes "list_ok xs s"
  shows "\<exists>r. task_info_find_pid p s = Some (case r of Some q \<Rightarrow> q | None \<Rightarrow> Null, s) \<and>
    first_match (\<lambda>t. pid t = p) xs r"
  using search_loop(2) [of head xs "[]" s "\<lambda>t. pid t = p"] assms
  by (auto simp: task_info_find_pid_def list_ok_def)

text \<open>The removal under way: \<open>ds\<close> is checked, with the tick counts \<open>js\<close>, and \<open>ys\<close> is to come.\<close>

definition removal :: "nat \<Rightarrow> int \<Rightarrow> kernel_list_full \<Rightarrow> (ptr \<times> taskInfo) list \<Rightarrow> (ptr \<times> taskInfo) list \<Rightarrow> ulong list
    \<Rightarrow> kernel_list_full \<Rightarrow> bool" where
  "removal hz p s0 ds ys js s \<longleftrightarrow> length js = length (filter (candidate p) ds) \<and>
     list_ok (kept hz p js ds @ ys) s \<and> jiffies_reads (klog s) = jiffies_reads (klog s0) @ js \<and>
     printed (klog s) = printed (klog s0)"

context list_h
begin

lemma add_ok:
  assumes "list_ok xs s" and "kmalloc_fresh K"
  shows "\<exists>s' ys. task_info_add_for_current L K p s = Some s' \<and> list_ok (ys @ xs) s' \<and>
    (pids ys = [p] \<and> (\<forall>x\<in>set ys. \<exists>h. cnt (snd x) = word_of_int (kret K h (Mem (Uninit (fst x) ''cnt''))) + 1) \<or>
     ys = [] \<and> \<not> kmalloc_succeeds K)"
proof (cases "kret K (klog s) (Mem (Kmalloc sizeof_taskInfo ''GFP_KERNEL'')) = 0")
  case True
  have "store_ok head xs [] (kdo K (Mem (Kmalloc sizeof_taskInfo ''GFP_KERNEL'')) s)"
    by (rule store_ok_same [of _ _ _ s]) (use assms True in \<open>simp_all add: list_ok_def log_simps\<close>)
  then show ?thesis
    using assms(1) True
    by (intro exI [of _ "[]"] exI)
      (auto simp: task_info_add_for_current_def alloc_task_info_def kcall_eq Let_def list_ok_def log_simps
        kmalloc_succeeds_def)
next
  case False
  let ?c = "Mem (Kmalloc sizeof_taskInfo ''GFP_KERNEL'')"
  let ?q = "Heap (kret K (klog s) ?c)" and ?j = "word_of_int (kret K (klog (kdo K ?c s)) (Time Jiffies)) :: ulong"
  let ?u = "Mem (Uninit ?q ''cnt'')"
  let ?s = "kdo K ?u (kdo K (Time Jiffies) (kdo K ?c s))"
  let ?n = "\<lparr>pid = p, cnt = word_of_int (kret K (klog (kdo K (Time Jiffies) (kdo K ?c s))) ?u) + 1, timestamp = ?j\<rparr>"
  have "store_ok head xs [(?q, ?n)] (new_node ?q ?n (kdo K ?c s))"
    using assms False by (intro store_ok_alloc) (auto simp: list_ok_def head_def)
  then have ok: "store_ok head xs [(?q, ?n)] (new_node ?q ?n ?s)"
    by (rule store_ok_same) (simp_all add: new_node_def log_simps)
  obtain s' where s': "init_and_add L ?q head (new_node ?q ?n ?s) = Some s'" "store_ok head ((?q, ?n) # xs) [] s'"
    "klog s' = klog (new_node ?q ?n ?s)" using store_ok_init_and_add [OF ok] by blast
  moreover have "locks (klog (new_node ?q ?n ?s)) = Some []"
    using assms(1) by (simp add: new_node_def list_ok_def log_simps)
  moreover have "task_info_add_for_current L K p s = Some s'"
    using False s'(1) by (simp add: task_info_add_for_current_def alloc_task_info_def kcall_eq Let_def)
  ultimately show ?thesis by (intro exI [of _ s'] exI [of _ "[(?q, ?n)]"]) (auto simp: list_ok_def)
qed

lemma removal_step:
  assumes "removal (HZ T) p s0 ds ((q, t) # ys) js s"
  shows "\<exists>s' js'. do {
        tsk \<leftarrow> heap s q;
        if pid tsk = p \<and> sint (cnt tsk) < 5 then
          let (j, s) = kcall K (Time Jiffies) s in
          if word_of_int j - timestamp tsk > of_nat (3 * HZ T) then do {
            s \<leftarrow> unlink_and_free L K q s;
            Some (None :: unit option, s)
          } else Some (None, s)
        else Some (None, s) } = Some (None, s') \<and> removal (HZ T) p s0 (ds @ [(q, t)]) ys js' s'"
proof -
  let ?k = "kept (HZ T) p js ds"
  have ok: "store_ok head (?k @ (q, t) # ys) [] s" and r: "length js = length (filter (candidate p) ds)"
    "locks (klog s) = Some []" "jiffies_reads (klog s) = jiffies_reads (klog s0) @ js" "printed (klog s) = printed (klog s0)"
    using assms by (simp_all add: removal_def list_ok_def)
  have q: "heap s q = Some t" by (rule store_ok_heap [OF ok])
  let ?j = "word_of_int (kret K (klog s) (Time Jiffies)) :: ulong" and ?s = "kdo K (Time Jiffies) s"
  obtain s2 where s2: "unlink_and_free L K q ?s = Some s2" "store_ok head (?k @ ys) [] s2"
    "klog s2 = klog (kdo K (Mem (Kfree q)) ?s)"
    using store_ok_unlink_and_free [of head ?k q t ys "[]" ?s] ok by auto
  consider (other) "\<not> candidate p (q, t)" | (young) "candidate p (q, t)" "\<not> ?j - timestamp t > of_nat (3 * HZ T)"
    | (old) "candidate p (q, t)" "?j - timestamp t > of_nat (3 * HZ T)" by blast
  then show ?thesis
  proof cases
    case other
    then have "removal (HZ T) p s0 (ds @ [(q, t)]) ys js s"
      using assms kept_append [OF r(1), of "HZ T" "[]" "[(q, t)]"] by (simp add: removal_def)
    then show ?thesis using other q by (intro exI [of _ s] exI [of _ js]) (auto simp: candidate_def)
  next
    case young
    then have "removal (HZ T) p s0 (ds @ [(q, t)]) ys (js @ [?j]) ?s"
      using ok r kept_append [OF r(1), of "HZ T" "[?j]" "[(q, t)]"] by (simp add: removal_def list_ok_def log_simps)
    then show ?thesis
      using young q by (intro exI [of _ ?s] exI [of _ "js @ [?j]"]) (simp add: candidate_def kcall_eq)
  next
    case old
    then have "removal (HZ T) p s0 (ds @ [(q, t)]) ys (js @ [?j]) s2"
      using s2(2) r kept_append [OF r(1), of "HZ T" "[?j]" "[(q, t)]"]
      by (simp add: removal_def list_ok_def s2(3) log_simps)
    then show ?thesis
      using old q s2(1) by (intro exI [of _ s2] exI [of _ "js @ [?j]"]) (simp add: candidate_def kcall_eq)
  qed
qed

lemma remove_expired_ok:
  assumes "list_ok xs s"
  shows "\<exists>s' js. task_info_remove_expired L K T p s = Some s' \<and> removal (HZ T) p s xs [] js s'"
proof -
  let ?body = "\<lambda>curr s. do {
        tsk \<leftarrow> heap s curr;
        if pid tsk = p \<and> sint (cnt tsk) < 5 then
          let (j, s) = kcall K (Time Jiffies) s in
          if word_of_int j - timestamp tsk > of_nat (3 * HZ T) then do {
            s \<leftarrow> unlink_and_free L K curr s;
            Some (None :: unit option, s)
          } else Some (None, s)
        else Some (None, s) }"
  let ?I = "\<lambda>ps s'. \<exists>ds ys js. xs = ds @ ys \<and> ps = map fst ys \<and> removal (HZ T) p s ds ys js s'"
  have "\<exists>r s'. list_for_each_safe links head ?body s = Some (r, s') \<and>
      (case r of Some x \<Rightarrow> False | None \<Rightarrow> ?I [] s')"
  proof (rule list_for_each_safe_rule)
    show "is_list (links s) head (map fst xs)" using assms store_ok_list [of head xs "[]" s] by (simp add: list_ok_def)
    show "?I (map fst xs) s" using assms by (intro exI [of _ "[]"] exI [of _ xs]) (simp add: removal_def)
    fix q ps s1 assume "?I (q # ps) s1"
    then obtain ds t ys js where xs: "xs = ds @ (q, t) # ys" "ps = map fst ys"
      and r: "removal (HZ T) p s ds ((q, t) # ys) js s1" by (auto simp: Cons_eq_map_conv)
    obtain s2 js2 where s2: "?body q s1 = Some (None, s2)" "removal (HZ T) p s (ds @ [(q, t)]) ys js2 s2"
      using removal_step [OF r, of K] by blast
    then have "?I ps s2" using xs by (intro exI [of _ "ds @ [(q, t)]"] exI [of _ ys] exI [of _ js2]) simp
    moreover have "\<exists>us. is_list (links s2) head (us @ ps)"
      using s2(2) xs(2) store_ok_list [of head "kept (HZ T) p js2 (ds @ [(q, t)]) @ ys" "[]" s2]
      unfolding removal_def list_ok_def by (metis map_append)
    ultimately show "\<exists>r s'. ?body q s1 = Some (r, s') \<and>
        (case r of Some x \<Rightarrow> False | None \<Rightarrow> ?I ps s' \<and> (\<exists>us. is_list (links s') head (us @ ps)))"
      using s2(1) by (intro exI [of _ None] exI [of _ s2]) simp
  qed
  then obtain r s' where f: "list_for_each_safe links head ?body s = Some (r, s')"
    "case r of Some x \<Rightarrow> False | None \<Rightarrow> ?I [] s'" by (elim exE conjE)
  then have "?I [] s'" by (cases r) auto
  then show ?thesis using f(1) by (auto simp: task_info_remove_expired_def)
qed

lemma exit_ok:
  assumes "list_ok xs s"
  shows "\<exists>s'. exit_full_kernel_list L K s = Some s' \<and> list_ok [] s' \<and>
    printed (klog s') = printed (klog s) @
      concat (map (\<lambda>(q, t). [(''[LOG] PID: %d'', [PInt (pid t)]), (''[LOG] CNT: %d'', [PInt (sint (cnt t))]),
        (''[LOG] timestamp: %lx'', [PUlong (timestamp t)])]) xs) @
      [(''[LOG] Successfully purged the linked list'', []), (''[LOG] unloading the kernel list module'', [])]"
proof -
  let ?out = "\<lambda>t. [(''[LOG] PID: %d'', [PInt (pid t)]), (''[LOG] CNT: %d'', [PInt (sint (cnt t))]),
        (''[LOG] timestamp: %lx'', [PUlong (timestamp t)])]"
  obtain s1 where s1: "print_full_list K s = Some s1" "visited head xs [] ?out s xs s1"
    using visit_loop(2) [OF prints_full_task_info [of K], of head xs "[]" s] assms
    by (auto simp: print_full_list_def list_ok_def)
  then obtain s2 where "task_info_purge_list L K s1 = Some s2" "store_ok head [] [] s2" "locks (klog s2) = locks (klog s1)"
    "printed (klog s2) = printed (klog s1)"
    using purge_loop [of head xs "[]" s1 K] by (auto simp: task_info_purge_list_def visited_def)
  moreover have "concat (map (?out \<circ> snd) xs) = concat (map (\<lambda>(q, t). ?out t) xs)"
    by (intro arg_cong [of _ _ concat] map_cong) auto
  ultimately show ?thesis
    using s1 assms by (auto simp: exit_full_kernel_list_def visited_def list_ok_def log_simps)
qed

text \<open>The list before the removal at the end of the initialisation.\<close>

lemma init_ok:
  assumes "kmalloc_fresh K"
  shows "\<exists>xs js s. init_full_kernel_list L K T kernel_list_full0 = Some (0, s) \<and>
    list_ok (kept (HZ T) (task_pid T (parent T (parent T (current T)))) js xs) s \<and>
    length js = length (filter (candidate (task_pid T (parent T (parent T (current T))))) xs) \<and>
    (\<forall>x\<in>set xs. \<exists>h. cnt (snd x) = word_of_int (kret K h (Mem (Uninit (fst x) ''cnt''))) + 1) \<and>
    (kmalloc_succeeds K \<longrightarrow> pids xs = rev (map (\<lambda>n. task_pid T ((parent T ^^ n) (current T))) [0..<4]))"
proof -
  note add = add_ok [OF _ assms]
  let ?p = "\<lambda>n. task_pid T ((parent T ^^ n) (current T))"
  let ?u = "\<lambda>ys :: (ptr \<times> taskInfo) list. \<forall>x\<in>set ys. \<exists>h. cnt (snd x) = word_of_int (kret K h (Mem (Uninit (fst x) ''cnt''))) + 1"
  obtain l where l: "INIT_LIST_HEAD L head (links kernel_list_full0) = Some l" "list_ok [] (kernel_list_full0\<lparr>links := l\<rparr>)"
    using store_ok_start [of head kernel_list_full0]
    by (auto simp: kernel_list_full0_def list_ok_def held_mem_def held_def log_simps)
  obtain s1 y1 where 1: "task_info_add_for_current L K (?p 0) (kernel_list_full0\<lparr>links := l\<rparr>) = Some s1" "list_ok (y1 @ []) s1"
    "pids y1 = [?p 0] \<and> ?u y1 \<or> y1 = [] \<and> \<not> kmalloc_succeeds K" using add [OF l(2), of "?p 0"] by (elim exE conjE) (rule that)
  obtain s2 y2 where 2: "task_info_add_for_current L K (?p 1) s1 = Some s2" "list_ok (y2 @ y1 @ []) s2"
    "pids y2 = [?p 1] \<and> ?u y2 \<or> y2 = [] \<and> \<not> kmalloc_succeeds K" using add [OF 1(2), of "?p 1"] by (elim exE conjE) (rule that)
  obtain s3 y3 where 3: "task_info_add_for_current L K (?p 2) s2 = Some s3" "list_ok (y3 @ y2 @ y1 @ []) s3"
    "pids y3 = [?p 2] \<and> ?u y3 \<or> y3 = [] \<and> \<not> kmalloc_succeeds K" using add [OF 2(2), of "?p 2"] by (elim exE conjE) (rule that)
  obtain s4 y4 where 4: "task_info_add_for_current L K (?p 3) s3 = Some s4" "list_ok (y4 @ y3 @ y2 @ y1 @ []) s4"
    "pids y4 = [?p 3] \<and> ?u y4 \<or> y4 = [] \<and> \<not> kmalloc_succeeds K" using add [OF 3(2), of "?p 3"] by (elim exE conjE) (rule that)
  define xs where "xs = y4 @ y3 @ y2 @ y1"
  have u: "?u xs" using 1(3) 2(3) 3(3) 4(3) unfolding xs_def by auto
  have pids: "kmalloc_succeeds K \<longrightarrow> pids xs = rev (map ?p [0..<4])"
  proof
    assume "kmalloc_succeeds K"
    then have "pids y1 = [?p 0]" "pids y2 = [?p 1]" "pids y3 = [?p 2]" "pids y4 = [?p 3]"
      using 1(3) 2(3) 3(3) 4(3) by blast+
    then show "pids xs = rev (map ?p [0..<4])" unfolding xs_def map_append by (simp add: upt_rec numeral_eq_Suc)
  qed
  let ?s5 = "kdo K (Print (Pr_info ''[LOG] Succesffuly added the task info into the linked list'' [])) s4"
  have ok: "list_ok xs s4" using 4(2) by (simp add: xs_def)
  then have "list_ok xs ?s5" by (simp add: list_ok_def log_simps)
  then obtain s6 js where s6: "task_info_remove_expired L K T (?p 2) ?s5 = Some s6" "removal (HZ T) (?p 2) ?s5 xs [] js s6"
    using remove_expired_ok by blast
  obtain r where "task_info_find_pid (?p 1) s4 = Some (r, s4)" using find_ok [OF ok] by blast
  then have "init_full_kernel_list L K T kernel_list_full0 = Some (0, s6)"
    using l(1) 1(1) 2(1) 3(1) 4(1) s6(1) by (simp add: init_full_kernel_list_def numeral_eq_Suc)
  moreover have "?p 2 = task_pid T (parent T (parent T (current T)))" by (simp add: numeral_2_eq_2)
  ultimately show ?thesis using s6(2) u pids unfolding removal_def by auto
qed

end

section \<open>Properties\<close>

text \<open>
  C34: Removing the expired entries of a process: entries of other processes and entries with a counter of at
  least 5 stay, unchanged and in order, and their age is not even looked at; of the others exactly those older
  than \<open>3 * HZ\<close> ticks are unlinked and freed.
\<close>

theorem list_full_remove_expired_refines:
  assumes "list_h L" and "list_ok xs s"
  shows "\<exists>s' js. task_info_remove_expired L K T p s = Some s' \<and> list_ok (kept (HZ T) p js xs) s' \<and>
    length js = length (filter (candidate p) xs) \<and> jiffies_reads (klog s') = jiffies_reads (klog s) @ js \<and>
    mset (held_mem (klog s')) = mset (map (RMem \<circ> fst) (kept (HZ T) p js xs))"
  using list_h.remove_expired_ok [OF assms, of K T p] by (auto simp: removal_def list_ok_def store_ok_def)

definition one_entry :: "(ptr \<times> taskInfo) list" where
  "one_entry = [(Heap 1, \<lparr>pid = 9, cnt = 1, timestamp = 0\<rparr>)]"

definition one_list :: kernel_list_full where
  "one_list = \<lparr>klog = [(Mem (Kmalloc 32 ''GFP_KERNEL''), 1)],
     links = [head \<mapsto> \<lparr>lnext = Heap 1, lprev = Heap 1\<rparr>, Heap 1 \<mapsto> \<lparr>lnext = head, lprev = head\<rparr>],
     heap = map_of one_entry\<rparr>"

definition hz_tasks :: tasks where
  "hz_tasks = \<lparr>current = Heap 30, parent = (\<lambda>p. p), next_task = (\<lambda>p. p), task_pid = (\<lambda>p. 9), HZ = 250\<rparr>"

lemma one_list_ok: "list_ok one_entry one_list"
  by (simp add: list_ok_def store_ok_def one_list_def one_entry_def is_list_def linked_def nx_def pv_def
      head_def held_mem_def held_def acct_def acct_step_def locks_def log_simps)

theorem list_full_remove_expired_refines_witness:
  "\<exists>s' j. task_info_remove_expired dll bump_kernel hz_tasks 9 one_list = Some s' \<and>
    list_ok (kept 250 9 [j] one_entry) s'"
proof -
  have "length js = length (filter (candidate 9) one_entry) \<longleftrightarrow> (\<exists>j. js = [j])" for js :: "ulong list"
    by (simp add: one_entry_def candidate_def length_Suc_conv)
  then show ?thesis
    using list_full_remove_expired_refines [OF header.list_h_axioms one_list_ok, of bump_kernel hz_tasks 9]
    by (auto simp: hz_tasks_def)
qed

text \<open>
  The lookup returns the first entry of the process, or NULL exactly when it has none, and changes nothing.
\<close>

theorem list_full_find_first:
  assumes "list_ok xs s"
  shows "\<exists>r. task_info_find_pid p s = Some (r, s) \<and>
    (r = Null \<longleftrightarrow> p \<notin> set (pids xs)) \<and>
    (r \<noteq> Null \<longrightarrow> (\<exists>ys t us. xs = ys @ (r, t) # us \<and> pid t = p \<and> p \<notin> set (pids ys)))"
proof -
  obtain r where r: "task_info_find_pid p s = Some (case r of Some q \<Rightarrow> q | None \<Rightarrow> Null, s)"
    "first_match (\<lambda>t. pid t = p) xs r" using find_ok [OF assms] by blast
  have "Null \<notin> set (map fst xs)" using assms by (simp add: list_ok_def store_ok_def)
  with r show ?thesis by (cases r) (force simp: first_match_def)+
qed

theorem list_full_find_first_witness:
  "\<exists>r. task_info_find_pid 9 one_list = Some (r, one_list) \<and> r \<noteq> Null"
  using list_full_find_first [OF one_list_ok, of 9] by (auto simp: one_entry_def)

text \<open>
  The counter of a new entry is not 1 but one more than what the memory happened to hold: where that was
  \<open>g\<close>, every entry of the freshly loaded module has counter \<open>g + 1\<close>, so that for instance for \<open>g = 4\<close> no entry
  can ever expire.
\<close>

theorem list_full_counter_uninitialised:
  assumes "list_h L" and "kmalloc_fresh K" and "kmalloc_succeeds K"
    and "\<And>h q. kret K h (Mem (Uninit q ''cnt'')) = g" and "sint (word_of_int g + 1 :: u32) \<ge> 5"
  shows "\<exists>s xs. init_full_kernel_list L K T kernel_list_full0 = Some (0, s) \<and> list_ok xs s \<and> length xs = 4 \<and>
    (\<forall>x\<in>set xs. cnt (snd x) = word_of_int g + 1 \<and> \<not> candidate p x)"
proof -
  let ?g = "task_pid T (parent T (parent T (current T)))"
  obtain xs js s where s: "init_full_kernel_list L K T kernel_list_full0 = Some (0, s)" "list_ok (kept (HZ T) ?g js xs) s"
    "length js = length (filter (candidate ?g) xs)" "\<forall>x\<in>set xs. cnt (snd x) = word_of_int g + 1"
    "pids xs = rev (map (\<lambda>n. task_pid T ((parent T ^^ n) (current T))) [0..<4])"
    using list_h.init_ok [OF assms(1,2), of T] assms(3,4) by auto
  have c: "\<not> candidate q x" if "x \<in> set xs" for q x using s(4) that assms(5) by (simp add: candidate_def)
  then have "kept (HZ T) ?g js' xs = xs" for js' by (induction xs) auto
  moreover have "length xs = 4" using arg_cong [OF s(5), of length] by simp
  ultimately show ?thesis using s(1,2,4) c by auto
qed

definition stale_kernel :: kernel where
  "stale_kernel = bump_kernel\<lparr>kret := (\<lambda>h c. case c of Mem (Uninit q f) \<Rightarrow> 4 | _ \<Rightarrow> bump_ret h c)\<rparr>"

lemma stale_kernel_malloc: "kmalloc_fresh stale_kernel" "kmalloc_succeeds stale_kernel"
  using bump_kmalloc_fresh bump_kmalloc_succeeds
  by (simp_all add: stale_kernel_def kmalloc_fresh_def kmalloc_succeeds_def)

theorem list_full_counter_uninitialised_witness:
  "\<exists>s xs. init_full_kernel_list dll stale_kernel hz_tasks kernel_list_full0 = Some (0, s) \<and> list_ok xs s \<and>
    length xs = 4 \<and> (\<forall>x\<in>set xs. cnt (snd x) = 5)"
proof -
  have g: "kret stale_kernel h (Mem (Uninit q ''cnt'')) = 4" for h q by (simp add: stale_kernel_def)
  have "5 \<le> sint (word_of_int 4 + 1 :: u32)" by simp
  from list_full_counter_uninitialised [OF header.list_h_axioms stale_kernel_malloc g this, of hz_tasks 0]
  show ?thesis by auto
qed

text \<open>
  Loading and unloading \<open>list-full.c\<close> returns 0, never faults and leaves no memory behind, whatever the
  allocator, the clock and the memory contents are.
\<close>

theorem list_full_load_unload:
  assumes "list_h L" and "kmalloc_fresh K"
  shows "\<exists>s s'. init_full_kernel_list L K T kernel_list_full0 = Some (0, s) \<and>
    exit_full_kernel_list L K s = Some s' \<and> held_mem (klog s') = []"
proof -
  obtain s xs where s: "init_full_kernel_list L K T kernel_list_full0 = Some (0, s)" "list_ok xs s"
    using list_h.init_ok [OF assms, of T] by blast
  then show ?thesis
    using list_h.exit_ok [OF assms(1) s(2), of K] by (auto simp: list_ok_def store_ok_def)
qed

theorem list_full_load_unload_witness:
  "\<exists>s s'. init_full_kernel_list dll stale_kernel hz_tasks kernel_list_full0 = Some (0, s) \<and>
    exit_full_kernel_list dll stale_kernel s = Some s' \<and> held_mem (klog s') = []"
  by (rule list_full_load_unload [OF header.list_h_axioms stale_kernel_malloc(1)])

end
