(* ===== verification/So2_cdev.thy ===== *)
theory So2_cdev
  imports Kernel
begin

text \<open>
  The message device, \<open>Drivers/so2_cdev/kernel/so2_cdev.c\<close>: a character device that holds one message and
  admits one open file at a time. The state is the array \<open>devices\<close> and the call log. Definitions in the order of
  the file, then the invariant of the message buffer, the system of all file operations, and the properties.
\<close>

section \<open>Definitions\<close>

definition SO2_MAJOR_NUMBER :: nat where "SO2_MAJOR_NUMBER = 42"
definition SO2_MINOR_NUMBER :: nat where "SO2_MINOR_NUMBER = 0"
definition SO2_NUM_MINORS :: nat where "SO2_NUM_MINORS = 1"
definition SO2_MODULE_NAME :: string where "SO2_MODULE_NAME = ''so2_cdev''"
definition SO2_MESSAGE :: string where "SO2_MESSAGE = ''the dog is matt''"
definition MSG_MAX :: nat where "MSG_MAX = 128"

lemmas so2_consts = SO2_MAJOR_NUMBER_def SO2_MINOR_NUMBER_def SO2_NUM_MINORS_def SO2_MODULE_NAME_def
  SO2_MESSAGE_def MSG_MAX_def

record so2_device_data =
  isOpen :: int
  msg :: "byte list"
  msg_len :: size_t

record so2_module = kstate +
  devices :: "so2_device_data list"

definition so2_dev_addr :: "nat \<Rightarrow> ptr" where "so2_dev_addr i = Static ''so2_cdev.devices'' i ''''"

definition so2_module0 :: so2_module where
  "so2_module0 = \<lparr>klog = [], devices = replicate SO2_NUM_MINORS
     \<lparr>isOpen = 0, msg = replicate MSG_MAX 0, msg_len = 0\<rparr>\<rparr>"

text \<open>The device a pointer designates; \<open>cdev\<close> is the first member, so \<open>container_of\<close> keeps the address.\<close>

definition so2_dev_index :: "ptr \<Rightarrow> so2_module \<Rightarrow> nat option" where
  "so2_dev_index p s =
     (case p of
        Static v i m \<Rightarrow> if v = ''so2_cdev.devices'' \<and> m = '''' \<and> i < length (devices s) then Some i else None
      | _ \<Rightarrow> None)"

definition set_device :: "nat \<Rightarrow> so2_device_data \<Rightarrow> so2_module \<Rightarrow> so2_module" where
  "set_device i d s = s\<lparr>devices := (devices s)[i := d]\<rparr>"

definition so2_open ::
    "kernel \<Rightarrow> inode \<Rightarrow> kfile \<Rightarrow> so2_module \<Rightarrow> (int \<times> kfile \<times> so2_module) option" where
  "so2_open K inode file s = do {
     let s = kdo K (Print (Pr_info ''%s method 'open' was called!'' [PStr SO2_MODULE_NAME])) s;
     i \<leftarrow> so2_dev_index (i_cdev inode) s;
     let d = devices s ! i;
     let file = file\<lparr>private_data := i_cdev inode\<rparr>;
     if isOpen d \<noteq> 0 then Some (- EBUSY, file, s)
     else Some (0, file, set_device i (d\<lparr>isOpen := 1\<rparr>) s)
   }"

text \<open>\<open>strlen\<close> of an array: running past its end is undefined behaviour.\<close>

definition strlen :: "byte list \<Rightarrow> size_t option" where
  "strlen bs = (if 0 \<in> set bs then Some (of_nat (length (takeWhile (\<lambda>b. b \<noteq> 0) bs))) else None)"

text \<open>
  \<open>so2_read\<close>; the file position is an argument and a result. The comparison of the signed position with the
  unsigned length is done unsigned. The test of \<open>data\<close> comes after its first use, so that a null pointer is an
  oops and the branch is never taken. A copy out of bytes that are not all inside the array \<open>msg\<close> is undefined
  behaviour, \<open>None\<close>.
\<close>

definition so2_read :: "kernel \<Rightarrow> kfile \<Rightarrow> ptr \<Rightarrow> size_t \<Rightarrow> 64 word \<Rightarrow> so2_module
    \<Rightarrow> (int \<times> 64 word \<times> so2_module) option" where
  "so2_read K file uBuff sz offset s = do {
     let s = kdo K (Print (Pr_info ''%s method 'read' was called!'' [PStr SO2_MODULE_NAME])) s;
     let data = private_data file;
     i \<leftarrow> so2_dev_index data s;
     let buf = msg (devices s ! i);
     lenOfStr \<leftarrow> strlen buf;
     if data = Null then Some (- EINVAL, offset, s)
     else if offset \<ge> lenOfStr then Some (0, offset, s)
     else
       let available = lenOfStr - offset;
           n = (if sz < available then sz else available) in
       if length buf < unat offset + unat n then None
       else
         let (r, s) = kcall K (Mem (Copy_to_user uBuff (take (unat n) (drop (unat offset) buf)))) s in
         if r \<noteq> 0 then Some (- EFAULT, offset, s)
         else Some (sint sz, offset + n, s)
   }"

text \<open>
  \<open>so2_write\<close>. A failing \<open>copy_from_user\<close> has stored into the buffer all the same. A copy or a store that is
  not inside the array \<open>msg\<close> is undefined behaviour, \<open>None\<close>.
\<close>

definition so2_write :: "kernel \<Rightarrow> kfile \<Rightarrow> ptr \<Rightarrow> size_t \<Rightarrow> 64 word \<Rightarrow> so2_module
    \<Rightarrow> (int \<times> 64 word \<times> so2_module) option" where
  "so2_write K file uBuff sz offset s = do {
     let s = kdo K (Print (Pr_info ''%s method 'write' was called!'' [PStr SO2_MODULE_NAME])) s;
     i \<leftarrow> so2_dev_index (private_data file) s;
     let d = devices s ! i;
     let n = (if sz < of_nat (MSG_MAX - 1) then sz else of_nat (MSG_MAX - 1));
     if length (msg d) < unat n then None
     else
       let c = Mem (Copy_from_user uBuff (unat n));
           bytes = kbytes K (klog s) c;
           (r, s) = kcall K c s;
           d = d\<lparr>msg := take (unat n) bytes @ drop (unat n) (msg d)\<rparr> in
       if r \<noteq> 0 then Some (- EFAULT, offset, set_device i d s)
       else if length (msg d) \<le> unat n then None
       else Some (sint sz, 0, set_device i (d\<lparr>msg := (msg d)[unat n := 0], msg_len := n\<rparr>) s)
   }"

definition so2_release :: "kernel \<Rightarrow> inode \<Rightarrow> kfile \<Rightarrow> so2_module \<Rightarrow> (int \<times> so2_module) option" where
  "so2_release K inode file s = do {
     let s = kdo K (Print (Pr_info ''%s method 'close' was called!'' [PStr SO2_MODULE_NAME])) s;
     i \<leftarrow> so2_dev_index (private_data file) s;
     Some (0, set_device i ((devices s ! i)\<lparr>isOpen := 0\<rparr>) s)
   }"

text \<open>\<open>strscpy\<close> of a string that fits, with its terminator.\<close>

definition strscpy :: "byte list \<Rightarrow> string \<Rightarrow> byte list" where
  "strscpy dst str = map of_char str @ 0 # drop (length str + 1) dst"

definition so2_cdev_init :: "kernel \<Rightarrow> so2_module \<Rightarrow> int \<times> so2_module" where
  "so2_cdev_init K s =
     (let (result, s) = kcall K (Chrdev (Register_chrdev_region
            (MKDEV SO2_MAJOR_NUMBER SO2_MINOR_NUMBER) SO2_NUM_MINORS SO2_MODULE_NAME)) s in
      if result \<noteq> 0 then
        (result, kdo K (Print (Pr_debug ''[ERROR] failed to register device in chrdev region'' [])) s)
      else
        let s = fold (\<lambda>i s.
              let s = kdo K (Chrdev (Cdev_init (so2_dev_addr i) ''so2_fops'')) s;
                  s = kdo K (Chrdev (Cdev_add (so2_dev_addr i) (MKDEV SO2_MAJOR_NUMBER i) 1)) s;
                  d = devices s ! i
              in set_device i (d\<lparr>msg := strscpy (msg d) SO2_MESSAGE\<rparr>) s) [0..<SO2_NUM_MINORS] s
        in (0, kdo K (Print (Pr_info ''[LOG] registered %s char device in memory success'' [PStr SO2_MODULE_NAME])) s))"

definition so2_cdev_exit :: "kernel \<Rightarrow> so2_module \<Rightarrow> so2_module" where
  "so2_cdev_exit K s =
     (let s = kdo K (Print (Pr_info ''[LOG] Unregistered %s from kernel space'' [PStr SO2_MODULE_NAME])) s;
          s = fold (\<lambda>i. kdo K (Chrdev (Cdev_del (so2_dev_addr i)))) [0..<SO2_NUM_MINORS] s
      in kdo K (Chrdev (Unregister_chrdev_region (MKDEV SO2_MAJOR_NUMBER SO2_MINOR_NUMBER) SO2_NUM_MINORS)) s)"

section \<open>The message buffer\<close>

text \<open>The buffer keeps its size and its last byte is always a terminator, so that \<open>strlen\<close> ends inside it.\<close>

definition dev_ok :: "so2_device_data \<Rightarrow> bool" where
  "dev_ok d \<longleftrightarrow> length (msg d) = MSG_MAX \<and> msg d ! (MSG_MAX - 1) = 0"

definition so2_ok :: "so2_module \<Rightarrow> bool" where
  "so2_ok s \<longleftrightarrow> (\<forall>d\<in>set (devices s). dev_ok d)"

text \<open>The message as a C string.\<close>

definition message :: "so2_device_data \<Rightarrow> byte list" where
  "message d = takeWhile (\<lambda>b. b \<noteq> 0) (msg d)"

lemma kdo_devices [simp]: "devices (kdo K c s) = devices s"
  by (simp add: kdo_eq)

lemma set_device_sel [simp]:
  "devices (set_device i d s) = (devices s)[i := d]" "klog (set_device i d s) = klog s"
  by (simp_all add: set_device_def)

lemma so2_dev_index_kdo [simp]: "so2_dev_index p (kdo K c s) = so2_dev_index p s"
  by (simp add: so2_dev_index_def split: ptr.split)

lemma so2_dev_index_set [simp]: "so2_dev_index p (set_device i d s) = so2_dev_index p s"
  by (simp add: so2_dev_index_def split: ptr.split)

lemma so2_dev_index_Some: "so2_dev_index p s = Some i \<Longrightarrow> i < length (devices s) \<and> p = so2_dev_addr i"
  by (auto simp: so2_dev_index_def so2_dev_addr_def split: ptr.splits if_splits)

lemma so2_ok_nth: "so2_ok s \<Longrightarrow> so2_dev_index p s = Some i \<Longrightarrow> dev_ok (devices s ! i)"
  by (auto simp: so2_ok_def dest: so2_dev_index_Some)

lemma so2_ok_kdo [simp]: "so2_ok (kdo K c s) = so2_ok s"
  by (simp add: so2_ok_def)

lemma so2_ok_set: "so2_ok s \<Longrightarrow> dev_ok d \<Longrightarrow> so2_ok (set_device i d s)"
  by (auto simp: so2_ok_def dest: set_update_subset_insert [THEN subsetD])

lemma dev_ok_strlen:
  assumes "dev_ok d"
  shows "strlen (msg d) = Some (of_nat (length (message d)))" "length (message d) < MSG_MAX"
proof -
  have "0 \<in> set (msg d)" using assms by (force simp: dev_ok_def MSG_MAX_def in_set_conv_nth)
  moreover have "length (message d) \<noteq> MSG_MAX"
  proof
    assume "length (message d) = MSG_MAX"
    then have "message d = take MSG_MAX (msg d)"
      unfolding message_def using takeWhile_eq_take [of "\<lambda>b. b \<noteq> 0" "msg d"] by simp
    then have "message d = msg d" using assms by (simp add: dev_ok_def)
    then show False using \<open>0 \<in> set (msg d)\<close> by (metis message_def set_takeWhileD)
  qed
  moreover have "length (message d) \<le> MSG_MAX"
    using assms length_takeWhile_le [of _ "msg d"] by (simp add: message_def dev_ok_def)
  ultimately show "strlen (msg d) = Some (of_nat (length (message d)))" "length (message d) < MSG_MAX"
    by (simp_all add: strlen_def message_def)
qed

lemma unat_len: "n < MSG_MAX \<Longrightarrow> unat (of_nat n :: size_t) = n"
  by (simp add: MSG_MAX_def unat_of_nat take_bit_nat_eq_self)

text \<open>How many bytes a write stores.\<close>

definition stored :: "size_t \<Rightarrow> nat" where
  "stored sz = min (unat sz) (MSG_MAX - 1)"

lemma unat_stored: "unat (if sz < of_nat (MSG_MAX - 1) then sz else of_nat (MSG_MAX - 1)) = stored sz"
  by (simp add: stored_def MSG_MAX_def word_less_nat_alt)

lemma stored_less: "stored sz < MSG_MAX"
  by (simp add: stored_def MSG_MAX_def)

lemma dev_ok_partial:
  assumes "dev_ok d" and "n < MSG_MAX" and "length bs = n"
  shows "dev_ok (d\<lparr>msg := bs @ drop n (msg d)\<rparr>)"
  using assms by (auto simp: dev_ok_def nth_append MSG_MAX_def)

section \<open>What each operation does\<close>

text \<open>The bytes a read of \<open>sz\<close> bytes at \<open>offset\<close> finds.\<close>

definition readable :: "so2_device_data \<Rightarrow> size_t \<Rightarrow> 64 word \<Rightarrow> byte list" where
  "readable d sz offset = take (unat sz) (drop (unat offset) (message d))"

lemma msg_message: "msg d = message d @ dropWhile (\<lambda>b. b \<noteq> 0) (msg d)"
  by (simp add: message_def)

lemma take_drop_message:
  "k + n \<le> length (message d) \<Longrightarrow> take n (drop k (msg d)) = take n (drop k (message d))"
  by (subst msg_message) simp

lemma so2_read_in_range:
  assumes ok: "dev_ok (devices s ! i)" and i: "so2_dev_index (private_data f) s = Some i"
    and off: "unat offset < length (message (devices s ! i))"
    and bs: "bs = readable (devices s ! i) sz offset"
    and s1: "s1 = kdo K (Print (Pr_info ''%s method 'read' was called!'' [PStr SO2_MODULE_NAME])) s"
  shows "so2_read K f ub sz offset s =
    Some (if kret K (klog s1) (Mem (Copy_to_user ub bs)) \<noteq> 0
          then (- EFAULT, offset, kdo K (Mem (Copy_to_user ub bs)) s1)
          else (sint sz, offset + of_nat (length bs), kdo K (Mem (Copy_to_user ub bs)) s1))"
proof -
  let ?d = "devices s ! i"
  let ?len = "of_nat (length (message ?d)) :: size_t"
  have len: "unat ?len = length (message ?d)" by (rule unat_len [OF dev_ok_strlen(2) [OF ok]])
  have lt: "offset < ?len" using off len by (simp add: word_less_nat_alt)
  then have sub: "unat (?len - offset) = length (message ?d) - unat offset"
    using len by (simp add: unat_sub)
  have nl: "unat (if sz < ?len - offset then sz else ?len - offset) = length bs"
    by (simp add: word_less_nat_alt sub bs readable_def)
  have tk: "take (length bs) (drop (unat offset) (msg ?d)) = bs"
    by (subst take_drop_message) (use off in \<open>auto simp: bs readable_def min_def\<close>)
  have nz: "private_data f \<noteq> Null" using i by (auto simp: so2_dev_index_def)
  have fits: "\<not> length (msg ?d) < unat offset + length bs"
    using off dev_ok_strlen(2) [OF ok] ok by (simp add: bs readable_def dev_ok_def)
  have "length bs < MSG_MAX" using dev_ok_strlen(2) [OF ok] by (simp add: bs readable_def)
  then have "(if sz < ?len - offset then sz else ?len - offset) = of_nat (length bs)"
    using nl unat_len by (simp add: word_unat_eq_iff)
  then show ?thesis
    using i lt nz tk nl dev_ok_strlen(1) [OF ok] fits
    by (simp add: so2_read_def kcall_eq Let_def s1 flip: not_less)
qed

lemma so2_read_at_end:
  assumes "dev_ok (devices s ! i)" and "so2_dev_index (private_data f) s = Some i"
    and "length (message (devices s ! i)) \<le> unat offset"
  shows "so2_read K f ub sz offset s =
    Some (0, offset, kdo K (Print (Pr_info ''%s method 'read' was called!'' [PStr SO2_MODULE_NAME])) s)"
proof -
  have "of_nat (length (message (devices s ! i))) \<le> offset"
    using assms(3) unat_len [OF dev_ok_strlen(2) [OF assms(1)]] by (simp add: word_le_nat_alt)
  moreover have "private_data f \<noteq> Null" using assms(2) by (auto simp: so2_dev_index_def)
  ultimately show ?thesis
    using assms(2) dev_ok_strlen(1) [OF assms(1)] by (simp add: so2_read_def Let_def)
qed

lemma so2_read_keeps:
  assumes "so2_ok s" and "so2_dev_index (private_data f) s = Some i"
  shows "\<exists>r off s'. so2_read K f ub sz offset s = Some (r, off, s') \<and> devices s' = devices s \<and>
    (\<forall>p bs v. (Mem (Copy_to_user p bs), v) \<in> set (drop (length (klog s)) (klog s')) \<longrightarrow>
      p = ub \<and> bs = readable (devices s ! i) sz offset)"
  using so2_read_in_range [OF so2_ok_nth [OF assms] assms(2) _ refl refl, of offset K ub sz]
    so2_read_at_end [OF so2_ok_nth [OF assms] assms(2), of offset K ub sz]
  by (cases "unat offset < length (message (devices s ! i))") (auto simp: kdo_klog)

text \<open>A write, in the terms of \<open>stored\<close>.\<close>

lemma so2_write_eq:
  assumes i: "so2_dev_index (private_data f) s = Some i" and ok: "dev_ok (devices s ! i)"
    and s1: "s1 = kdo K (Print (Pr_info ''%s method 'write' was called!'' [PStr SO2_MODULE_NAME])) s"
    and bs: "bs = kbytes K (klog s1) (Mem (Copy_from_user ub (stored sz)))" and len: "length bs = stored sz"
    and d: "d = (devices s ! i)\<lparr>msg := bs @ drop (stored sz) (msg (devices s ! i))\<rparr>"
  shows "so2_write K f ub sz offset s =
    Some (if kret K (klog s1) (Mem (Copy_from_user ub (stored sz))) \<noteq> 0
      then (- EFAULT, offset, set_device i d (kdo K (Mem (Copy_from_user ub (stored sz))) s1))
      else (sint sz, 0, set_device i (d\<lparr>msg := (msg d)[stored sz := 0], msg_len := of_nat (stored sz)\<rparr>)
        (kdo K (Mem (Copy_from_user ub (stored sz))) s1)))"
proof -
  let ?n = "if sz < of_nat (MSG_MAX - 1) then sz else of_nat (MSG_MAX - 1) :: size_t"
  have n: "?n = of_nat (stored sz)" using unat_stored [of sz] unat_len [OF stored_less] by (simp add: word_unat_eq_iff)
  have "stored sz < length (msg (devices s ! i))" using ok stored_less by (simp add: dev_ok_def)
  then show ?thesis
    using i len unat_stored [of sz] unfolding so2_write_def n [symmetric] d bs s1
    by (simp add: kcall_eq Let_def)
qed

lemma so2_write_keeps:
  assumes "so2_ok s" and "so2_dev_index (private_data f) s = Some i" and "copy_from_user_fills K"
  shows "\<exists>r off s' d. so2_write K f ub sz offset s = Some (r, off, s') \<and> devices s' = (devices s)[i := d] \<and>
    dev_ok d \<and> isOpen d = isOpen (devices s ! i)"
proof -
  let ?s1 = "kdo K (Print (Pr_info ''%s method 'write' was called!'' [PStr SO2_MODULE_NAME])) s"
  let ?bs = "kbytes K (klog ?s1) (Mem (Copy_from_user ub (stored sz)))"
  let ?d = "(devices s ! i)\<lparr>msg := ?bs @ drop (stored sz) (msg (devices s ! i))\<rparr>"
  have len: "length ?bs = stored sz" using assms(3) by (simp add: copy_from_user_fills_def)
  have ok: "dev_ok ?d" by (rule dev_ok_partial [OF so2_ok_nth [OF assms(1,2)] stored_less len])
  then have "dev_ok (?d\<lparr>msg := (msg ?d)[stored sz := 0], msg_len := x\<rparr>)" for x
    using stored_less [of sz] by (auto simp: dev_ok_def nth_list_update MSG_MAX_def)
  then show ?thesis
    using ok so2_write_eq [OF assms(2) so2_ok_nth [OF assms(1,2)] refl refl len refl, of offset] by (cases "kret K (klog ?s1) (Mem (Copy_from_user ub (stored sz))) = 0") auto
qed

lemma so2_open_eq:
  assumes "so2_dev_index (i_cdev ino) s = Some i"
    and "s1 = kdo K (Print (Pr_info ''%s method 'open' was called!'' [PStr SO2_MODULE_NAME])) s"
  shows "so2_open K ino f s = Some (if isOpen (devices s ! i) \<noteq> 0 then (- EBUSY, f\<lparr>private_data := i_cdev ino\<rparr>, s1)
    else (0, f\<lparr>private_data := i_cdev ino\<rparr>, set_device i ((devices s ! i)\<lparr>isOpen := 1\<rparr>) s1))"
  using assms by (simp add: so2_open_def Let_def)

lemma so2_init_ok:
  assumes "so2_cdev_init K so2_module0 = (0, s)"
  shows "so2_ok s" "\<forall>d\<in>set (devices s). isOpen d = 0" "length (devices s) = SO2_NUM_MINORS"
proof -
  let ?d = "\<lparr>isOpen = 0, msg = strscpy (replicate MSG_MAX 0) SO2_MESSAGE, msg_len = 0\<rparr>"
  have "devices s = [?d]"
    using assms
    by (auto simp: so2_cdev_init_def so2_module0_def SO2_NUM_MINORS_def kcall_eq Let_def split: if_splits)
  moreover have "dev_ok ?d"
    by (simp add: dev_ok_def strscpy_def SO2_MESSAGE_def MSG_MAX_def nth_append)
  ultimately show "so2_ok s" "\<forall>d\<in>set (devices s). isOpen d = 0" "length (devices s) = SO2_NUM_MINORS"
    by (simp_all add: so2_ok_def SO2_NUM_MINORS_def)
qed

section \<open>All file operations together\<close>

text \<open>
  The state is the list of the files that are open (their \<open>private_data\<close>) and the module. Reads, writes and the
  release come from open files only; a file whose opening failed is not open.
\<close>

type_synonym so2_system = "ptr list \<times> so2_module"

inductive so2_step :: "kernel \<Rightarrow> so2_system \<Rightarrow> so2_system \<Rightarrow> bool" for K where
  opened: "so2_open K ino f s = Some (r, f', s') \<Longrightarrow> r = 0 \<Longrightarrow> so2_step K (ps, s) (private_data f' # ps, s')"
| refused: "so2_open K ino f s = Some (r, f', s') \<Longrightarrow> r \<noteq> 0 \<Longrightarrow> so2_step K (ps, s) (ps, s')"
| reading: "private_data f \<in> set ps \<Longrightarrow> so2_read K f ub sz off s = Some (r, off', s') \<Longrightarrow> so2_step K (ps, s) (ps, s')"
| writing: "private_data f \<in> set ps \<Longrightarrow> so2_write K f ub sz off s = Some (r, off', s') \<Longrightarrow> so2_step K (ps, s) (ps, s')"
| closing: "private_data f \<in> set ps \<Longrightarrow> so2_release K ino f s = Some (r, s') \<Longrightarrow>
    so2_step K (ps, s) (remove1 (private_data f) ps, s')"

inductive so2_reach :: "kernel \<Rightarrow> so2_system \<Rightarrow> bool" for K where
  loaded: "so2_cdev_init K so2_module0 = (0, s) \<Longrightarrow> so2_reach K ([], s)"
| step: "so2_reach K x \<Longrightarrow> so2_step K x y \<Longrightarrow> so2_reach K y"

inductive_cases so2_stepE: "so2_step K x y"

text \<open>The open flag of a device says whether some open file refers to it, and none is open twice.\<close>

definition opens_ok :: "so2_system \<Rightarrow> bool" where
  "opens_ok x \<longleftrightarrow> so2_ok (snd x) \<and> distinct (fst x) \<and>
     (\<forall>p\<in>set (fst x). \<exists>i. so2_dev_index p (snd x) = Some i) \<and>
     (\<forall>i<length (devices (snd x)). isOpen (devices (snd x) ! i) = (if so2_dev_addr i \<in> set (fst x) then 1 else 0))"

lemma so2_dev_addr_inj [simp]: "so2_dev_addr i = so2_dev_addr k \<longleftrightarrow> i = k"
  by (simp add: so2_dev_addr_def)

lemma so2_dev_index_same: "length (devices s') = length (devices s) \<Longrightarrow> so2_dev_index p s' = so2_dev_index p s"
  by (simp add: so2_dev_index_def split: ptr.split)

lemma opens_ok_same:
  assumes "opens_ok (ps, s)" and "devices s' = (devices s)[i := d]" and "dev_ok d"
    and "isOpen d = isOpen (devices s ! i)"
  shows "opens_ok (ps, s')"
proof -
  have "so2_ok s'" using assms so2_ok_set [of s d i] by (simp add: opens_ok_def so2_ok_def)
  moreover have "isOpen ((devices s)[i := d] ! k) = isOpen (devices s ! k)" for k
    using assms(4) by (cases "k = i \<and> i < length (devices s)") (auto simp: nth_list_update list_update_beyond)
  ultimately show ?thesis
    using assms so2_dev_index_same [of s' s] by (simp add: opens_ok_def)
qed

lemma so2_step_ok:
  assumes "so2_step K x y" and x: "opens_ok x" and K: "copy_from_user_fills K"
  shows "opens_ok y"
  using assms(1)
proof cases
  case (opened ino f s r f' s' ps)
  have ok: "opens_ok (ps, s)" using x opened by simp
  obtain i where i: "so2_dev_index (i_cdev ino) s = Some i"
    using opened by (auto simp: so2_open_def Let_def bind_Some_conv)
  note p = so2_dev_index_Some [OF i]
  have new: "isOpen (devices s ! i) = 0" "devices s' = (devices s)[i := (devices s ! i)\<lparr>isOpen := 1\<rparr>]"
    "private_data f' = so2_dev_addr i"
    using opened(3,4) p so2_open_eq [OF i refl, of K f] by (simp_all add: EBUSY_def split: if_splits) auto
  have "dev_ok ((devices s ! i)\<lparr>isOpen := 1\<rparr>)" using so2_ok_nth [OF _ i] ok by (simp add: opens_ok_def dev_ok_def)
  then have "so2_ok (set_device i ((devices s ! i)\<lparr>isOpen := 1\<rparr>) s)"
    using ok by (intro so2_ok_set) (simp_all add: opens_ok_def)
  then have "so2_ok s'" by (simp add: so2_ok_def new(2))
  moreover have "isOpen (devices s ! i) = (if so2_dev_addr i \<in> set ps then 1 else 0)"
    using ok p by (simp add: opens_ok_def)
  then have "so2_dev_addr i \<notin> set ps" using new(1) by (auto split: if_splits)
  moreover have "so2_dev_index q s' = so2_dev_index q s" for q by (rule so2_dev_index_same) (simp add: new(2))
  ultimately show ?thesis
    using opened ok new p i by (auto simp: opens_ok_def nth_list_update)
next
  case (refused ino f s r f' s' ps)
  have ok: "opens_ok (ps, s)" using x refused by simp
  obtain i where i: "so2_dev_index (i_cdev ino) s = Some i"
    using refused by (auto simp: so2_open_def Let_def bind_Some_conv)
  then have "devices s' = devices s" using refused so2_open_eq [OF i refl, of K f] by (auto split: if_splits)
  then show ?thesis using refused ok so2_dev_index_same [of s' s] by (simp add: opens_ok_def so2_ok_def)
next
  case (reading f ps ub sz off s r off' s')
  have ok: "opens_ok (ps, s)" using x reading by simp
  obtain i where i: "so2_dev_index (private_data f) s = Some i" using reading ok by (auto simp: opens_ok_def)
  then have "devices s' = devices s" using reading so2_read_keeps [of s f i K ub sz off] ok by (auto simp: opens_ok_def)
  then show ?thesis using reading ok so2_dev_index_same [of s' s] by (simp add: opens_ok_def so2_ok_def)
next
  case (writing f ps ub sz off s r off' s')
  have ok: "opens_ok (ps, s)" using x writing by simp
  obtain i where i: "so2_dev_index (private_data f) s = Some i" using writing ok by (auto simp: opens_ok_def)
  then show ?thesis
    using writing so2_write_keeps [of s f i K ub sz off] ok K opens_ok_same [OF ok] by (auto simp: opens_ok_def)
next
  case (closing f ps ino s r s')
  have ok: "opens_ok (ps, s)" using x closing by simp
  obtain i where i: "so2_dev_index (private_data f) s = Some i" using closing ok by (auto simp: opens_ok_def)
  note p = so2_dev_index_Some [OF i]
  have new: "devices s' = (devices s)[i := (devices s ! i)\<lparr>isOpen := 0\<rparr>]" using closing i by (auto simp: so2_release_def)
  have "dev_ok ((devices s ! i)\<lparr>isOpen := 0\<rparr>)" using so2_ok_nth [OF _ i] ok by (simp add: opens_ok_def dev_ok_def)
  then have "so2_ok (set_device i ((devices s ! i)\<lparr>isOpen := 0\<rparr>) s)"
    using ok by (intro so2_ok_set) (simp_all add: opens_ok_def)
  then have "so2_ok s'" by (simp add: so2_ok_def new)
  moreover have "so2_dev_index q s' = so2_dev_index q s" for q by (rule so2_dev_index_same) (simp add: new)
  ultimately show ?thesis
    using closing ok new p by (auto simp: opens_ok_def nth_list_update)
qed

lemma so2_reach_ok: "so2_reach K x \<Longrightarrow> copy_from_user_fills K \<Longrightarrow> opens_ok x"
proof (induction rule: so2_reach.induct)
  case (loaded s)
  then show ?case using so2_init_ok [OF loaded(1)] by (simp add: opens_ok_def)
next
  case (step x y)
  then show ?case using so2_step_ok by blast
qed

section \<open>Properties\<close>

text \<open>
  C8: At most one open file per device: in every state reached by opening, reading, writing and closing
  files in any order, no device is open twice, the open flag is set exactly for the devices that are open, and an
  attempt to open one of these is refused with \<open>-EBUSY\<close> and leaves the devices as they are.
\<close>

theorem so2_single_opener:
  assumes "copy_from_user_fills K" and "so2_reach K (ps, s)"
  shows "distinct ps \<and>
    (so2_dev_index p s = Some i \<longrightarrow> isOpen (devices s ! i) = (if p \<in> set ps then 1 else 0)) \<and>
    (p \<in> set ps \<longrightarrow> (\<exists>f' s'. so2_open K \<lparr>i_cdev = p\<rparr> f s = Some (- EBUSY, f', s') \<and> devices s' = devices s))"
proof -
  have ok: "opens_ok (ps, s)" by (rule so2_reach_ok [OF assms(2,1)])
  have "isOpen (devices s ! i) = (if p \<in> set ps then 1 else 0)" if "so2_dev_index p s = Some i" for i
    using ok so2_dev_index_Some [OF that] by (auto simp: opens_ok_def)
  moreover have "\<exists>i. so2_dev_index p s = Some i" if "p \<in> set ps" using ok that by (auto simp: opens_ok_def)
  ultimately show ?thesis
    using ok so2_open_eq [OF _ refl, of "\<lparr>i_cdev = p\<rparr>" s _ K f] by (force simp: opens_ok_def)
qed

definition so2_inode :: inode where "so2_inode = \<lparr>i_cdev = so2_dev_addr 0\<rparr>"
definition so2_file :: kfile where "so2_file = \<lparr>private_data = so2_dev_addr 0\<rparr>"

text \<open>The state after loading the driver and opening the device once, with a kernel that grants everything.\<close>

definition so2_loaded :: so2_module where
  "so2_loaded = snd (so2_cdev_init bump_kernel so2_module0)"

lemma so2_loaded_init: "so2_cdev_init bump_kernel so2_module0 = (0, so2_loaded)"
  by (simp add: so2_loaded_def so2_cdev_init_def so2_module0_def kcall_eq Let_def held_def log_simps)

lemma so2_loaded_devices:
  "so2_dev_index (so2_dev_addr 0) so2_loaded = Some 0" "isOpen (devices so2_loaded ! 0) = 0" "so2_ok so2_loaded"
  using so2_init_ok [OF so2_loaded_init]
  by (simp_all add: so2_dev_index_def so2_dev_addr_def SO2_NUM_MINORS_def)

lemma so2_opened_once:
  "\<exists>f1 s1. so2_open bump_kernel so2_inode so2_file so2_loaded = Some (0, f1, s1) \<and>
    so2_reach bump_kernel ([so2_dev_addr 0], s1)"
proof -
  let ?s1 = "set_device 0 ((devices so2_loaded ! 0)\<lparr>isOpen := 1\<rparr>)
    (kdo bump_kernel (Print (Pr_info ''%s method 'open' was called!'' [PStr SO2_MODULE_NAME])) so2_loaded)"
  have o1: "so2_open bump_kernel so2_inode so2_file so2_loaded = Some (0, so2_file\<lparr>private_data := so2_dev_addr 0\<rparr>, ?s1)"
    using so2_open_eq [of so2_inode so2_loaded 0, OF _ refl, of bump_kernel so2_file] so2_loaded_devices
    by (simp add: so2_inode_def)
  have "so2_reach bump_kernel ([so2_dev_addr 0], ?s1)"
    using so2_reach.step [OF so2_reach.loaded [OF so2_loaded_init] so2_step.opened [OF o1 refl]] by simp
  with o1 show ?thesis by blast
qed

theorem so2_single_opener_witness:
  "\<exists>f1 s1 f2 s2. so2_open bump_kernel so2_inode so2_file so2_loaded = Some (0, f1, s1) \<and>
    so2_open bump_kernel so2_inode so2_file s1 = Some (- EBUSY, f2, s2) \<and> devices s2 = devices s1"
proof -
  obtain f1 s1 where o1: "so2_open bump_kernel so2_inode so2_file so2_loaded = Some (0, f1, s1)"
    "so2_reach bump_kernel ([so2_dev_addr 0], s1)" using so2_opened_once by blast
  from so2_single_opener [OF bump_copy_from_user o1(2), of "so2_dev_addr 0" 0 so2_file] o1
  show ?thesis by (auto simp: so2_inode_def)
qed

text \<open>
  C30: Reading and writing never leave the 128 bytes of the message buffer: in every reachable state, for every open
  file, every length and every file position, read, write and release return, where a copy or a store that is not
  inside the array is a fault of the model. A read changes no device, and the only bytes it hands out are those of the
  message from the file position on, before its terminator and no more than were asked for.
\<close>

theorem so2_never_overruns:
  assumes "copy_from_user_fills K" and "so2_reach K (ps, s)" and "private_data f \<in> set ps"
  shows "(\<exists>i r off' s'. so2_dev_index (private_data f) s = Some i \<and> so2_read K f ub sz off s = Some (r, off', s') \<and>
      devices s' = devices s \<and>
      (\<forall>p bs v. (Mem (Copy_to_user p bs), v) \<in> set (drop (length (klog s)) (klog s')) \<longrightarrow>
        p = ub \<and> bs = take (unat sz) (drop (unat off) (message (devices s ! i))))) \<and>
    (\<exists>r off' s'. so2_write K f ub sz off s = Some (r, off', s')) \<and>
    (\<exists>s'. so2_release K ino f s = Some (0, s'))"
proof -
  have ok: "opens_ok (ps, s)" by (rule so2_reach_ok [OF assms(2,1)])
  then obtain i where i: "so2_dev_index (private_data f) s = Some i" "so2_ok s"
    using assms(3) by (auto simp: opens_ok_def)
  show ?thesis
    using i so2_read_keeps [OF i(2,1), of K ub sz off] so2_write_keeps [OF i(2,1) assms(1), of ub sz off]
    by (simp add: so2_release_def readable_def) blast
qed

theorem so2_never_overruns_witness:
  "\<exists>s1 r off' s2. so2_reach bump_kernel ([so2_dev_addr 0], s1) \<and>
    so2_read bump_kernel so2_file (Heap 7) 4096 (- 1) s1 = Some (r, off', s2) \<and> devices s2 = devices s1"
proof -
  obtain f1 s1 where o1: "so2_open bump_kernel so2_inode so2_file so2_loaded = Some (0, f1, s1)"
    "so2_reach bump_kernel ([so2_dev_addr 0], s1)" using so2_opened_once by blast
  then have "private_data so2_file \<in> set [so2_dev_addr 0]" by (simp add: so2_file_def)
  from so2_never_overruns [OF bump_copy_from_user o1(2) this, of "Heap 7" 4096 "- 1"] o1(2)
  show ?thesis by meson
qed

text \<open>What the copy of a write of \<open>sz\<close> bytes at \<open>ub\<close> returns, and the user's bytes it reads.\<close>

definition so2_copy_in :: "kernel \<Rightarrow> ptr \<Rightarrow> size_t \<Rightarrow> so2_module \<Rightarrow> int \<times> byte list" where
  "so2_copy_in K ub sz s =
     (let h = klog (kdo K (Print (Pr_info ''%s method 'write' was called!'' [PStr SO2_MODULE_NAME])) s);
          c = Mem (Copy_from_user ub (stored sz))
      in (kret K h c, kbytes K h c))"

lemma takeWhile_terminated: "takeWhile (\<lambda>b. b \<noteq> 0) (bs @ 0 # ys) = takeWhile (\<lambda>b. b \<noteq> 0) (bs :: byte list)"
  by (induction bs) auto

lemma so2_write_message:
  assumes i: "so2_dev_index (private_data f) s = Some i" and s: "so2_ok s" and K: "copy_from_user_fills K"
    and bs: "so2_copy_in K ub sz s = (0, bs)"
  shows "\<exists>s1. so2_write K f ub sz off s = Some (sint sz, 0, s1) \<and> length bs = stored sz \<and>
    so2_ok s1 \<and> so2_dev_index (private_data f) s1 = Some i \<and> message (devices s1 ! i) = takeWhile (\<lambda>b. b \<noteq> 0) bs"
proof -
  let ?s = "kdo K (Print (Pr_info ''%s method 'write' was called!'' [PStr SO2_MODULE_NAME])) s"
  let ?c = "Mem (Copy_from_user ub (stored sz))"
  note ok = so2_ok_nth [OF s i]
  have b: "bs = kbytes K (klog ?s) ?c" "kret K (klog ?s) ?c = 0" using bs by (auto simp: so2_copy_in_def Let_def)
  have len: "length bs = stored sz" using K by (simp add: b(1) copy_from_user_fills_def)
  obtain y ys where y: "drop (stored sz) (msg (devices s ! i)) = y # ys"
    using ok stored_less [of sz] by (cases "drop (stored sz) (msg (devices s ! i))") (auto simp: dev_ok_def)
  then have "(bs @ y # ys)[stored sz := 0] = bs @ 0 # ys" using len by (simp add: list_update_append)
  then show ?thesis
    using so2_write_eq [OF i ok refl b(1) len refl, of off] so2_write_keeps [OF s i K, of ub sz off] b(2) y len
      so2_dev_index_Some [OF i] i so2_ok_set [OF s, of _ i]
    by (auto simp: message_def takeWhile_terminated so2_ok_def)
qed

lemma so2_write_efault:
  assumes i: "so2_dev_index (private_data f) s = Some i" and s: "so2_ok s" and K: "copy_from_user_fills K"
    and bs: "fst (so2_copy_in K ub sz s) \<noteq> 0"
  shows "\<exists>s1. so2_write K f ub sz off s = Some (- EFAULT, off, s1)"
  using so2_write_eq [OF i so2_ok_nth [OF s i] refl refl _ refl, of K ub sz off] bs K
  by (simp add: so2_copy_in_def Let_def copy_from_user_fills_def)

lemma sint_small: "unat (w :: size_t) < MSG_MAX \<Longrightarrow> sint w = int (unat w)"
proof -
  assume "unat w < MSG_MAX"
  then have "int (unat w) < int 128" by (simp only: of_nat_less_iff MSG_MAX_def)
  then have u: "uint w < 128" by simp
  have "- (2 ^ 63) \<le> uint w" by (rule order_trans [OF _ uint_ge_0]) simp
  then have "signed_take_bit 63 (uint w) = uint w" using u by (intro signed_take_bit_int_eq_self) simp_all
  then show ?thesis by (simp add: sint_uint)
qed

text \<open>
  C27: What is written is read back. A write whose copy from the user fails returns \<open>-EFAULT\<close> and leaves the file
  position. Otherwise the message is the user's bytes, at most 127 of them and up to the first zero byte, the position is
  0, and the result is the number of bytes if no more than 127 were passed. A read from the start then hands the user the first bytes
  of this message, as many as were asked for or as there are, and advances the position past them; its result is the
  number of bytes delivered when no more were asked for than there are. If the copy to the user fails it returns \<open>-EFAULT\<close> and
  leaves the position, and of an empty message it returns 0.
\<close>

theorem so2_write_then_read:
  assumes "so2_ok s" and "so2_dev_index (private_data f) s = Some i" and "copy_from_user_fills K"
    and "so2_copy_in K ub wsz s = (r, bs)" and "m = takeWhile (\<lambda>b. b \<noteq> 0) bs"
  shows "if r \<noteq> 0 then \<exists>s1. so2_write K f ub wsz off s = Some (- EFAULT, off, s1)
    else length bs = min (unat wsz) 127 \<and>
      (\<exists>w s1 v pos s2. so2_write K f ub wsz off s = Some (w, 0, s1) \<and> (unat wsz \<le> 127 \<longrightarrow> w = int (unat wsz)) \<and>
        message (devices s1 ! i) = m \<and> so2_read K f ub2 rsz 0 s1 = Some (v, pos, s2) \<and>
        (if m = [] then v = 0 \<and> pos = 0
         else \<exists>c. last (klog s2) = (Mem (Copy_to_user ub2 (take (unat rsz) m)), c) \<and>
           (if c \<noteq> 0 then v = - EFAULT \<and> pos = 0
            else unat pos = min (unat rsz) (length m) \<and> (unat rsz \<le> length m \<longrightarrow> v = int (unat rsz)))))"
proof (cases "r = 0")
  case False
  then show ?thesis using so2_write_efault [OF assms(2,1,3), of ub wsz off] assms(4) by simp
next
  case True
  then obtain s1 where w: "so2_write K f ub wsz off s = Some (sint wsz, 0, s1)" "length bs = stored wsz"
      "so2_ok s1" "so2_dev_index (private_data f) s1 = Some i" "message (devices s1 ! i) = m"
    using so2_write_message [OF assms(2,1,3)] assms(4,5) by blast
  note ok = so2_ok_nth [OF w(3,4)]
  have m: "length m < MSG_MAX" using dev_ok_strlen(2) [OF ok] w(5) by simp
  let ?r1 = "kdo K (Print (Pr_info ''%s method 'read' was called!'' [PStr SO2_MODULE_NAME])) s1"
  let ?c = "Mem (Copy_to_user ub2 (take (unat rsz) m))"
  have "so2_read K f ub2 rsz 0 s1 = Some (0, 0, ?r1)" if "m = []"
    using so2_read_at_end [OF ok w(4), of 0] that w(5) by simp
  moreover have "so2_read K f ub2 rsz 0 s1 = Some (if kret K (klog ?r1) ?c \<noteq> 0 then (- EFAULT, 0, kdo K ?c ?r1)
      else (sint rsz, of_nat (min (unat rsz) (length m)), kdo K ?c ?r1))" if "m \<noteq> []"
    using so2_read_in_range [OF ok w(4) _ refl refl, of 0 K ub2 rsz] that w(5) by (simp add: readable_def min.commute)
  moreover have "unat (of_nat (min (unat rsz) (length m)) :: 64 word) = min (unat rsz) (length m)"
    by (rule unat_len) (use m in simp)
  moreover have "last (klog (kdo K ?c ?r1)) = (?c, kret K (klog ?r1) ?c)" by (simp add: kdo_klog)
  moreover have "unat wsz \<le> 127 \<longrightarrow> sint wsz = int (unat wsz)" "unat rsz \<le> length m \<longrightarrow> sint rsz = int (unat rsz)"
    using sint_small [of wsz] sint_small [of rsz] m by (auto simp: MSG_MAX_def)
  moreover have "length bs = min (unat wsz) 127" using w(2) by (simp add: stored_def MSG_MAX_def)
  ultimately show ?thesis using True w(1,5) by (cases "m = []"; cases "kret K (klog ?r1) ?c = 0") auto
qed

text \<open>A user whose buffer holds the word \<open>hello\<close>.\<close>

definition hello_kernel :: kernel where
  "hello_kernel = bump_kernel\<lparr>kbytes := \<lambda>h c. case c of
     Mem (Copy_from_user p n) \<Rightarrow> take n (map of_char ''hello'' @ replicate n 0) | _ \<Rightarrow> []\<rparr>"

theorem so2_write_then_read_witness:
  "\<exists>s1 pos s2. so2_write hello_kernel so2_file (Heap 7) 4 0 so2_loaded = Some (4, 0, s1) \<and>
    so2_read hello_kernel so2_file (Heap 8) 3 0 s1 = Some (3, pos, s2) \<and> unat pos = 3 \<and>
    last (klog s2) = (Mem (Copy_to_user (Heap 8) (map of_char ''hel'')), 0)"
proof -
  have i: "so2_dev_index (private_data so2_file) so2_loaded = Some 0"
    using so2_loaded_devices(1) by (simp add: so2_file_def)
  have K: "copy_from_user_fills hello_kernel" by (simp add: copy_from_user_fills_def hello_kernel_def)
  have c: "so2_copy_in hello_kernel (Heap 7) 4 so2_loaded = (0, map of_char ''hell'')"
    by (simp add: so2_copy_in_def hello_kernel_def stored_def MSG_MAX_def)
  have m: "map of_char ''hell'' = takeWhile (\<lambda>b :: byte. b \<noteq> 0) (map of_char ''hell'')" by simp
  have z: "v = 0" if "so2_read hello_kernel so2_file (Heap 8) 3 0 s1 = Some (r, p, s2)"
    "last (klog s2) = (Mem (Copy_to_user (Heap 8) bs), v)" for s1 r p s2 bs v
    using that by (auto simp: so2_read_def kcall_eq kdo_klog Let_def bind_Some_conv hello_kernel_def split: if_splits)
  from so2_write_then_read [OF so2_loaded_devices(3) i K c m, of 0 "Heap 8" 3]
  obtain w s1 v pos s2 r where "so2_write hello_kernel so2_file (Heap 7) 4 0 so2_loaded = Some (w, 0, s1)" "w = 4"
      and rd: "so2_read hello_kernel so2_file (Heap 8) 3 0 s1 = Some (v, pos, s2)"
        "last (klog s2) = (Mem (Copy_to_user (Heap 8) (map of_char ''hel'')), r)"
      and "r = 0 \<longrightarrow> unat pos = 3 \<and> v = 3"
    by (auto split: if_splits)
  moreover have "r = 0" by (rule z [OF rd])
  ultimately show ?thesis by blast
qed

text \<open>
  A read reports more than it delivers: with fewer bytes left than asked for, only these are copied, but the
  result is the number asked for.
\<close>

theorem so2_read_overreports:
  assumes "so2_ok s" and "so2_dev_index (private_data f) s = Some i"
    and "unat off < length (message (devices s ! i))" and "length (message (devices s ! i)) - unat off < unat sz"
    and "\<And>h p bs. kret K h (Mem (Copy_to_user p bs)) = 0"
  shows "\<exists>bs s'. so2_read K f ub sz off s = Some (sint sz, off + of_nat (length bs), s') \<and>
    last (klog s') = (Mem (Copy_to_user ub bs), 0) \<and> bs = drop (unat off) (message (devices s ! i)) \<and>
    length bs < unat sz"
  using so2_read_in_range [OF so2_ok_nth [OF assms(1,2)] assms(2,3) refl refl, of K ub sz] assms(4,5)
  by (simp add: readable_def kdo_klog)

theorem so2_read_overreports_witness:
  "\<exists>s'. so2_read bump_kernel so2_file (Heap 7) 100 0 so2_loaded = Some (100, 15, s') \<and>
    last (klog s') = (Mem (Copy_to_user (Heap 7) (map of_char SO2_MESSAGE)), 0)"
proof -
  have i: "so2_dev_index (private_data so2_file) so2_loaded = Some 0"
    using so2_loaded_devices(1) by (simp add: so2_file_def)
  have m: "message (devices so2_loaded ! 0) = map of_char SO2_MESSAGE"
    by (simp add: so2_loaded_def so2_cdev_init_def so2_module0_def kcall_eq Let_def held_def log_simps
        SO2_NUM_MINORS_def message_def strscpy_def SO2_MESSAGE_def)
  have "length SO2_MESSAGE = 15" by (simp add: SO2_MESSAGE_def)
  with so2_read_overreports [OF so2_loaded_devices(3) i, of 0 100 bump_kernel "Heap 7"]
  show ?thesis by (auto simp: m)
qed

text \<open>
  A write of more than fits stores 127 bytes and reports the number it was asked to write, not the number written.
\<close>

theorem so2_write_overreports:
  assumes "so2_dev_index (private_data f) s = Some i" and "so2_ok s" and "copy_from_user_fills K"
    and "\<And>h p n. kret K h (Mem (Copy_from_user p n)) = 0" and "MSG_MAX - 1 < unat sz"
  shows "\<exists>s'. so2_write K f ub sz offset s = Some (sint sz, 0, s') \<and> unat (msg_len (devices s' ! i)) = MSG_MAX - 1"
proof -
  let ?s = "kdo K (Print (Pr_info ''%s method 'write' was called!'' [PStr SO2_MODULE_NAME])) s"
  have n: "stored sz = MSG_MAX - 1" using assms(5) by (simp add: stored_def)
  have "length (kbytes K (klog ?s) (Mem (Copy_from_user ub (stored sz)))) = stored sz"
    using assms(3) by (simp add: copy_from_user_fills_def)
  from so2_write_eq [OF assms(1) so2_ok_nth [OF assms(2,1)] refl refl this refl, of offset] show ?thesis
    using assms(4) so2_dev_index_Some [OF assms(1)] by (simp add: n MSG_MAX_def)
qed

theorem so2_write_overreports_witness:
  "\<exists>s'. so2_write bump_kernel so2_file Null 200 0 so2_module0 = Some (200, 0, s') \<and> unat (msg_len (devices s' ! 0)) = 127"
  using so2_write_overreports [of so2_file so2_module0 0 bump_kernel 200 Null 0] bump_copy_from_user
  by (simp add: so2_file_def so2_module0_def so2_dev_index_def so2_dev_addr_def SO2_NUM_MINORS_def MSG_MAX_def so2_ok_def dev_ok_def)

text \<open>The recorded length of a message, and the number of devices, along every step.\<close>

definition lengths_ok :: "so2_module \<Rightarrow> bool" where
  "lengths_ok s \<longleftrightarrow> length (devices s) = SO2_NUM_MINORS \<and> (\<forall>d\<in>set (devices s). unat (msg_len d) < MSG_MAX)"

lemma lengths_ok_set:
  "lengths_ok s \<Longrightarrow> devices s' = (devices s)[i := d] \<Longrightarrow> unat (msg_len d) < MSG_MAX \<Longrightarrow> lengths_ok s'"
  by (auto simp: lengths_ok_def dest: set_update_subset_insert [THEN subsetD])

lemma lengths_ok_nth: "lengths_ok s \<Longrightarrow> so2_dev_index p s = Some i \<Longrightarrow> unat (msg_len (devices s ! i)) < MSG_MAX"
  by (auto simp: lengths_ok_def dest: so2_dev_index_Some)

lemma so2_step_lengths:
  assumes "so2_step K x y" and "lengths_ok (snd x)"
  shows "lengths_ok (snd y)"
  using assms(1)
proof cases
  case (writing f ps ub sz off s r off' s')
  then obtain i where i: "so2_dev_index (private_data f) s = Some i" by (auto simp: so2_write_def Let_def bind_Some_conv)
  have n: "unat (if sz < of_nat (MSG_MAX - 1) then sz else of_nat (MSG_MAX - 1)) < MSG_MAX"
    unfolding unat_stored by (rule stored_less)
  have "unat (msg_len (devices s ! i)) < MSG_MAX" using assms(2) writing(1) lengths_ok_nth [OF _ i] by simp
  then have "\<exists>d. devices s' = (devices s)[i := d] \<and> unat (msg_len d) < MSG_MAX"
    using writing(4) i n by (auto simp: so2_write_def kcall_eq Let_def split: if_splits)
  then show ?thesis using lengths_ok_set assms(2) writing(1,2) by auto
next
  case (opened ino f s r f' s' ps)
  then obtain i where i: "so2_dev_index (i_cdev ino) s = Some i" by (auto simp: so2_open_def Let_def bind_Some_conv)
  have "unat (msg_len (devices s ! i)) < MSG_MAX" using assms(2) opened(1) lengths_ok_nth [OF _ i] by simp
  moreover have "devices s' = (devices s)[i := (devices s ! i)\<lparr>isOpen := 1\<rparr>]"
    using opened(3,4) so2_open_eq [OF i refl, of K f] by (auto simp: EBUSY_def split: if_splits)
  ultimately show ?thesis using lengths_ok_set [of s s' i] assms(2) opened(1,2) by simp
next
  case (refused ino f s r f' s' ps)
  then show ?thesis using assms(2) by (auto simp: so2_open_def Let_def bind_Some_conv lengths_ok_def split: if_splits)
next
  case (reading f ps ub sz off s r off' s')
  then show ?thesis
    using assms(2) by (auto simp: so2_read_def kcall_eq Let_def bind_Some_conv lengths_ok_def split: if_splits)
next
  case (closing f ps ino s r s')
  then obtain i where i: "so2_dev_index (private_data f) s = Some i" by (auto simp: so2_release_def Let_def bind_Some_conv)
  have "unat (msg_len (devices s ! i)) < MSG_MAX" using assms(2) closing(1) lengths_ok_nth [OF _ i] by simp
  moreover have "devices s' = (devices s)[i := (devices s ! i)\<lparr>isOpen := 0\<rparr>]" using closing(4) i by (auto simp: so2_release_def)
  ultimately show ?thesis using lengths_ok_set [of s s' i] assms(2) closing(1,2) by simp
qed

lemma so2_reach_lengths: "so2_reach K x \<Longrightarrow> lengths_ok (snd x)"
proof (induction rule: so2_reach.induct)
  case (loaded s)
  then show ?case
    by (auto simp: so2_cdev_init_def so2_module0_def SO2_NUM_MINORS_def kcall_eq Let_def lengths_ok_def MSG_MAX_def split: if_splits)
next
  case (step x y)
  then show ?case using so2_step_lengths by blast
qed

text \<open>
  C17: The device structures keep their types: in every reachable state there is the declared number of devices, the message of each is an array of
  exactly 128 bytes that ends in a zero byte, its recorded length is that of a string that fits, its open flag is 0 or 1, and every open file refers to
  one of the devices.
\<close>

theorem so2_structures_well_typed:
  assumes "copy_from_user_fills K" and "so2_reach K (ps, s)"
  shows "length (devices s) = SO2_NUM_MINORS \<and>
    (\<forall>d\<in>set (devices s). length (msg d) = 128 \<and> msg d ! 127 = 0 \<and> unat (msg_len d) < 128 \<and> isOpen d \<in> {0, 1}) \<and>
    (\<forall>p\<in>set ps. \<exists>i<SO2_NUM_MINORS. p = so2_dev_addr i)"
proof -
  have ok: "opens_ok (ps, s)" by (rule so2_reach_ok [OF assms(2,1)])
  have l: "lengths_ok s" using so2_reach_lengths [OF assms(2)] by simp
  have "isOpen d \<in> {0, 1}" if "d \<in> set (devices s)" for d
    using that ok by (auto simp: opens_ok_def in_set_conv_nth split: if_splits)
  moreover have "\<forall>p\<in>set ps. \<exists>i<SO2_NUM_MINORS. p = so2_dev_addr i"
    using ok l so2_dev_index_Some by (fastforce simp: opens_ok_def lengths_ok_def)
  ultimately show ?thesis using ok l by (auto simp: opens_ok_def so2_ok_def dev_ok_def lengths_ok_def MSG_MAX_def)
qed

theorem so2_structures_well_typed_witness:
  "\<exists>s1. so2_reach bump_kernel ([so2_dev_addr 0], s1) \<and> length (msg (hd (devices s1))) = 128 \<and> isOpen (hd (devices s1)) \<in> {0, 1}"
proof -
  obtain f1 s1 where "so2_open bump_kernel so2_inode so2_file so2_loaded = Some (0, f1, s1)"
    "so2_reach bump_kernel ([so2_dev_addr 0], s1)" using so2_opened_once by blast
  moreover from so2_structures_well_typed [OF bump_copy_from_user this(2)]
  have "devices s1 \<noteq> []" "\<forall>d\<in>set (devices s1). length (msg d) = 128 \<and> isOpen d \<in> {0, 1}"
    by (auto simp: SO2_NUM_MINORS_def)
  ultimately show ?thesis using hd_in_set by blast
qed

end
