(* ===== verification/Netlib.thy ===== *)
theory Netlib
  imports Kernel
begin

unbundle bit_operations_syntax

text \<open>
  What the three network modules share: the printing helper \<open>print.h\<close> (the same file in each of
  \<open>tcp-mod\<close>, \<open>udp-mod\<close> and \<open>packet-mod\<close>), the conversions to network byte order on the little-endian
  target, and how the modules handle sockets.
\<close>

section \<open>The printing helper\<close>

text \<open>\<open>enum LOG_LEVEL\<close>; C passes an enumeration as an integer, and one of the callers passes another
  integer.\<close>

definition DEBUG :: int where "DEBUG = 0"
definition ERROR :: int where "ERROR = 1"

definition print :: "kernel \<Rightarrow> string \<Rightarrow> int \<Rightarrow> 'a kstate_scheme \<Rightarrow> 'a kstate_scheme" where
  "print K txt level s =
     (if level = DEBUG then kdo K (Print (Pr_info ''[LOG]:%s'' [PStr txt])) s
      else if level = ERROR then kdo K (Print (Pr_info ''[ERROR]:%s'' [PStr txt])) s
      else kdo K (Print (Pr_info ''[???]: unknown log level'' [])) s)"

lemma print_log [log_simps]:
  "acct (klog (print K txt l s)) = acct (klog s)"
  "printed (klog (print K txt l s)) = printed (klog s) @
     [if l = DEBUG then (''[LOG]:%s'', [PStr txt]) else if l = ERROR then (''[ERROR]:%s'', [PStr txt])
      else (''[???]: unknown log level'', [])]"
  by (auto simp: print_def log_simps acct_step_def)

section \<open>Byte order\<close>

definition htons :: "16 word \<Rightarrow> 16 word" where
  "htons w = push_bit 8 w OR drop_bit 8 w"

definition htonl :: "u32 \<Rightarrow> u32" where
  "htonl w = push_bit 24 w OR (push_bit 8 w AND 0x00FF0000) OR (drop_bit 8 w AND 0x0000FF00) OR drop_bit 24 w"

definition INADDR_LOOPBACK :: u32 where "INADDR_LOOPBACK = 0x7f000001"

lemma htons_htons: "htons (htons w) = w"
  unfolding htons_def by (rule bit_word_eqI) (auto simp: bit_simps)

section \<open>Sockets\<close>

text \<open>Releasing the null pointer is an oops (\<open>sock_release\<close> reads the socket it is given).\<close>

definition sock_release :: "kernel \<Rightarrow> ptr \<Rightarrow> 'a kstate_scheme \<Rightarrow> 'a kstate_scheme option" where
  "sock_release K p s = (if p = Null then None else Some (kdo K (Net (Sock_release p)) s))"

text \<open>A call through \<open>sock->ops\<close> reads the socket.\<close>

definition via_ops :: "ptr \<Rightarrow> kernel \<Rightarrow> net_call \<Rightarrow> 'a kstate_scheme \<Rightarrow> (int \<times> 'a kstate_scheme) option" where
  "via_ops p K c s = (if p = Null then None else Some (kcall K (Net c) s))"

text \<open>
  The kernel stores a new socket if and only if the creation succeeds; otherwise it leaves the variable as it is.
\<close>

definition stored_to :: "int \<Rightarrow> ptr \<Rightarrow> ptr" where
  "stored_to r p = (if r = 0 then p else ptr_of r)"

definition creates_socket :: "net_call \<Rightarrow> bool" where
  "creates_socket c = (case c of Sock_create_kern _ _ _ \<Rightarrow> True | Sock_create_lite _ _ _ \<Rightarrow> True | _ \<Rightarrow> False)"

definition sock_stores :: "kernel \<Rightarrow> bool" where
  "sock_stores K \<longleftrightarrow> (\<forall>h c r v. creates_socket c \<longrightarrow>
     (kret K (h @ [(Net c, r)]) (Net (Sock_stored v)) = 0 \<longleftrightarrow> r < 0))"

text \<open>A kernel in which the network calls of the set \<open>F\<close> fail and the others succeed.\<close>

definition net_ret :: "(net_call \<Rightarrow> bool) \<Rightarrow> klog \<Rightarrow> kcall \<Rightarrow> int" where
  "net_ret F h c =
     (case c of
        Net (Sock_stored v) \<Rightarrow> if h = [] \<or> snd (last h) < 0 then 0 else int (length h)
      | Net a \<Rightarrow> if F a then - 1 else 0
      | _ \<Rightarrow> bump_ret h c)"

definition net_kernel :: "(net_call \<Rightarrow> bool) \<Rightarrow> kernel" where
  "net_kernel F = bump_kernel\<lparr>kret := net_ret F\<rparr>"

lemma net_kernel_stores: "sock_stores (net_kernel F)"
  by (simp add: sock_stores_def net_kernel_def net_ret_def)

end
