(* ===== verification/Tcpmod.thy ===== *)
theory Tcpmod
  imports Netlib
begin

text \<open>
  The TCP module, \<open>KernelModules/tcp-mod/kernel/tcpmod.c\<close>: when loaded it listens on a loopback port and accepts one
  connection. The state is its two socket pointers and the call log.
\<close>

section \<open>Definitions\<close>

definition LISTEN_BACKLOG :: nat where "LISTEN_BACKLOG = 5"
definition TCP_PORT :: nat where "TCP_PORT = 60000"

record tcp_module = kstate +
  sock :: ptr
  new_sock :: ptr

definition tcp_module0 :: tcp_module where
  "tcp_module0 = \<lparr>klog = [], sock = Null, new_sock = Null\<rparr>"

definition tcp_addr :: sockaddr_in where
  "tcp_addr = (''AF_INET'', htons (of_nat TCP_PORT), htonl INADDR_LOOPBACK)"

text \<open>The two error labels.\<close>

definition socket_failed :: "kernel \<Rightarrow> int \<Rightarrow> tcp_module \<Rightarrow> (int \<times> tcp_module) option" where
  "socket_failed K res s = do { s \<leftarrow> sock_release K (sock s) s; Some (res, s\<lparr>sock := Null\<rparr>) }"

definition NEW_SOCKET_FAILED :: "kernel \<Rightarrow> int \<Rightarrow> tcp_module \<Rightarrow> (int \<times> tcp_module) option" where
  "NEW_SOCKET_FAILED K res s = do { s \<leftarrow> sock_release K (new_sock s) s; Some (res, s\<lparr>new_sock := Null\<rparr>) }"

definition tcpmod_init :: "kernel \<Rightarrow> tcp_module \<Rightarrow> (int \<times> tcp_module) option" where
  "tcpmod_init K s = do {
     let (res, s) = kcall K (Net (Sock_create_kern ''AF_INET'' ''SOCK_STREAM'' ''IPPROTO_TCP'')) s;
     let (p, s) = kcall K (Net (Sock_stored ''sock'')) s;
     let s = s\<lparr>sock := stored_to p (sock s)\<rparr>;
     if res < 0 then Some (res, print K ''[TCP_SOCKET] sock_create_kern failed '' ERROR s)
     else do {
       (res, s) \<leftarrow> via_ops (sock s) K (Sock_bind (sock s) tcp_addr) s;
       if res < 0 then socket_failed K res (print K ''[TCP_SOCKET] bind failed '' ERROR s)
       else do {
         (res, s) \<leftarrow> via_ops (sock s) K (Sock_listen (sock s) LISTEN_BACKLOG) s;
         if res < 0 then socket_failed K res (print K ''[TCP_SOCKET] bind failed '' ERROR s)
         else do {
           let (res, s) = kcall K (Net (Sock_create_lite ''AF_INET'' ''SOCK_STREAM'' ''IPPROTO_TCP'')) s;
           let (p, s) = kcall K (Net (Sock_stored ''new_sock'')) s;
           let s = s\<lparr>new_sock := stored_to p (new_sock s)\<rparr>;
           if res < 0 then NEW_SOCKET_FAILED K res (print K ''[TCP_SOCKET] sock create lite '' ERROR s)
           else do {
             (if new_sock s = Null then None else Some ());
             (res, s) \<leftarrow> via_ops (sock s) K (Sock_accept (sock s) (new_sock s) 0 True) s;
             if res < 0 then NEW_SOCKET_FAILED K res (print K ''[TCP_SOCKET] accept failed'' ERROR s)
             else do {
               (res, s) \<leftarrow> via_ops (new_sock s) K (Sock_getname (new_sock s) 1) s;
               if res < 0 then NEW_SOCKET_FAILED K res (print K ''[TCP_SOCKET] getname failed'' ERROR s)
               else Some (0, kdo K (Print (Pr_info ''[TCP_SOCKET] listening on 127.0.0.1:%d'' [PInt (int TCP_PORT)])) s)
             }
           }
         }
       }
     }
   }"

definition tcpmod_exit :: "kernel \<Rightarrow> tcp_module \<Rightarrow> tcp_module option" where
  "tcpmod_exit K s = do {
     s \<leftarrow> (if sock s \<noteq> Null then do { s \<leftarrow> sock_release K (sock s) s; Some (s\<lparr>sock := Null\<rparr>) } else Some s);
     (if new_sock s \<noteq> Null then do { s \<leftarrow> sock_release K (new_sock s) s; Some (s\<lparr>new_sock := Null\<rparr>) } else Some s)
   }"

section \<open>The resources\<close>

lemma kdo_socks [simp]:
  "sock (kdo K c s) = sock s" "new_sock (kdo K c s) = new_sock s"
  "sock (print K m l s) = sock s" "new_sock (print K m l s) = new_sock s"
  by (simp_all add: kdo_eq print_def)

text \<open>The calls of \<open>tcpmod_init\<close> whose answers decide which way it goes.\<close>

definition tcp_create :: net_call where "tcp_create = Sock_create_kern ''AF_INET'' ''SOCK_STREAM'' ''IPPROTO_TCP''"
definition tcp_lite :: net_call where "tcp_lite = Sock_create_lite ''AF_INET'' ''SOCK_STREAM'' ''IPPROTO_TCP''"

lemma stored_ptr:
  assumes "sock_stores K" and "creates_socket c"
  shows "kret K (klog (kdo K (Net c) s)) (Net (Sock_stored v)) = 0 \<longleftrightarrow> kret K (klog s) (Net c) < 0"
  using assms by (simp add: sock_stores_def kdo_klog)

lemma creates [simp]: "creates_socket tcp_create" "creates_socket tcp_lite"
  by (simp_all add: creates_socket_def tcp_create_def tcp_lite_def)

lemmas tcp_unfold = tcpmod_init_def stored_to_def socket_failed_def NEW_SOCKET_FAILED_def via_ops_def sock_release_def
  kcall_eq Let_def tcp_create_def [symmetric] tcp_lite_def [symmetric]

lemma creates_nothing_yet [simp]:
  "gain_net tcp_create r = None" "gain_net tcp_lite r = None" "loss_net tcp_create = None" "loss_net tcp_lite = None"
  by (simp_all add: tcp_create_def tcp_lite_def)

lemma tcp_init_0:
  assumes "sock_stores K" and "acct (klog s) = (hs, bs)" and "tcpmod_init K s = Some (0, s1)"
  shows "acct (klog s1) = (RSock (new_sock s1) # RSock (sock s1) # hs, bs)" "sock s1 \<noteq> Null" "new_sock s1 \<noteq> Null"
  using assms
  by (auto simp: tcp_unfold log_simps stored_ptr acct_step_def split: if_splits)

section \<open>Properties\<close>

text \<open>
  Loading and unloading the TCP module is balanced: after a load that returns 0 the module holds the listening and
  the accepted socket, both pointers are set, and unloading gives both back, each once.
\<close>

theorem tcp_load_unload:
  assumes "sock_stores K" and "acct (klog s) = ([], [])" and "tcpmod_init K s = Some (0, s1)"
  shows "\<exists>s2. held (klog s1) = [RSock (new_sock s1), RSock (sock s1)] \<and> sock s1 \<noteq> Null \<and> new_sock s1 \<noteq> Null \<and>
    tcpmod_exit K s1 = Some s2 \<and> held (klog s2) = [] \<and> overreleased (klog s2) = [] \<and>
    sock s2 = Null \<and> new_sock s2 = Null"
  using tcp_init_0 [OF assms]
  by (simp add: tcpmod_exit_def sock_release_def held_def overreleased_def log_simps acct_step_def)

theorem tcp_load_unload_witness:
  "\<exists>s1 s2. tcpmod_init (net_kernel (\<lambda>c. False)) tcp_module0 = Some (0, s1) \<and>
    tcpmod_exit (net_kernel (\<lambda>c. False)) s1 = Some s2 \<and> held (klog s2) = [] \<and> overreleased (klog s2) = []"
proof -
  have "\<exists>s1. tcpmod_init (net_kernel (\<lambda>c. False)) tcp_module0 = Some (0, s1)"
    by (simp add: tcpmod_init_def stored_to_def via_ops_def kcall_eq Let_def net_kernel_def net_ret_def tcp_module0_def kdo_klog)
  moreover have "acct (klog tcp_module0) = ([], [])" by (simp add: tcp_module0_def log_simps)
  ultimately show ?thesis using tcp_load_unload [OF net_kernel_stores] by blast
qed

text \<open>
  A load that fails in \<open>accept\<close> leaks: only the new socket is released on that path, the listening one stays
  open, and as the load failed, the exit function that would release it never runs.
\<close>

theorem tcp_accept_failure_leaks:
  assumes "sock_stores K" and "acct (klog s) = ([], [])"
    and "\<And>h. kret K h (Net tcp_create) \<ge> 0" and "\<And>h. kret K h (Net tcp_lite) \<ge> 0"
    and "\<And>h p. kret K h (Net (Sock_bind p tcp_addr)) \<ge> 0" and "\<And>h p. kret K h (Net (Sock_listen p LISTEN_BACKLOG)) \<ge> 0"
    and "\<And>h p q. kret K h (Net (Sock_accept p q 0 True)) = e" and "e < 0"
  shows "\<exists>s1. tcpmod_init K s = Some (e, s1) \<and> sock s1 \<noteq> Null \<and> held (klog s1) = [RSock (sock s1)]"
  using assms
  by (simp add: tcp_unfold log_simps stored_ptr acct_step_def held_def not_less [symmetric])

theorem tcp_accept_failure_leaks_witness:
  "\<exists>s1. tcpmod_init (net_kernel (\<lambda>c. case c of Sock_accept p q i b \<Rightarrow> True | _ \<Rightarrow> False)) tcp_module0 = Some (- 1, s1) \<and>
    held (klog s1) = [RSock (sock s1)]"
proof -
  have "acct (klog tcp_module0) = ([], [])" by (simp add: tcp_module0_def log_simps)
  from tcp_accept_failure_leaks [OF net_kernel_stores this, of "\<lambda>c. case c of Sock_accept p q i b \<Rightarrow> True | _ \<Rightarrow> False" "- 1"]
  show ?thesis by (auto simp: net_kernel_def net_ret_def tcp_create_def tcp_lite_def)
qed

text \<open>
  A load in which the second socket cannot be created crashes: the error path releases \<open>new_sock\<close>, which is still the
  null pointer.
\<close>

theorem tcp_lite_failure_faults:
  assumes "sock_stores K" and "new_sock s = Null" and "\<And>h. kret K h (Net tcp_create) \<ge> 0" and "\<And>h. kret K h (Net tcp_lite) < 0"
    and "\<And>h p. kret K h (Net (Sock_bind p tcp_addr)) \<ge> 0" and "\<And>h p. kret K h (Net (Sock_listen p LISTEN_BACKLOG)) \<ge> 0"
  shows "tcpmod_init K s = None"
  using assms by (simp add: tcp_unfold stored_ptr not_less [symmetric])

theorem tcp_lite_failure_faults_witness:
  "tcpmod_init (net_kernel (\<lambda>c. c = tcp_lite)) tcp_module0 = None"
  by (rule tcp_lite_failure_faults [OF net_kernel_stores])
    (simp_all add: net_kernel_def net_ret_def tcp_create_def tcp_lite_def tcp_module0_def)

end
