(* ===== verification/Module_contract.thy ===== *)
theory Module_contract
  imports Kernel
begin

text \<open>
  The contract a module owes the administrator: it can be loaded and unloaded, any number of times. A load that fails or
  an unload after one that succeeded leaves the module holding nothing, so that the next load finds what the first one
  found. \<open>reload n\<close> is \<open>n\<close> rounds; a round faults (\<open>None\<close>) when the load or the unload does.
\<close>

fun reload :: "('s \<Rightarrow> (int \<times> 's) option) \<Rightarrow> ('s \<Rightarrow> 's option) \<Rightarrow> nat \<Rightarrow> 's \<Rightarrow> 's option" where
  "reload load unload 0 s = Some s"
| "reload load unload (Suc n) s = do {
     (r, s) \<leftarrow> load s;
     s \<leftarrow> (if r = 0 then unload s else Some s);
     reload load unload n s
   }"

locale balanced_module =
  fixes load :: "'s \<Rightarrow> (int \<times> 's) option"
    and unload :: "'s \<Rightarrow> 's option"
    and clean :: "'s \<Rightarrow> bool"
  assumes load_law: "clean s \<Longrightarrow> \<exists>r s1. load s = Some (r, s1) \<and> (r \<noteq> 0 \<longrightarrow> clean s1) \<and>
      (r = 0 \<longrightarrow> (\<exists>s2. unload s1 = Some s2 \<and> clean s2))"
begin

lemma reload_clean: "clean s \<Longrightarrow> \<exists>s'. reload load unload n s = Some s' \<and> clean s'"
proof (induction n arbitrary: s)
  case (Suc n)
  obtain r s1 where l: "load s = Some (r, s1)" "r \<noteq> 0 \<longrightarrow> clean s1" "r = 0 \<longrightarrow> (\<exists>s2. unload s1 = Some s2 \<and> clean s2)"
    using load_law [OF Suc.prems] by blast
  then obtain s2 where "(if r = 0 then unload s1 else Some s1) = Some s2" "clean s2" by (cases "r = 0") auto
  then show ?case using l(1) Suc.IH by simp
qed simp

end

end
