(* ===== verification/Udpmod.thy ===== *)
theory Udpmod
  imports Netlib Module_contract
begin

text \<open>
  The UDP module, \<open>KernelModules/udp-mod/kernel/udpmod.c\<close>: when loaded it sends one datagram to a loopback port and
  keeps its socket until it is unloaded.
\<close>

section \<open>Definitions\<close>

definition UDP_PORT :: nat where "UDP_PORT = 60001"
definition UDP_MESSAGE :: string where "UDP_MESSAGE = ''Hello from kernel space world!'' @ [CHR 0x0A]"

record udp_module = kstate +
  sock :: ptr

definition udp_module0 :: udp_module where
  "udp_module0 = \<lparr>klog = [], sock = Null\<rparr>"

definition udp_addr :: sockaddr_in where
  "udp_addr = (''AF_INET'', htons (of_nat UDP_PORT), htonl INADDR_LOOPBACK)"

definition release :: "kernel \<Rightarrow> int \<Rightarrow> udp_module \<Rightarrow> (int \<times> udp_module) option" where
  "release K res s = do { s \<leftarrow> sock_release K (sock s) s; Some (res, s\<lparr>sock := Null\<rparr>) }"

text \<open>When the socket cannot be created, the error number is passed to \<open>print\<close> where its level belongs.\<close>

definition udpmod_init :: "kernel \<Rightarrow> udp_module \<Rightarrow> (int \<times> udp_module) option" where
  "udpmod_init K s = do {
     let (res, s) = kcall K (Net (Sock_create_kern ''AF_INET'' ''SOCK_DGRAM'' ''IPPROTO_UDP'')) s;
     let (p, s) = kcall K (Net (Sock_stored ''sock'')) s;
     let s = s\<lparr>sock := stored_to p (sock s)\<rparr>;
     if res < 0 then Some (res, print K ''[UDP SOCKET] sock_create_kern failed: %d'' res s)
     else do {
       (res, s) \<leftarrow> via_ops (sock s) K (Kernel_sendmsg (sock s) udp_addr UDP_MESSAGE) s;
       if res < 0 then release K res (print K ''[UDP SOCKET] kernel_sendmsg failed'' ERROR s)
       else Some (0, kdo K (Print (Pr_info ''[UDP SOCKET] send %d bytes to 127.0.0.1:%d''
              [PInt res, PInt (int UDP_PORT)])) s)
     }
   }"

definition udpmod_exit :: "kernel \<Rightarrow> udp_module \<Rightarrow> udp_module option" where
  "udpmod_exit K s =
     (if sock s \<noteq> Null then do { s \<leftarrow> sock_release K (sock s) s; Some (s\<lparr>sock := Null\<rparr>) } else Some s)"

section \<open>Properties\<close>

lemma kdo_sock [simp]: "sock (kdo K c s) = sock s" "sock (print K m l s) = sock s"
  by (simp_all add: kdo_eq print_def)

lemma udp_stored:
  assumes "sock_stores K" and "c = Net (Sock_create_kern ''AF_INET'' ''SOCK_DGRAM'' ''IPPROTO_UDP'')"
  shows "kret K (klog (kdo K c s)) (Net (Sock_stored v)) = 0 \<longleftrightarrow> kret K (klog s) c < 0"
  using assms by (simp add: sock_stores_def creates_socket_def kdo_klog)

lemmas udp_unfold = udpmod_init_def stored_to_def release_def via_ops_def sock_release_def kcall_eq Let_def

text \<open>One round of loading and unloading, with every outcome of the load.\<close>

lemma udp_round:
  assumes "sock_stores K" and "acct (klog s) = ([], [])"
  shows "\<exists>res s1 s2. udpmod_init K s = Some (res, s1) \<and>
    (res < 0 \<and> held (klog s1) = [] \<or> res = 0 \<and> held (klog s1) = [RSock (sock s1)] \<and>
      udpmod_exit K s1 = Some s2 \<and> held (klog s2) = [] \<and> overreleased (klog s2) = []) \<and> overreleased (klog s1) = []"
proof -
  let ?c = "Net (Sock_create_kern ''AF_INET'' ''SOCK_DGRAM'' ''IPPROTO_UDP'')"
  note st = udp_stored [OF assms(1) refl, of s]
  show ?thesis
  proof (cases "kret K (klog s) ?c < 0")
    case True
    then show ?thesis
      using assms(2) st
      by (simp add: udp_unfold udpmod_exit_def held_def overreleased_def log_simps acct_step_def)
  next
    case False
    let ?s = "(kdo K (Net (Sock_stored ''sock'')) (kdo K ?c s))\<lparr>sock := stored_to (kret K (klog (kdo K ?c s)) (Net (Sock_stored ''sock''))) (sock s)\<rparr>"
    show ?thesis
      using assms(2) st False
      by (cases "kret K (klog ?s) (Net (Kernel_sendmsg (sock ?s) udp_addr UDP_MESSAGE)) < 0")
        (simp_all add: udp_unfold udpmod_exit_def held_def overreleased_def log_simps acct_step_def)
  qed
qed

interpretation udp_contract: balanced_module "udpmod_init K" "udpmod_exit K"
  "\<lambda>s. sock_stores K \<and> acct (klog s) = ([], [])" for K
proof unfold_locales
  fix s :: udp_module assume a: "sock_stores K \<and> acct (klog s) = ([], [])"
  then obtain res s1 s2 where "udpmod_init K s = Some (res, s1)" "res < 0 \<and> held (klog s1) = [] \<or> res = 0"
      "res = 0 \<longrightarrow> udpmod_exit K s1 = Some s2 \<and> held (klog s2) = [] \<and> overreleased (klog s2) = []"
      "overreleased (klog s1) = []"
    using udp_round [of K s] by auto
  then show "\<exists>r s1. udpmod_init K s = Some (r, s1) \<and> (r \<noteq> 0 \<longrightarrow> sock_stores K \<and> acct (klog s1) = ([], [])) \<and>
      (r = 0 \<longrightarrow> (\<exists>s2. udpmod_exit K s1 = Some s2 \<and> sock_stores K \<and> acct (klog s2) = ([], [])))"
    using a by (auto simp: acct_held)
qed

text \<open>
  C38: The UDP module can be loaded and unloaded any number of times, whichever of the loads fail: no round crashes, and
  after each one nothing is held and nothing was released twice.
\<close>

theorem udp_reload:
  assumes "sock_stores K" and "acct (klog s) = ([], [])"
  shows "\<exists>s'. reload (udpmod_init K) (udpmod_exit K) n s = Some s' \<and> held (klog s') = [] \<and> overreleased (klog s') = []"
  using udp_contract.reload_clean [of K s n] assms by (auto simp: acct_held)

theorem udp_reload_witness:
  "\<exists>s'. reload (udpmod_init (net_kernel (\<lambda>c. False))) (udpmod_exit (net_kernel (\<lambda>c. False))) 2 udp_module0 = Some s' \<and>
    held (klog s') = []"
proof -
  have "acct (klog udp_module0) = ([], [])" by (simp add: udp_module0_def log_simps)
  then show ?thesis using udp_reload [OF net_kernel_stores] by blast
qed

text \<open>
  The failure of the socket's creation is not reported: the error number is taken for the level of the
  message, so that the message is replaced by the complaint about an unknown level.
\<close>

theorem udp_create_failure_message_lost:
  assumes "sock_stores K"
    and "kret K (klog s) (Net (Sock_create_kern ''AF_INET'' ''SOCK_DGRAM'' ''IPPROTO_UDP'')) = e" and "e < 0"
  shows "\<exists>s1. udpmod_init K s = Some (e, s1) \<and>
    printed (klog s1) = printed (klog s) @ [(''[???]: unknown log level'', [])]"
  using assms udp_stored [OF assms(1) refl, of s]
  by (simp add: udp_unfold log_simps DEBUG_def ERROR_def)

theorem udp_create_failure_message_lost_witness:
  "\<exists>s1. udpmod_init (net_kernel (\<lambda>c. True)) udp_module0 = Some (- 1, s1) \<and>
    printed (klog s1) = [(''[???]: unknown log level'', [])]"
  using udp_create_failure_message_lost [OF net_kernel_stores, of "\<lambda>c. True" udp_module0 "- 1"]
  by (simp add: net_kernel_def net_ret_def udp_module0_def printed_def)

end
