(* ===== verification/User_space.thy ===== *)
theory User_space
  imports Kernel "HOL-Library.Char_ord"
begin

text \<open>
  What the programs that run in user space have in common. The system-call interface is not part of the repository: it is a
  parameter, a function \<open>'w os\<close> that runs one call in a world \<open>'w\<close>. A process is the world it runs in, what it
  printed and the system calls it made with what they returned. Exceptions are values; one that nobody catches ends the program. The part of the C++
  library the programs use, \<open>std::stoi\<close>, is defined and shown to read back every \<open>int\<close>.
\<close>

section \<open>Processes\<close>

datatype syscall =
    Sys_open string string
  | Sys_close int
  | Sys_ioctl int u32 ulong
  | Sys_ioctl_ptr int u32 "byte list"
  | Sys_mmap nat string string int nat
  | Sys_socket string string nat
  | Sys_connect int sockaddr_in
  | Sys_send int string

type_synonym 'w os = "syscall \<Rightarrow> 'w \<Rightarrow> int \<times> 'w"

record 'w process =
  world :: 'w
  cout :: string
  syslog :: "(syscall \<times> int) list"

definition start :: "'w \<Rightarrow> 'w process" where
  "start w = \<lparr>world = w, cout = [], syslog = []\<rparr>"

definition sys_call :: "'w os \<Rightarrow> syscall \<Rightarrow> 'w process \<Rightarrow> int \<times> 'w process" where
  "sys_call os c p = (let (r, w) = os c (world p) in (r, p\<lparr>world := w, syslog := syslog p @ [(c, r)]\<rparr>))"

text \<open>\<open>std::cout << msg << '\n'\<close>\<close>

definition put_line :: "string \<Rightarrow> 'w process \<Rightarrow> 'w process" where
  "put_line msg p = p\<lparr>cout := cout p @ msg @ [CHR 0x0A]\<rparr>"

datatype exn = Invalid_argument | Out_of_range | Runtime_error string

datatype outcome = Exit int | Terminate exn

text \<open>
  Descriptors. \<open>still_open h\<close> are the descriptors that the calls of \<open>h\<close> obtained and did not close.
\<close>

fun fd_step :: "int list \<Rightarrow> syscall \<times> int \<Rightarrow> int list" where
  "fd_step fds (Sys_open pa fl, r) = (if r < 0 then fds else r # fds)"
| "fd_step fds (Sys_socket d t n, r) = (if r < 0 then fds else r # fds)"
| "fd_step fds (Sys_close fd, r) = remove1 fd fds"
| "fd_step fds e = fds"

definition still_open :: "(syscall \<times> int) list \<Rightarrow> int list" where
  "still_open h = foldl fd_step [] h"

lemma still_open_simps [simp]:
  "still_open [] = []" "still_open (h @ [e]) = fd_step (still_open h) e"
  by (simp_all add: still_open_def)

lemma sys_call_eq: "sys_call os c p =
    (fst (os c (world p)), p\<lparr>world := snd (os c (world p)), syslog := syslog p @ [(c, fst (os c (world p)))]\<rparr>)"
  by (simp add: sys_call_def case_prod_beta Let_def)

lemma put_line_simps [simp]:
  "world (put_line m p) = world p" "syslog (put_line m p) = syslog p" "cout (put_line m p) = cout p @ m @ [CHR 0x0A]"
  by (simp_all add: put_line_def)

lemma start_simps [simp]: "world (start w) = w" "cout (start w) = []" "syslog (start w) = []"
  by (simp_all add: start_def)

section \<open>Numbers from the command line\<close>

definition is_space :: "char \<Rightarrow> bool" where
  "is_space c \<longleftrightarrow> c = CHR '' '' \<or> (of_char c :: nat) \<in> {9..13}"

definition is_digit :: "char \<Rightarrow> bool" where
  "is_digit c \<longleftrightarrow> (of_char c :: nat) \<in> {48..57}"

definition digit_value :: "char \<Rightarrow> nat" where "digit_value c = of_char c - 48"

definition INT_MIN :: int where "INT_MIN = - (2 ^ 31)"
definition INT_MAX :: int where "INT_MAX = 2 ^ 31 - 1"

fun sign :: "string \<Rightarrow> bool \<times> string" where
  "sign (c # cs) = (if c = CHR ''-'' then (True, cs) else if c = CHR ''+'' then (False, cs) else (False, c # cs))"
| "sign [] = (False, [])"

text \<open>\<open>std::stoi\<close>: white space, a sign and the longest run of digits; what follows is ignored.\<close>

definition stoi :: "string \<Rightarrow> exn + int" where
  "stoi str =
     (let (neg, cs) = sign (dropWhile is_space str);
          ds = takeWhile is_digit cs;
          n = int (foldl (\<lambda>a c. 10 * a + digit_value c) 0 ds);
          v = (if neg then - n else n)
      in if ds = [] then Inl Invalid_argument
         else if v < INT_MIN \<or> INT_MAX < v then Inl Out_of_range else Inr v)"

text \<open>The decimal notation of a number.\<close>

definition digit :: "nat \<Rightarrow> char" where "digit n = char_of (48 + n)"

fun digits :: "nat \<Rightarrow> string" where
  "digits n = (if n < 10 then [digit n] else digits (n div 10) @ [digit (n mod 10)])"

declare digits.simps [simp del]

definition decimal :: "int \<Rightarrow> string" where
  "decimal i = (if i < 0 then CHR ''-'' # digits (nat (- i)) else digits (nat i))"

lemma of_char_digit: "n < 10 \<Longrightarrow> (of_char (digit n) :: nat) = 48 + n"
  by (simp add: digit_def of_char_of)

lemma digit_simps: "n < 10 \<Longrightarrow> is_digit (digit n)" "n < 10 \<Longrightarrow> digit_value (digit n) = n"
  by (simp_all add: is_digit_def digit_value_def of_char_digit)

lemma digits_digits: "c \<in> set (digits n) \<Longrightarrow> is_digit c"
  by (induction n rule: digits.induct) (subst (asm) (2) digits.simps, auto simp: digit_simps split: if_splits)

lemma digits_value: "foldl (\<lambda>a c. 10 * a + digit_value c) 0 (digits n) = n"
proof (induction n rule: digits.induct)
  case (1 n)
  then show ?case by (subst digits.simps) (auto simp: digit_simps)
qed

lemma digits_Cons: "\<exists>c cs. digits n = c # cs"
  by (induction n rule: digits.induct) (subst digits.simps, auto)

lemma digit_not_special: "is_digit c \<Longrightarrow> \<not> is_space c \<and> c \<noteq> CHR ''-'' \<and> c \<noteq> CHR ''+''"
  by (auto simp: is_digit_def is_space_def)

lemma takeWhile_digits: "\<not> (\<exists>c cs. rest = c # cs \<and> is_digit c) \<Longrightarrow> takeWhile is_digit (digits n @ rest) = digits n"
  using digits_digits by (cases rest) (auto simp: takeWhile_append takeWhile_eq_all_conv)

lemma stoi_decimal:
  assumes "\<not> (\<exists>c cs. rest = c # cs \<and> is_digit c)" and "\<forall>c\<in>set ws. is_space c"
  shows "stoi (ws @ decimal i @ rest) = (if INT_MIN \<le> i \<and> i \<le> INT_MAX then Inr i else Inl Out_of_range)"
proof -
  obtain c cs where c: "digits (nat \<bar>i\<bar>) = c # cs" using digits_Cons by blast
  then have "is_digit c" using digits_digits [of c "nat \<bar>i\<bar>"] by simp
  note c' = digit_not_special [OF this]
  have "\<not> is_space CHR ''-''" by (simp add: is_space_def)
  then have "dropWhile is_space (ws @ decimal i @ rest) = decimal i @ rest"
    using assms(2) c c' by (cases "i < 0") (simp_all add: decimal_def)
  then have sg: "sign (dropWhile is_space (ws @ decimal i @ rest)) = (i < 0, digits (nat \<bar>i\<bar>) @ rest)"
    using c c' by (cases "i < 0") (simp_all add: decimal_def)
  have "digits (nat \<bar>i\<bar>) \<noteq> []" using c by simp
  then show ?thesis
    unfolding stoi_def sg by (simp add: takeWhile_digits [OF assms(1)] digits_value Let_def)
qed

end
