(* ===== verification/Packet.thy ===== *)
theory Packet
  imports Netlib
begin

text \<open>
  The packet filter, \<open>KernelModules/packet-mod/kernel/packet.c\<close>: a netfilter hook that reports the TCP connections
  opened to one address, which a user sets through an ioctl of the device \<open>network_filter\<close>. The state is the address
  and the call log.
\<close>

section \<open>Definitions\<close>

text \<open>The headers of an outgoing packet, as the hook reads them.\<close>

record iphdr =
  protocol :: byte
  saddr :: u32
  daddr :: u32

record tcphdr =
  syn :: bool
  ack :: bool
  source :: "16 word"

record sk_buff =
  ip_hdr :: iphdr
  tcp_hdr :: tcphdr

definition IPPROTO_TCP :: byte where "IPPROTO_TCP = 6"
definition NF_ACCEPT :: u32 where "NF_ACCEPT = 1"

text \<open>\<open>_IOW('k', 1, u32)\<close>: direction, size, type and number.\<close>

definition MY_IOCTL_FILTER_ADDRESS :: u32 where
  "MY_IOCTL_FILTER_ADDRESS = push_bit 30 1 OR push_bit 16 4 OR push_bit 8 0x6b OR 1"

record packet_module = kstate +
  ioctl_set_address :: u32

definition packet_module0 :: packet_module where
  "packet_module0 = \<lparr>klog = [], ioctl_set_address = 0\<rparr>"

definition test_daddr :: "kernel \<Rightarrow> sk_buff \<Rightarrow> packet_module \<Rightarrow> bool \<times> packet_module" where
  "test_daddr K skb s =
     (if ioctl_set_address s = 0 then (False, print K ''ioctl set address must be called'' DEBUG s)
      else (daddr (ip_hdr skb) = ioctl_set_address s, s))"

definition packet_hook :: "kernel \<Rightarrow> sk_buff option \<Rightarrow> packet_module \<Rightarrow> u32 \<times> packet_module" where
  "packet_hook K sbuf s =
     (case sbuf of
        None \<Rightarrow> (NF_ACCEPT, s)
      | Some skb \<Rightarrow>
          let iph = ip_hdr skb in
          if protocol iph \<noteq> IPPROTO_TCP then (NF_ACCEPT, s)
          else
            let tcph = tcp_hdr skb in
            if \<not> syn tcph \<or> ack tcph then (NF_ACCEPT, s)
            else
              let (ok, s) = test_daddr K skb s in
              if \<not> ok then (NF_ACCEPT, s)
              else
                let s = kdo K (Print (Pr_info ''[TCP] tcp connection intiated from %pI4:%u''
                          [PAddr (saddr iph), PInt (uint (htons (source tcph)))])) s;
                    s = kdo K (Print (Pr_info ''[IP HEADER]: DST IP:%pI4'' [PAddr (daddr iph)])) s;
                    s = kdo K (Print (Pr_info ''[IP HEADER]: SRC IP:%pI4'' [PAddr (saddr iph)])) s;
                    s = kdo K (Print (Pr_info ''[IP HEADER]: protocol:%u'' [PInt (uint (protocol iph))])) s
                in (NF_ACCEPT, s))"

text \<open>A copy that fails has stored the four bytes all the same.\<close>

definition packet_ioctl :: "kernel \<Rightarrow> u32 \<Rightarrow> ptr \<Rightarrow> packet_module \<Rightarrow> int \<times> packet_module" where
  "packet_ioctl K cmd arg s =
     (if cmd = MY_IOCTL_FILTER_ADDRESS then
        let c = Mem (Copy_from_user arg 4);
            bytes = kbytes K (klog s) c;
            (r, s) = kcall K c s;
            s = s\<lparr>ioctl_set_address := u32_of_bytes bytes\<rparr> in
        if r \<noteq> 0 then (- EFAULT, s)
        else (0, kdo K (Print (Pr_info ''FIlter set to address: %pI4'' [PAddr (ioctl_set_address s)])) s)
      else (- EINVAL, s))"

definition packet_init :: "kernel \<Rightarrow> packet_module \<Rightarrow> int \<times> packet_module" where
  "packet_init K s =
     (let s = print K ''[packed_init] intialized kernel module'' DEBUG s;
          (register_net, s) = kcall K (Net (Nf_register_net_hook ''packet_ops'')) s in
      if register_net < 0 then (- 1, print K ''Error registering network hook'' ERROR s)
      else (0, kdo K (Entry (Misc_register ''network_filter'')) s))"

definition packet_exit :: "kernel \<Rightarrow> packet_module \<Rightarrow> packet_module" where
  "packet_exit K s =
     (let s = print K ''[packed_exit] exit kernel module'' DEBUG s;
          s = kdo K (Net (Nf_unregister_net_hook ''packet_ops'')) s
      in kdo K (Entry (Misc_deregister ''network_filter'')) s)"

section \<open>What the hook prints\<close>

definition opens_connection :: "sk_buff \<Rightarrow> bool" where
  "opens_connection skb \<longleftrightarrow> protocol (ip_hdr skb) = IPPROTO_TCP \<and> syn (tcp_hdr skb) \<and> \<not> ack (tcp_hdr skb)"

definition report :: "sk_buff \<Rightarrow> (string \<times> parg list) list" where
  "report skb =
     [(''[TCP] tcp connection intiated from %pI4:%u'',
        [PAddr (saddr (ip_hdr skb)), PInt (uint (htons (source (tcp_hdr skb))))]),
      (''[IP HEADER]: DST IP:%pI4'', [PAddr (daddr (ip_hdr skb))]),
      (''[IP HEADER]: SRC IP:%pI4'', [PAddr (saddr (ip_hdr skb))]),
      (''[IP HEADER]: protocol:%u'', [PInt (uint (protocol (ip_hdr skb)))])]"

lemma kdo_address [simp]: "ioctl_set_address (kdo K c s) = ioctl_set_address s"
  "ioctl_set_address (print K m l s) = ioctl_set_address s"
  by (simp_all add: kdo_eq print_def)

section \<open>Properties\<close>

text \<open>
  The hook lets every packet pass, keeps the address, and prints the report of a packet exactly when it opens a
  TCP connection (SYN without ACK) to the address that is set; as long as none is set, it asks for one instead.
\<close>

theorem packet_hook_reports_exactly:
  "\<exists>s'. packet_hook K (Some skb) s = (NF_ACCEPT, s') \<and> ioctl_set_address s' = ioctl_set_address s \<and>
    printed (klog s') = printed (klog s) @
      (if \<not> opens_connection skb then []
       else if ioctl_set_address s = 0 then [(''[LOG]:%s'', [PStr ''ioctl set address must be called''])]
       else if daddr (ip_hdr skb) = ioctl_set_address s then report skb else [])"
  by (auto simp: packet_hook_def test_daddr_def opens_connection_def report_def Let_def log_simps DEBUG_def)


definition address_kernel :: "u32 \<Rightarrow> kernel" where
  "address_kernel a = bump_kernel\<lparr>kbytes := (\<lambda>h c. bytes_of a)\<rparr>"

definition syn_packet :: sk_buff where
  "syn_packet = \<lparr>ip_hdr = \<lparr>protocol = 6, saddr = 0x0100007f, daddr = 0x0100007f\<rparr>,
     tcp_hdr = \<lparr>syn = True, ack = False, source = 0x50\<rparr>\<rparr>"


text \<open>
  The result of \<open>misc_register\<close> is ignored: when it fails, loading still returns 0, with the hook in place but no
  device to set the filter with, and unloading takes back a device that was never registered.
\<close>

theorem packet_init_ignores_misc_failure:
  assumes "acct (klog s) = ([], [])" and "\<And>h. kret K h (Net (Nf_register_net_hook ''packet_ops'')) = 0"
    and "\<And>h. kret K h (Entry (Misc_register ''network_filter'')) = - EBUSY"
  shows "\<exists>s1. packet_init K s = (0, s1) \<and> held (klog s1) = [RHook ''packet_ops''] \<and>
    held (klog (packet_exit K s1)) = [] \<and> overreleased (klog (packet_exit K s1)) = [RMisc ''network_filter'']"
  using assms
  by (simp add: packet_init_def packet_exit_def Let_def kcall_eq held_def overreleased_def log_simps acct_step_def EBUSY_def)

definition no_misc_kernel :: kernel where
  "no_misc_kernel = bump_kernel\<lparr>kret := (\<lambda>h c. case c of Entry (Misc_register d) \<Rightarrow> - EBUSY | _ \<Rightarrow> bump_ret h c)\<rparr>"

theorem packet_init_ignores_misc_failure_witness:
  "\<exists>s1. packet_init no_misc_kernel packet_module0 = (0, s1) \<and> held (klog s1) = [RHook ''packet_ops'']"
  using packet_init_ignores_misc_failure [of packet_module0 no_misc_kernel]
  by (auto simp: no_misc_kernel_def packet_module0_def log_simps)

end
