(* ===== verification/Packet_user.thy ===== *)
theory Packet_user
  imports User_space Packet
begin

text \<open>
  The test program of the packet filter, \<open>KernelModules/packet-mod/user/main.cpp\<close>, with its classes \<open>PacketDriver\<close> and \<open>Socket\<close>:
  it sets the filter to one address, opens a connection to it and one to another address. Errors are exceptions; \<open>main\<close>
  catches none, so the first one ends the program and no destructor runs. The locale \<open>packet_host\<close> says what the system does
  between the program and the module; over it the program, the ioctl and the hook are composed.
\<close>

section \<open>Definitions\<close>

text \<open>\<open>inet_pton\<close> for \<open>AF_INET\<close>: four decimal numbers up to 255, without leading zeros, separated by dots; the result is
  the address as it lies in memory.\<close>

fun split_dots :: "string \<Rightarrow> string list" where
  "split_dots [] = [[]]"
| "split_dots (c # cs) =
     (if c = CHR ''.'' then [] # split_dots cs
      else case split_dots cs of p # ps \<Rightarrow> (c # p) # ps | [] \<Rightarrow> [[c]])"

definition octet :: "string \<Rightarrow> byte option" where
  "octet ds =
     (let n = foldl (\<lambda>a c. 10 * a + digit_value c) 0 ds in
      if ds = [] \<or> \<not> list_all is_digit ds \<or> (hd ds = CHR ''0'' \<and> tl ds \<noteq> []) \<or> 255 < n then None
      else Some (of_nat n))"

definition inet_pton :: "string \<Rightarrow> byte list option" where
  "inet_pton ip =
     (case map octet (split_dots ip) of
        [Some a, Some b, Some c, Some d] \<Rightarrow> Some [a, b, c, d]
      | _ \<Rightarrow> None)"

definition runtime_error :: "string \<Rightarrow> exn" where "runtime_error msg = Runtime_error (msg @ [CHR 0x0A])"

text \<open>\<open>class PacketDriver\<close>; the object is its member \<open>m_fd\<close>.\<close>

definition PATH :: string where "PATH = ''/dev/network_filter''"

definition PacketDriver :: "'w os \<Rightarrow> 'w process \<Rightarrow> (exn + int) \<times> 'w process" where
  "PacketDriver os p =
     (let (m_fd, p) = sys_call os (Sys_open PATH ''O_RDONLY'') p in
      if m_fd < 0 then (Inl (runtime_error ''[ERROR] Failed to open packet Driver''), p) else (Inr m_fd, p))"

definition filter_address :: "'w os \<Rightarrow> int \<Rightarrow> string \<Rightarrow> 'w process \<Rightarrow> (exn + unit) \<times> 'w process" where
  "filter_address os m_fd ip p =
     (case inet_pton ip of
        None \<Rightarrow> (Inl (runtime_error ''[ERROR] Invalid IP ADDRESS''), p)
      | Some addr \<Rightarrow>
          let (r, p) = sys_call os (Sys_ioctl_ptr m_fd MY_IOCTL_FILTER_ADDRESS addr) p in
          if r < 0 then (Inl (runtime_error ''[ERROR] Failed to filter address''), p) else (Inr (), p))"

definition PacketDriver_destroy :: "'w os \<Rightarrow> int \<Rightarrow> 'w process \<Rightarrow> 'w process" where
  "PacketDriver_destroy os m_fd p = (if m_fd \<ge> 0 then snd (sys_call os (Sys_close m_fd) p) else p)"

text \<open>\<open>class Socket\<close>\<close>

definition Socket :: "'w os \<Rightarrow> 'w process \<Rightarrow> (exn + int) \<times> 'w process" where
  "Socket os p =
     (let (m_fd, p) = sys_call os (Sys_socket ''AF_INET'' ''SOCK_STREAM'' 0) p in
      if m_fd < 0 then (Inl (runtime_error ''[ERROR] Error intializing socket file descriptor''), p) else (Inr m_fd, p))"

definition Socket_connect :: "'w os \<Rightarrow> int \<Rightarrow> string \<Rightarrow> 16 word \<Rightarrow> 'w process \<Rightarrow> (exn + unit) \<times> 'w process" where
  "Socket_connect os m_fd ip port p =
     (case inet_pton ip of
        None \<Rightarrow> (Inl (runtime_error ''[ERROR] inet_pton() failed''), p)
      | Some sin_addr \<Rightarrow>
          let (r, p) = sys_call os (Sys_connect m_fd (''AF_INET'', htons port, u32_of_bytes sin_addr)) p in
          if r < 0 then (Inl (runtime_error ''[ERROR] connection failed''), p) else (Inr (), p))"

definition Socket_send :: "'w os \<Rightarrow> int \<Rightarrow> string \<Rightarrow> 'w process \<Rightarrow> (exn + unit) \<times> 'w process" where
  "Socket_send os m_fd msg p =
     (let (res, p) = sys_call os (Sys_send m_fd msg) p in
      if res < 0 then (Inl (runtime_error ''[ERROR] failed to send message''), p) else (Inr (), p))"

definition Socket_destroy :: "'w os \<Rightarrow> int \<Rightarrow> 'w process \<Rightarrow> 'w process" where
  "Socket_destroy os m_fd p = (if m_fd \<ge> 0 then snd (sys_call os (Sys_close m_fd) p) else p)"

text \<open>An exception that is not caught ends the program.\<close>

definition uncaught :: "(exn + 'a) \<times> 'w process \<Rightarrow> ('a \<Rightarrow> 'w process \<Rightarrow> outcome \<times> 'w process) \<Rightarrow> outcome \<times> 'w process" where
  "uncaught m f = (case m of (Inl e, p) \<Rightarrow> (Terminate e, p) | (Inr x, p) \<Rightarrow> f x p)"

definition packet_main :: "'w os \<Rightarrow> 'w process \<Rightarrow> outcome \<times> 'w process" where
  "packet_main os p =
     uncaught (PacketDriver os p) (\<lambda>driver p.
     uncaught (filter_address os driver ''127.0.0.1'' p) (\<lambda>_ p.
     uncaught (Socket os p) (\<lambda>socket1 p.
     uncaught (Socket_connect os socket1 ''127.0.0.1'' 8080 p) (\<lambda>_ p.
     uncaught (Socket_send os socket1 (''Hello from the user space world'' @ [CHR 0x0A]) p) (\<lambda>_ p.
     uncaught (Socket os p) (\<lambda>socket2 p.
     uncaught (Socket_connect os socket2 ''127.0.0.2'' 8080 p) (\<lambda>_ p.
     uncaught (Socket_send os socket2 (''THIS MESSAE SHOULD NOT BE SEEN'' @ [CHR 0x0A]) p) (\<lambda>_ p.
       (Exit 0, PacketDriver_destroy os driver (Socket_destroy os socket1 (Socket_destroy os socket2 p)))))))))))"

section \<open>Addresses\<close>

definition dotted :: "byte \<times> byte \<times> byte \<times> byte \<Rightarrow> string" where
  "dotted = (\<lambda>(a, b, c, d). digits (unat a) @ ''.'' @ digits (unat b) @ ''.'' @ digits (unat c) @ ''.'' @ digits (unat d))"

lemma digits_no_zero: "hd (digits n) = CHR ''0'' \<Longrightarrow> tl (digits n) = []"
proof (induction n rule: digits.induct)
  case (1 n)
  show ?case
  proof (cases "n < 10")
    case False
    obtain c cs where c: "digits (n div 10) = c # cs" using digits_Cons by blast
    have "c \<noteq> CHR ''0''"
    proof
      assume "c = CHR ''0''"
      then have "digits (n div 10) = [CHR ''0'']" using 1(1) [OF False] c by simp
      then have "n div 10 = 0" using digits_value [of "n div 10"] by (simp add: digit_value_def)
      then show False using False by simp
    qed
    then show ?thesis using 1(2) False c by (subst (asm) digits.simps) simp
  qed (subst digits.simps, simp)
qed

lemma octet_digits: "octet (digits (unat a)) = Some a"
proof -
  have "unat a < 2 ^ LENGTH(8)" by (rule unsigned_less)
  then have "unat a \<le> 255" by simp
  moreover have "list_all is_digit (digits (unat a))" using digits_digits by (auto simp: list_all_iff)
  moreover have "digits (unat a) \<noteq> []" using digits_Cons [of "unat a"] by auto
  ultimately show ?thesis using digits_no_zero by (auto simp: octet_def digits_value Let_def)
qed

lemma split_dots_plain: "CHR ''.'' \<notin> set xs \<Longrightarrow> split_dots xs = [xs]"
  by (induction xs) auto

lemma split_dots_dot: "CHR ''.'' \<notin> set xs \<Longrightarrow> split_dots (xs @ CHR ''.'' # ys) = xs # split_dots ys"
  by (induction xs) auto

lemma inet_pton_dotted: "inet_pton (dotted (a, b, c, d)) = Some [a, b, c, d]"
proof -
  have "CHR ''.'' \<notin> set (digits n)" for n using digits_digits [of "CHR ''.''" n] by (auto simp: is_digit_def)
  then show ?thesis by (simp add: inet_pton_def dotted_def split_dots_plain split_dots_dot octet_digits)
qed

lemma loopback_addresses:
  "inet_pton ''127.0.0.1'' = Some [127, 0, 0, 1]" "inet_pton ''127.0.0.2'' = Some [127, 0, 0, 2]"
  by code_simp+

section \<open>The module behind the program\<close>

text \<open>What the module becomes when it sees the packets \<open>skbs\<close> on their way out.\<close>

definition emits :: "kernel \<Rightarrow> sk_buff list \<Rightarrow> packet_module \<Rightarrow> packet_module" where
  "emits K skbs m = fold (\<lambda>skb m. snd (packet_hook K (Some skb) m)) skbs m"

definition reported :: "u32 \<Rightarrow> sk_buff \<Rightarrow> bool" where
  "reported a skb \<longleftrightarrow> opens_connection skb \<and> daddr (ip_hdr skb) = a"

lemma emits_reports:
  assumes "ioctl_set_address m = a" and "a \<noteq> 0"
  shows "ioctl_set_address (emits K skbs m) = a \<and>
    printed (klog (emits K skbs m)) = printed (klog m) @ concat (map report (filter (reported a) skbs))"
  using assms(1)
proof (induction skbs arbitrary: m)
  case Nil
  then show ?case by (simp add: emits_def)
next
  case (Cons skb skbs)
  let ?m = "snd (packet_hook K (Some skb) m)"
  have "ioctl_set_address ?m = a"
    "printed (klog ?m) = printed (klog m) @ (if reported a skb then report skb else [])"
    using Cons.prems assms(2)
    by (auto simp: packet_hook_def test_daddr_def reported_def opens_connection_def report_def Let_def log_simps)
  then show ?case using Cons.IH [of ?m] by (simp add: emits_def)
qed

text \<open>
  What the system promises: the device node that is present opens; an \<open>ioctl\<close> on it runs the module's, which copies the object the program
  passed; during every other call the module sees some outgoing packets, none, one or many, of this program or of others. A \<open>connect\<close> of
  a TCP socket may fail, and then nothing is said about what has been sent; if it succeeds, a packet that opens a connection to the address
  has gone out (an address other than 0, which stands for the local host).
\<close>

locale packet_host =
  fixes os :: "'w os" and node :: "'w \<Rightarrow> bool" and opened :: "int \<Rightarrow> 'w \<Rightarrow> bool" and sock :: "int \<Rightarrow> 'w \<Rightarrow> bool"
    and flt :: "'w \<Rightarrow> packet_module" and K :: kernel
  assumes open_law: "node w \<Longrightarrow> \<exists>fd w'. os (Sys_open PATH ''O_RDONLY'') w = (fd, w') \<and> 0 \<le> fd \<and> opened fd w' \<and> flt w' = flt w"
    and ioctl_law: "opened fd w \<Longrightarrow> length bs = 4 \<Longrightarrow> \<exists>a r m w'.
      kbytes K (klog (flt w)) (Mem (Copy_from_user a 4)) = bs \<and> kret K (klog (flt w)) (Mem (Copy_from_user a 4)) = 0 \<and>
      packet_ioctl K cmd a (flt w) = (r, m) \<and> os (Sys_ioctl_ptr fd cmd bs) w = (if r < 0 then - 1 else r, w') \<and> flt w' = m"
    and traffic_law: "c \<in> {Sys_socket d t n, Sys_connect fd ad, Sys_send fd msg, Sys_close fd} \<Longrightarrow>
      \<exists>skbs. flt (snd (os c w)) = emits K skbs (flt w)"
    and socket_law: "os (Sys_socket ''AF_INET'' ''SOCK_STREAM'' 0) w = (fd, w') \<Longrightarrow> 0 \<le> fd \<Longrightarrow> sock fd w'"
    and connect_law: "sock fd w \<Longrightarrow> a \<noteq> 0 \<Longrightarrow> os (Sys_connect fd (''AF_INET'', port, a)) w = (r, w') \<Longrightarrow> 0 \<le> r \<Longrightarrow>
      \<exists>skbs. flt w' = emits K skbs (flt w) \<and> (\<exists>skb\<in>set skbs. reported a skb)"
begin

text \<open>\<open>k\<close> connections to \<open>a\<close> at least, and none to another address, have been reported since \<open>m\<close>.\<close>

definition reporting :: "u32 \<Rightarrow> nat \<Rightarrow> packet_module \<Rightarrow> 'w process \<Rightarrow> bool" where
  "reporting a k m p \<longleftrightarrow> ioctl_set_address (flt (world p)) = a \<and> a \<noteq> 0 \<and>
     (\<exists>rs. printed (klog (flt (world p))) = printed (klog m) @ concat (map report rs) \<and> k \<le> length rs \<and> (\<forall>skb\<in>set rs. reported a skb))"

lemma reporting_emits:
  assumes "reporting a k m p" and "flt w = emits K skbs (flt (world p))"
  shows "reporting a (k + length (filter (reported a) skbs)) m (p\<lparr>world := w, syslog := h\<rparr>)"
proof -
  obtain rs where rs: "printed (klog (flt (world p))) = printed (klog m) @ concat (map report rs)" "k \<le> length rs"
    "\<forall>skb\<in>set rs. reported a skb" and a: "ioctl_set_address (flt (world p)) = a" "a \<noteq> 0"
    using assms(1) by (auto simp: reporting_def)
  show ?thesis
    using emits_reports [OF a, of K skbs] rs a(2) assms(2)
    by (auto simp: reporting_def intro!: exI [of _ "rs @ filter (reported a) skbs"])
qed

lemma reporting_mono: "reporting a k m p \<Longrightarrow> l \<le> k \<Longrightarrow> reporting a l m p"
  by (auto simp: reporting_def intro: le_trans)

lemma reporting_call:
  assumes "reporting a k m p" and "c \<in> {Sys_socket d t n, Sys_connect fd ad, Sys_send fd msg, Sys_close fd}"
    and "sys_call os c p = (r, p')"
  shows "reporting a k m p'"
proof -
  obtain skbs where "flt (snd (os c (world p))) = emits K skbs (flt (world p))" using traffic_law [OF assms(2)] by blast
  from reporting_mono [OF reporting_emits [OF assms(1) this]] show ?thesis
    using assms(3) by (auto simp: sys_call_eq)
qed

lemma reporting_connect:
  assumes "reporting a k m p" and "sock fd (world p)" and "sys_call os (Sys_connect fd (''AF_INET'', port, a)) p = (r, p')" and "0 \<le> r"
  shows "reporting a (Suc k) m p'"
proof -
  have "a \<noteq> 0" using assms(1) by (simp add: reporting_def)
  moreover have "os (Sys_connect fd (''AF_INET'', port, a)) (world p) = (r, world p')" using assms(3) by (auto simp: sys_call_eq)
  ultimately obtain skbs where e: "flt (world p') = emits K skbs (flt (world p))"
    and "\<exists>skb\<in>set skbs. reported a skb" using connect_law [OF assms(2)] assms(4) by blast
  then have "filter (reported a) skbs \<noteq> []" by (auto simp: filter_empty_conv)
  then have "Suc k \<le> k + length (filter (reported a) skbs)" by (cases "filter (reported a) skbs") simp_all
  from reporting_mono [OF reporting_emits [OF assms(1) e] this] show ?thesis
    using assms(3) by (auto simp: sys_call_eq)
qed

text \<open>The operations of the two classes, in this state.\<close>

lemma filter_address_reports:
  assumes "opened fd (world p)" and "inet_pton ip = Some bs" and "length bs = 4" and "u32_of_bytes bs = a" and "a \<noteq> 0"
  shows "\<exists>p'. filter_address os fd ip p = (Inr (), p') \<and>
    reporting a 0 (flt (world p')) p' \<and>
    printed (klog (flt (world p'))) = printed (klog (flt (world p))) @ [(''FIlter set to address: %pI4'', [PAddr a])]"
proof -
  obtain ad r m w' where l: "kbytes K (klog (flt (world p))) (Mem (Copy_from_user ad 4)) = bs"
    "kret K (klog (flt (world p))) (Mem (Copy_from_user ad 4)) = 0"
    "packet_ioctl K MY_IOCTL_FILTER_ADDRESS ad (flt (world p)) = (r, m)"
    "os (Sys_ioctl_ptr fd MY_IOCTL_FILTER_ADDRESS bs) (world p) = (if r < 0 then - 1 else r, w')" "flt w' = m"
    using ioctl_law [OF assms(1,3), of MY_IOCTL_FILTER_ADDRESS] by blast
  have "r = 0" "ioctl_set_address m = a"
    "printed (klog m) = printed (klog (flt (world p))) @ [(''FIlter set to address: %pI4'', [PAddr a])]"
    using l(3) [symmetric] l(1,2) assms(4) by (simp_all add: packet_ioctl_def kcall_eq Let_def log_simps)
  then show ?thesis
    using l(4,5) assms(2,5)
    by (simp add: filter_address_def sys_call_eq reporting_def) (rule exI [of _ "[]"], simp)
qed

lemma Socket_reports:
  assumes "reporting a k m p" and "Socket os p = (x, p')"
  shows "reporting a k m p' \<and> (\<forall>fd. x = Inr fd \<longrightarrow> sock fd (world p'))"
proof -
  obtain r p1 where c: "sys_call os (Sys_socket ''AF_INET'' ''SOCK_STREAM'' 0) p = (r, p1)" by fastforce
  have "reporting a k m p1" by (rule reporting_call [OF assms(1) _ c]) simp
  moreover have "sock r (world p1)" if "0 \<le> r"
    using socket_law [OF _ that, of "world p"] c by (auto simp: sys_call_eq)
  ultimately show ?thesis using assms(2) c by (auto simp: Socket_def split: if_splits)
qed

lemma connect_reports:
  assumes "reporting a k m p" and "Socket_connect os fd ip port p = (x, p')"
  shows "reporting a k m p'" "x = Inr u \<Longrightarrow> sock fd (world p) \<Longrightarrow> inet_pton ip = Some bs \<Longrightarrow> u32_of_bytes bs = a \<Longrightarrow> reporting a (Suc k) m p'"
proof -
  show "reporting a k m p'"
  proof (cases "inet_pton ip")
    case (Some sa)
    obtain r p1 where c: "sys_call os (Sys_connect fd (''AF_INET'', htons port, u32_of_bytes sa)) p = (r, p1)" by fastforce
    have "reporting a k m p1" by (rule reporting_call [OF assms(1) _ c]) simp
    then show ?thesis using assms(2) Some c by (auto simp: Socket_connect_def split: if_splits)
  qed (use assms in \<open>auto simp: Socket_connect_def\<close>)
  assume s: "x = Inr u" "sock fd (world p)" "inet_pton ip = Some bs" "u32_of_bytes bs = a"
  obtain r p1 where c: "sys_call os (Sys_connect fd (''AF_INET'', htons port, a)) p = (r, p1)" by fastforce
  then show "reporting a (Suc k) m p'"
    using reporting_connect [OF assms(1) s(2) c] assms(2) s(1,3,4) by (auto simp: Socket_connect_def split: if_splits)
qed

lemma send_reports:
  assumes "reporting a k m p" and "Socket_send os fd msg p = (x, p')"
  shows "reporting a k m p'"
proof -
  obtain r p1 where c: "sys_call os (Sys_send fd msg) p = (r, p1)" by fastforce
  have "reporting a k m p1" by (rule reporting_call [OF assms(1) _ c]) simp
  then show ?thesis using assms(2) c by (auto simp: Socket_send_def split: if_splits)
qed

lemma destroy_reports:
  assumes "reporting a k m p"
  shows "reporting a k m (Socket_destroy os fd p)" "reporting a k m (PacketDriver_destroy os fd p)"
proof -
  obtain r p1 where c: "sys_call os (Sys_close fd) p = (r, p1)" by fastforce
  have "reporting a k m p1" by (rule reporting_call [OF assms _ c]) simp
  then show "reporting a k m (Socket_destroy os fd p)" "reporting a k m (PacketDriver_destroy os fd p)"
    using assms c by (simp_all add: Socket_destroy_def PacketDriver_destroy_def)
qed

lemma uncaught_reports:
  assumes "reporting a k m p" and "\<And>x q. reporting a k m q \<Longrightarrow> reporting a k m (snd (f x q))"
  shows "reporting a k m (snd (uncaught (Socket_send os fd msg p) f))"
    and "reporting a k m (snd (uncaught (Socket_connect os fd ip port p) f))"
proof -
  obtain x q where "Socket_send os fd msg p = (x, q)" by fastforce
  then show "reporting a k m (snd (uncaught (Socket_send os fd msg p) f))"
    using send_reports [OF assms(1)] assms(2) by (cases x) (auto simp: uncaught_def)
  obtain x q where "Socket_connect os fd ip port p = (x, q)" by fastforce
  then show "reporting a k m (snd (uncaught (Socket_connect os fd ip port p) f))"
    using connect_reports(1) [OF assms(1)] assms(2) by (cases x) (auto simp: uncaught_def)
qed

lemma uncaught_socket_reports:
  assumes "reporting a k m p" and "\<And>x q. reporting a k m q \<Longrightarrow> reporting a k m (snd (f x q))"
  shows "reporting a k m (snd (uncaught (Socket os p) f))"
proof -
  obtain x q where "Socket os p = (x, q)" by fastforce
  then show ?thesis using Socket_reports [OF assms(1)] assms(2) by (cases x) (auto simp: uncaught_def)
qed

lemma rest_reports:
  assumes "reporting a k m p"
  shows "reporting a k m (snd (
     uncaught (Socket_send os socket1 msg1 p) (\<lambda>_ p.
     uncaught (Socket os p) (\<lambda>socket2 p.
     uncaught (Socket_connect os socket2 ip2 port p) (\<lambda>_ p.
     uncaught (Socket_send os socket2 msg2 p) (\<lambda>_ p.
       (Exit 0, PacketDriver_destroy os driver (Socket_destroy os socket1 (Socket_destroy os socket2 p)))))))))"
  by (intro uncaught_reports uncaught_socket_reports assms) (simp_all add: destroy_reports)

lemma main_reports:
  assumes "node w" and "packet_main os (start w) = (st, p)"
  shows "\<exists>m. printed (klog m) = printed (klog (flt w)) @ [(''FIlter set to address: %pI4'', [PAddr 0x0100007f])] \<and>
    (reporting 0x0100007f 1 m p \<or> reporting 0x0100007f 0 m p \<and>
       (st = Terminate (runtime_error ''[ERROR] Error intializing socket file descriptor'') \<or>
        st = Terminate (runtime_error ''[ERROR] connection failed'')))"
proof -
  obtain fd p1 where 1: "PacketDriver os (start w) = (Inr fd, p1)" "opened fd (world p1)" "flt (world p1) = flt w"
    using open_law [OF assms(1)] by (auto simp: PacketDriver_def sys_call_eq)
  have a: "u32_of_bytes [127, 0, 0, 1] = 0x0100007f" by (simp add: u32_of_bytes_def)
  obtain p2 where 2: "filter_address os fd ''127.0.0.1'' p1 = (Inr (), p2)" "reporting 0x0100007f 0 (flt (world p2)) p2"
    "printed (klog (flt (world p2))) = printed (klog (flt w)) @ [(''FIlter set to address: %pI4'', [PAddr 0x0100007f])]"
    using filter_address_reports [OF 1(2) loopback_addresses(1) _ a] 1(3) by auto
  obtain x p3 where 3: "Socket os p2 = (x, p3)" by fastforce
  note s3 = Socket_reports [OF 2(2) 3]
  show ?thesis
  proof (cases x)
    case (Inl e)
    then have "packet_main os (start w) = (Terminate e, p3)" using 1(1) 2(1) 3 by (simp add: packet_main_def uncaught_def)
    moreover have "e = runtime_error ''[ERROR] Error intializing socket file descriptor''"
      using 3 Inl by (auto simp: Socket_def split: prod.splits if_splits)
    ultimately show ?thesis using assms(2) s3 2(3) by auto
  next
    case (Inr s1)
    obtain y p4 where 4: "Socket_connect os s1 ''127.0.0.1'' 8080 p3 = (y, p4)" by fastforce
    show ?thesis
    proof (cases y)
      case (Inl e)
      then have "packet_main os (start w) = (Terminate e, p4)"
        using 1(1) 2(1) 3 4 \<open>x = Inr s1\<close> by (simp add: packet_main_def uncaught_def)
      moreover have "e = runtime_error ''[ERROR] connection failed''"
        using 4 Inl by (auto simp: Socket_connect_def loopback_addresses split: prod.splits if_splits)
      moreover have "reporting 0x0100007f 0 (flt (world p2)) p4" by (rule connect_reports(1) [OF conjunct1 [OF s3] 4])
      ultimately show ?thesis using assms(2) 2(3) by auto
    next
      case y: (Inr u)
      have c: "reporting 0x0100007f 1 (flt (world p2)) p4"
        using connect_reports(2) [OF conjunct1 [OF s3] 4 y _ loopback_addresses(1) a] s3 Inr by simp
      have "reporting 0x0100007f 1 (flt (world p2)) p"
        using rest_reports [OF c, of s1 "''Hello from the user space world'' @ [CHR 0x0A]" "''127.0.0.2''" 8080
            "''THIS MESSAE SHOULD NOT BE SEEN'' @ [CHR 0x0A]" fd] assms(2) 1(1) 2(1) 3 4 \<open>x = Inr s1\<close> y
        by (simp add: packet_main_def uncaught_def [of "PacketDriver os (start w)"] uncaught_def [of "(Inr z, q)" for z q])
      then show ?thesis using 2(3) by blast
    qed
  qed
qed

end

section \<open>A system\<close>

text \<open>
  A host on which a server listens at every address, or whose network is down: the user's memory is named by its contents, a \<open>connect\<close> sends one packet,
  or fails and sends none, and nothing else opens connections.
\<close>

record packet_world =
  module :: packet_module
  next_fd :: int
  reachable :: bool

definition syn_to :: "u32 \<Rightarrow> sk_buff" where
  "syn_to a = \<lparr>ip_hdr = \<lparr>protocol = 6, saddr = 0x0100007f, daddr = a\<rparr>, tcp_hdr = \<lparr>syn = True, ack = False, source = 0x50\<rparr>\<rparr>"

fun copy_bytes :: "kcall \<Rightarrow> byte list" where
  "copy_bytes (Mem (Copy_from_user (Heap r) n)) = bytes_of (word_of_int r)"
| "copy_bytes c = []"

definition host_kernel :: kernel where
  "host_kernel = \<lparr>kret = (\<lambda>h c. 0), kbytes = (\<lambda>h. copy_bytes)\<rparr>"

fun packet_os :: "packet_world os" where
  "packet_os (Sys_open path fl) w = (next_fd w, w\<lparr>next_fd := next_fd w + 1\<rparr>)"
| "packet_os (Sys_socket d t n) w = (next_fd w, w\<lparr>next_fd := next_fd w + 1\<rparr>)"
| "packet_os (Sys_ioctl_ptr fd cmd bs) w =
     (let (r, m) = packet_ioctl host_kernel cmd (Heap (uint (u32_of_bytes bs))) (module w)
      in (if r < 0 then - 1 else r, w\<lparr>module := m\<rparr>))"
| "packet_os (Sys_connect fd ad) w =
     (if reachable w then (0, w\<lparr>module := snd (packet_hook host_kernel (Some (syn_to (snd (snd ad)))) (module w))\<rparr>)
      else (- 1, w))"
| "packet_os (Sys_send fd msg) w = (int (length msg), w)"
| "packet_os c w = (0, w)"

lemma emits_none: "\<exists>skbs. m = emits K skbs m"
  by (rule exI [of _ "[]"]) (simp add: emits_def)

lemma emits_one: "\<exists>skbs. snd (packet_hook K (Some skb) m) = emits K skbs m \<and> skb \<in> set skbs"
  by (rule exI [of _ "[skb]"]) (simp add: emits_def)

lemma reported_syn_to: "reported a (syn_to a)"
  by (simp add: reported_def syn_to_def opens_connection_def IPPROTO_TCP_def)

interpretation host: packet_host packet_os "\<lambda>w. 0 \<le> next_fd w" "\<lambda>fd w. True" "\<lambda>fd w. True" module host_kernel
proof unfold_locales
  show "\<exists>fd w'. packet_os (Sys_open PATH ''O_RDONLY'') w = (fd, w') \<and> 0 \<le> fd \<and> True \<and> module w' = module w"
    if "0 \<le> next_fd w" for w using that by simp
  show "\<exists>a r m w'. kbytes host_kernel (klog (module w)) (Mem (Copy_from_user a 4)) = bs \<and>
      kret host_kernel (klog (module w)) (Mem (Copy_from_user a 4)) = 0 \<and> packet_ioctl host_kernel cmd a (module w) = (r, m) \<and>
      packet_os (Sys_ioctl_ptr fd cmd bs) w = (if r < 0 then - 1 else r, w') \<and> module w' = m" if "length bs = 4" for fd w bs cmd
    using bytes_of_u32 [OF that]
    by (intro exI [of _ "Heap (uint (u32_of_bytes bs))"]) (auto simp: host_kernel_def split: prod.split)
  show "\<exists>skbs. module (snd (packet_os c w)) = emits host_kernel skbs (module w)"
    if "c \<in> {Sys_socket d t n, Sys_connect fd ad, Sys_send fd msg, Sys_close fd}" for c d t n fd ad msg w
    using that emits_none emits_one by (auto, metis)
  show "\<exists>skbs. module w' = emits host_kernel skbs (module w) \<and> (\<exists>skb\<in>set skbs. reported a skb)"
    if "packet_os (Sys_connect fd (''AF_INET'', port, a)) w = (r, w')" "0 \<le> r" for fd w port a r w'
    using that emits_one [of host_kernel "syn_to a" "module w"] reported_syn_to [of a] by (auto split: if_splits)
qed simp

section \<open>Descriptors\<close>

lemma uncaught_Exit: "uncaught M f = (Exit st, p) \<longleftrightarrow> (\<exists>x q. M = (Inr x, q) \<and> f x q = (Exit st, p))"
  by (auto simp: uncaught_def split: prod.split sum.split)

lemma PacketDriver_open: "PacketDriver os p = (Inr fd, p') \<Longrightarrow> 0 \<le> fd \<and> still_open (syslog p') = fd # still_open (syslog p)"
  by (auto simp: PacketDriver_def sys_call_eq split: if_splits)

lemma Socket_open: "Socket os p = (Inr fd, p') \<Longrightarrow> 0 \<le> fd \<and> still_open (syslog p') = fd # still_open (syslog p)"
  by (auto simp: Socket_def sys_call_eq split: if_splits)

lemma filter_address_open: "filter_address os fd ip p = (Inr u, p') \<Longrightarrow> still_open (syslog p') = still_open (syslog p)"
  by (auto simp: filter_address_def sys_call_eq split: if_splits option.splits)

lemma connect_open: "Socket_connect os fd ip port p = (Inr u, p') \<Longrightarrow> still_open (syslog p') = still_open (syslog p)"
  by (auto simp: Socket_connect_def sys_call_eq split: if_splits option.splits)

lemma send_open: "Socket_send os fd msg p = (Inr u, p') \<Longrightarrow> still_open (syslog p') = still_open (syslog p)"
  by (auto simp: Socket_send_def sys_call_eq split: if_splits)

lemma destroy_open:
  "0 \<le> fd \<Longrightarrow> still_open (syslog (Socket_destroy os fd p)) = remove1 fd (still_open (syslog p))"
  "0 \<le> fd \<Longrightarrow> still_open (syslog (PacketDriver_destroy os fd p)) = remove1 fd (still_open (syslog p))"
  by (simp_all add: Socket_destroy_def PacketDriver_destroy_def sys_call_eq)

section \<open>Theorems\<close>

text \<open>
  C16: The test program and the module together: whatever the other end does, and wherever the program stops, the filter is set to 127.0.0.1 and every
  connection the module reports is one to that address; the one to 127.0.0.2 never is. A connection is reported if the program's own
  connection to 127.0.0.1 succeeded: if none is, the program has stopped because it got no socket or because that connection failed.
\<close>

theorem packet_user_reports_only_filtered:
  assumes "packet_host os node opened sock flt K" and "node w" and "packet_main os (start w) = (st, p)"
  shows "ioctl_set_address (flt (world p)) = 0x0100007f \<and>
    (\<exists>rs. printed (klog (flt (world p))) =
        printed (klog (flt w)) @ (''FIlter set to address: %pI4'', [PAddr 0x0100007f]) # concat (map report rs) \<and>
      (\<forall>skb\<in>set rs. opens_connection skb \<and> daddr (ip_hdr skb) = 0x0100007f) \<and>
      (rs = [] \<longrightarrow> st = Terminate (runtime_error ''[ERROR] Error intializing socket file descriptor'') \<or>
        st = Terminate (runtime_error ''[ERROR] connection failed'')))"
proof -
  obtain m k where "printed (klog m) = printed (klog (flt w)) @ [(''FIlter set to address: %pI4'', [PAddr 0x0100007f])]"
    "packet_host.reporting flt 0x0100007f k m p"
    "k = 1 \<or> st = Terminate (runtime_error ''[ERROR] Error intializing socket file descriptor'') \<or>
      st = Terminate (runtime_error ''[ERROR] connection failed'')"
    using packet_host.main_reports [OF assms] by blast
  then show ?thesis unfolding packet_host.reporting_def [OF assms(1)] reported_def by fastforce
qed

text \<open>
  C21: When the program returns normally, it has closed every descriptor it obtained, whatever the system answers: the device and the two
  sockets, by the destructors.
\<close>

theorem packet_user_closes_descriptors:
  assumes "packet_main os (start w) = (Exit st, p)"
  shows "st = 0 \<and> still_open (syslog p) = []"
  using assms unfolding packet_main_def uncaught_Exit
  by (clarsimp dest!: PacketDriver_open Socket_open filter_address_open connect_open send_open simp: destroy_open)

text \<open>\<open>inet_pton\<close> reads back every address in dotted notation, byte by byte.\<close>

lemma filter_address_any:
  assumes "packet_host os node opened sock flt K" and "opened fd (world p)" and "u32_of_bytes [a, b, c, d] \<noteq> 0"
  shows "\<exists>p'. filter_address os fd (dotted (a, b, c, d)) p = (Inr (), p') \<and>
    ioctl_set_address (flt (world p')) = u32_of_bytes [a, b, c, d]"
  using packet_host.filter_address_reports [OF assms(1,2) inet_pton_dotted _ refl assms(3)]
  by (auto simp: packet_host.reporting_def [OF assms(1)])

section \<open>Witnesses\<close>

definition host_world :: packet_world where "host_world = \<lparr>module = packet_module0, next_fd = 3, reachable = True\<rparr>"

definition up :: "packet_world \<Rightarrow> bool" where "up w \<longleftrightarrow> 0 \<le> next_fd w \<and> reachable w"

definition succeeds :: "(exn + 'a) \<times> packet_world process \<Rightarrow> bool" where
  "succeeds m \<longleftrightarrow> (\<exists>x q. m = (Inr x, q) \<and> up (world q))"

lemma succeeds_uncaught:
  "succeeds M \<Longrightarrow> (\<And>x q. up (world q) \<Longrightarrow> \<exists>p. f x q = (Exit 0, p)) \<Longrightarrow> \<exists>p. uncaught M f = (Exit 0, p)"
  by (auto simp: succeeds_def uncaught_def)

lemma host_succeeds:
  assumes "up (world p)"
  shows "succeeds (PacketDriver packet_os p)" "succeeds (Socket packet_os p)" "succeeds (Socket_send packet_os fd msg p)"
    "inet_pton ip = Some bs \<Longrightarrow> succeeds (Socket_connect packet_os fd ip port p)"
    "inet_pton ip = Some bs \<Longrightarrow> succeeds (filter_address packet_os fd ip p)"
  using assms
  by (simp_all add: succeeds_def up_def PacketDriver_def Socket_def Socket_send_def Socket_connect_def filter_address_def sys_call_eq
      packet_ioctl_def host_kernel_def kcall_eq Let_def)

lemma host_main_returns: "\<exists>p. packet_main packet_os (start host_world) = (Exit 0, p)"
  unfolding packet_main_def
  by (intro succeeds_uncaught host_succeeds exI) (simp_all add: host_world_def up_def loopback_addresses)

theorem packet_user_reports_only_filtered_witness:
  "\<exists>p rs. packet_main packet_os (start host_world) = (Exit 0, p) \<and> ioctl_set_address (module (world p)) = 0x0100007f \<and>
     printed (klog (module (world p))) = (''FIlter set to address: %pI4'', [PAddr 0x0100007f]) # concat (map report rs) \<and> rs \<noteq> []"
proof -
  obtain p where p: "packet_main packet_os (start host_world) = (Exit 0, p)" using host_main_returns by blast
  have w: "0 \<le> next_fd host_world" "printed (klog (module host_world)) = []"
    by (simp_all add: host_world_def packet_module0_def printed_def)
  show ?thesis using packet_user_reports_only_filtered [OF host.packet_host_axioms w(1) p] p w(2) by auto
qed

theorem packet_user_closes_descriptors_witness:
  "\<exists>p. packet_main packet_os (start host_world) = (Exit 0, p) \<and> still_open (syslog p) = []"
proof -
  obtain p where p: "packet_main packet_os (start host_world) = (Exit 0, p)" using host_main_returns by blast
  show ?thesis using packet_user_closes_descriptors [OF p] p by simp
qed

end
