(* ===== verification/Pages.thy ===== *)
theory Pages
  imports Kernel
begin

text \<open>
  Pages and memory areas as the two mapping drivers see them. The page size is that of the target, \<open>2 ^ psh\<close>
  bytes; a virtual memory area is given by its first address and the first address after it.
\<close>

definition PAGE_SIZE :: "nat \<Rightarrow> nat" where "PAGE_SIZE psh = 2 ^ psh"

record vm_area_struct =
  vm_start :: ulong
  vm_end :: ulong

text \<open>The page frames handed to \<open>remap_pfn_range\<close>, in order: user address, frame and length.\<close>

fun remap :: "kcall \<times> int \<Rightarrow> (ulong \<times> ulong \<times> ulong) list" where
  "remap (Page (Remap_pfn_range a f n), r) = [(a, f, n)]"
| "remap _ = []"

definition remaps :: "klog \<Rightarrow> (ulong \<times> ulong \<times> ulong) list" where
  "remaps h = concat (map remap h)"

lemma remaps_kdo [log_simps]: "remaps (klog (kdo K c s)) = remaps (klog s) @ remap (c, kret K (klog s) c)"
  by (simp add: remaps_def kdo_klog)

lemma PAGE_SIZE_pos: "0 < PAGE_SIZE psh"
  by (simp add: PAGE_SIZE_def)

lemma unat_PAGE_SIZE: "psh < 64 \<Longrightarrow> unat (of_nat (PAGE_SIZE psh) :: ulong) = PAGE_SIZE psh"
  using power_strict_increasing [of psh 64 "2 :: nat"]
  by (simp add: PAGE_SIZE_def unat_of_nat take_bit_nat_eq_self del: of_nat_power)

lemma unat_of_nat_64: "n < 2 ^ 64 \<Longrightarrow> unat (of_nat n :: ulong) = n"
  by (simp add: unat_of_nat take_bit_nat_eq_self)

end
