(* ===== verification/Memory.thy ===== *)
theory Memory
  imports Pages Module_contract
begin

unbundle bit_operations_syntax

text \<open>
  The memory-mapping driver, \<open>Drivers/memory/kernel/memory.c\<close>: it allocates a block, aligns it to a page boundary,
  marks its pages and maps them to user space on request. Addresses are 64-bit numbers, as the code computes with
  them; the page size is that of the target, \<open>2 ^ psh\<close>. A store outside the allocated block is an oops.
\<close>

section \<open>Definitions\<close>

definition MEM_MAJOR_NUMBER :: nat where "MEM_MAJOR_NUMBER = 42"
definition MEM_MINOR_NUMBER :: nat where "MEM_MINOR_NUMBER = 0"
definition MEM_NUM_MINORS :: nat where "MEM_NUM_MINORS = 1"
definition MEM_MODULE_NAME :: string where "MEM_MODULE_NAME = ''memory_driver''"
definition NPAGES :: nat where "NPAGES = 3"

record mem_module = kstate +
  kmalloc_ptr :: ptr
  kmalloc_area :: ulong
  kmem :: "ulong \<Rightarrow> byte"

definition mem_module0 :: mem_module where
  "mem_module0 = \<lparr>klog = [], kmalloc_ptr = Null, kmalloc_area = 0, kmem = (\<lambda>a. 0)\<rparr>"

definition mem_dev_addr :: "nat \<Rightarrow> ptr" where "mem_dev_addr i = Static ''memory.devs'' i ''''"

definition PAGE_ALIGN :: "nat \<Rightarrow> ulong \<Rightarrow> ulong" where
  "PAGE_ALIGN psh a = (a + (of_nat (PAGE_SIZE psh) - 1)) AND NOT (of_nat (PAGE_SIZE psh) - 1)"

definition logg :: "kernel \<Rightarrow> string \<Rightarrow> mem_module \<Rightarrow> mem_module" where
  "logg K txt s = kdo K (Print (Pr_info ''[LOG]: %s'' [PStr txt])) s"

definition memory_mmap :: "nat \<Rightarrow> kernel \<Rightarrow> vm_area_struct \<Rightarrow> mem_module \<Rightarrow> int \<times> mem_module" where
  "memory_mmap psh K vma s =
     (let sz = vm_end vma - vm_start vma in
      if sz > of_nat (NPAGES * PAGE_SIZE psh) then (- EIO, s)
      else
        let (r, s) = kcall K (Page (Virt_to_phys (kmalloc_area s))) s;
            pfn = drop_bit psh (word_of_int r)
        in kcall K (Page (Remap_pfn_range (vm_start vma) pfn sz)) s)"

definition memory_open :: "kernel \<Rightarrow> inode \<Rightarrow> kfile \<Rightarrow> mem_module \<Rightarrow> int \<times> kfile \<times> mem_module" where
  "memory_open K inode file s =
     (let s = logg K ''memory_open called'' s in (0, file\<lparr>private_data := i_cdev inode\<rparr>, s))"

text \<open>The address of the \<open>n\<close>-th byte of the aligned area.\<close>

definition area_addr :: "nat \<Rightarrow> mem_module \<Rightarrow> ulong" where
  "area_addr n s = kmalloc_area s + of_nat n"

text \<open>
  The number of bytes of the block at \<open>p\<close>: what the last \<open>kmalloc\<close> that returned \<open>p\<close> was asked for, and 0 once the block has been freed.
  An address is inside the block if it is among these bytes.
\<close>

fun len_step :: "ptr \<Rightarrow> nat \<Rightarrow> kcall \<times> int \<Rightarrow> nat" where
  "len_step p n (Mem (Kmalloc m f), r) = (if r \<noteq> 0 \<and> p = Heap r then m else n)"
| "len_step p n (Mem (Kfree q), r) = (if q = p then 0 else n)"
| "len_step p n c = n"

definition block_len :: "ptr \<Rightarrow> klog \<Rightarrow> nat" where "block_len p h = foldl (len_step p) 0 h"

definition in_block :: "klog \<Rightarrow> ptr \<Rightarrow> ulong \<Rightarrow> bool" where
  "in_block h p a \<longleftrightarrow> (case p of Heap r \<Rightarrow> r \<le> uint a \<and> uint a < r + int (block_len p h) | _ \<Rightarrow> False)"

definition poke :: "nat \<Rightarrow> byte \<Rightarrow> mem_module \<Rightarrow> mem_module option" where
  "poke n b s =
     (if in_block (klog s) (kmalloc_ptr s) (area_addr n s)
      then Some (s\<lparr>kmem := (kmem s)(area_addr n s := b)\<rparr>) else None)"

fun write_magic :: "nat \<Rightarrow> nat list \<Rightarrow> mem_module \<Rightarrow> mem_module option" where
  "write_magic psh [] s = Some s"
| "write_magic psh (i # is) s = do {
     s \<leftarrow> poke (i * PAGE_SIZE psh + 0) 0xaa s;
     s \<leftarrow> poke (i * PAGE_SIZE psh + 1) 0xbb s;
     s \<leftarrow> poke (i * PAGE_SIZE psh + 2) 0xcc s;
     s \<leftarrow> poke (i * PAGE_SIZE psh + 3) 0xdd s;
     write_magic psh is s
   }"

definition mydriver_init :: "nat \<Rightarrow> kernel \<Rightarrow> mem_module \<Rightarrow> (int \<times> mem_module) option" where
  "mydriver_init psh K s = do {
     let s = logg K ''memory driver has been loaded'' s;
     let (res, s) = kcall K (Chrdev (Register_chrdev_region
           (MKDEV MEM_MAJOR_NUMBER MEM_MINOR_NUMBER) MEM_NUM_MINORS MEM_MODULE_NAME)) s;
     if res \<noteq> 0 then Some (res, kdo K (Print (Pr_debug ''[ERROR] failed to allocate char device region'' [])) s)
     else do {
       let s = fold (\<lambda>i s.
             kdo K (Chrdev (Cdev_add (mem_dev_addr i) (MKDEV MEM_MAJOR_NUMBER MEM_MINOR_NUMBER) 1))
               (kdo K (Chrdev (Cdev_init (mem_dev_addr i) ''dev_fops'')) s)) [0..<MEM_NUM_MINORS] s;
       let (r, s) = kcall K (Mem (Kmalloc ((NPAGES + 1) * PAGE_SIZE psh) ''GFP_KERNEL'')) s;
       let s = s\<lparr>kmalloc_ptr := ptr_of r\<rparr>;
       if kmalloc_ptr s = Null then Some (- ENOMEM, s)
       else do {
         let s = s\<lparr>kmalloc_area := PAGE_ALIGN psh (word_of_int r)\<rparr>;
         let s = fold (\<lambda>i s. kdo K (Page (SetPageReserved (area_addr (i * PAGE_SIZE psh) s))) s) [0..<NPAGES] s;
         s \<leftarrow> write_magic psh [0..<NPAGES] s;
         Some (res, s)
       }
     }
   }"

definition mydriver_exit :: "nat \<Rightarrow> kernel \<Rightarrow> mem_module \<Rightarrow> mem_module" where
  "mydriver_exit psh K s =
     (let s = kdo K (Print (Pr_info ''[LOG] memory driver exited'' [])) s;
          s = fold (\<lambda>i. kdo K (Chrdev (Cdev_del (mem_dev_addr i)))) [0..<MEM_NUM_MINORS] s;
          s = kdo K (Chrdev (Unregister_chrdev_region (MKDEV MEM_MAJOR_NUMBER MEM_MINOR_NUMBER) MEM_NUM_MINORS)) s;
          s = fold (\<lambda>i s. kdo K (Page (ClearPageReserved (area_addr (i * PAGE_SIZE psh) s))) s) [0..<NPAGES] s
      in kdo K (Mem (Kfree (kmalloc_ptr s))) s)"

section \<open>Alignment\<close>

lemma unat_and_not_mask: "unat (w AND NOT (mask n)) = unat w div 2 ^ n * 2 ^ n" for w :: ulong
proof -
  have "w AND NOT (mask n) = push_bit n (drop_bit n w)"
    by (rule bit_word_eqI) (auto simp: bit_simps)
  moreover have "unat (push_bit n (drop_bit n w)) = push_bit n (drop_bit n (unat w))"
    by (rule bit_eqI) (auto simp: bit_simps dest: bit_imp_le_length)
  ultimately show ?thesis by (simp add: push_bit_eq_mult drop_bit_eq_div)
qed

lemma unat_PAGE_ALIGN:
  assumes "unat a + PAGE_SIZE psh \<le> 2 ^ 64" and "psh < 64"
  shows "unat (PAGE_ALIGN psh a) = (unat a + PAGE_SIZE psh - 1) div PAGE_SIZE psh * PAGE_SIZE psh"
proof -
  have m: "(of_nat (PAGE_SIZE psh) - 1 :: ulong) = mask psh" by (simp add: PAGE_SIZE_def mask_eq_exp_minus_1)
  have "unat (mask psh :: ulong) = mask psh"
    using assms(2) by (intro bit_eqI) (auto simp: bit_simps)
  then have "unat (mask psh :: ulong) = PAGE_SIZE psh - 1" by (simp add: PAGE_SIZE_def mask_nat_def)
  moreover have "0 < PAGE_SIZE psh" by (simp add: PAGE_SIZE_def)
  ultimately have "unat (a + mask psh) = unat a + PAGE_SIZE psh - 1"
    using assms(1) by (subst unat_plus_if') simp
  then show ?thesis unfolding PAGE_ALIGN_def m unat_and_not_mask by (simp add: PAGE_SIZE_def)
qed

lemma align_up:
  assumes "0 < (q :: nat)"
  shows "n \<le> (n + q - 1) div q * q" "(n + q - 1) div q * q < n + q"
proof -
  let ?k = "(n + q - 1) div q"
  have "?k * q + (n + q - 1) mod q = n + q - 1" by (rule div_mult_mod_eq)
  moreover have "(n + q - 1) mod q < q" using assms by simp
  ultimately show "n \<le> ?k * q" "?k * q < n + q" using assms by linarith+
qed

section \<open>The block and its aligned area\<close>

text \<open>\<open>block_at psh r\<close>: the allocator gave the block at \<open>r\<close>, inside the address space.\<close>

definition block_at :: "nat \<Rightarrow> int \<Rightarrow> bool" where
  "block_at psh r \<longleftrightarrow> 0 < r \<and> r + int ((NPAGES + 1) * PAGE_SIZE psh) \<le> 2 ^ 64 \<and> 2 \<le> psh \<and> psh < 64"

lemma area_bounds:
  assumes "block_at psh r" and "a = PAGE_ALIGN psh (word_of_int r)"
  shows "PAGE_SIZE psh dvd unat a" "r \<le> uint a" "uint a + int (NPAGES * PAGE_SIZE psh) \<le> r + int ((NPAGES + 1) * PAGE_SIZE psh)"
proof -
  have P: "0 < PAGE_SIZE psh" by (simp add: PAGE_SIZE_def)
  have "r < 2 ^ 64" "0 < r" using assms(1) P by (auto simp: block_at_def NPAGES_def)
  then have r: "unat (word_of_int r :: ulong) = nat r"
    by (simp add: unat_eq_nat_uint uint_word_of_int_eq take_bit_int_eq_self)
  have "int (nat r + PAGE_SIZE psh) \<le> int (2 ^ 64)" using assms(1) P by (simp add: block_at_def NPAGES_def)
  then have "nat r + PAGE_SIZE psh \<le> 2 ^ 64" by (simp only: of_nat_le_iff)
  then have a: "unat a = (nat r + PAGE_SIZE psh - 1) div PAGE_SIZE psh * PAGE_SIZE psh"
    using unat_PAGE_ALIGN [of "word_of_int r" psh] assms r by (simp add: block_at_def)
  then show "PAGE_SIZE psh dvd unat a" by simp
  have "nat r \<le> unat a" "unat a < nat r + PAGE_SIZE psh" using align_up [OF P, of "nat r"] a by simp_all
  then show "r \<le> uint a" "uint a + int (NPAGES * PAGE_SIZE psh) \<le> r + int ((NPAGES + 1) * PAGE_SIZE psh)"
    using \<open>0 < r\<close> uint_nat [of a] by (simp_all add: NPAGES_def del: of_nat_unat)
qed

text \<open>A state whose area is the aligned block at \<open>r\<close>.\<close>

definition has_block :: "nat \<Rightarrow> int \<Rightarrow> mem_module \<Rightarrow> bool" where
  "has_block psh r s \<longleftrightarrow> block_at psh r \<and> kmalloc_ptr s = Heap r \<and> kmalloc_area s = PAGE_ALIGN psh (word_of_int r)"

text \<open>The block is as long as the area and its alignment need.\<close>

definition long_block :: "nat \<Rightarrow> mem_module \<Rightarrow> bool" where
  "long_block psh s \<longleftrightarrow> (NPAGES + 1) * PAGE_SIZE psh \<le> block_len (kmalloc_ptr s) (klog s)"

lemma block_len_kdo [log_simps]:
  "block_len p (klog (kdo K c s)) = len_step p (block_len p (klog s)) (c, kret K (klog s) c)"
  by (simp add: block_len_def kdo_klog)

lemma area_addr_uint:
  assumes "has_block psh r s" and "n < NPAGES * PAGE_SIZE psh"
  shows "uint (area_addr n s) = uint (kmalloc_area s) + int n"
    and "long_block psh s \<Longrightarrow> in_block (klog s) (kmalloc_ptr s) (area_addr n s)"
proof -
  have b: "block_at psh r" "kmalloc_area s = PAGE_ALIGN psh (word_of_int r)" using assms(1) by (simp_all add: has_block_def)
  note ab = area_bounds [OF b]
  have lt: "uint (kmalloc_area s) + int n < 2 ^ 64" using ab(3) assms(2) b(1) unfolding block_at_def by linarith
  then have "int n < 2 ^ 64" using uint_ge_0 [of "kmalloc_area s"] by linarith
  then have "uint (of_nat n :: ulong) = int n"
    by (simp add: uint_nat unat_of_nat take_bit_nat_eq_self)
  then show *: "uint (area_addr n s) = uint (kmalloc_area s) + int n"
    unfolding area_addr_def using lt by (subst uint_plus_if') simp
  show "in_block (klog s) (kmalloc_ptr s) (area_addr n s)" if l: "long_block psh s"
  proof -
    have "int ((NPAGES + 1) * PAGE_SIZE psh) \<le> int (block_len (Heap r) (klog s))" "kmalloc_ptr s = Heap r"
      using l assms(1) by (simp_all only: of_nat_le_iff long_block_def has_block_def)
    then show ?thesis using ab(2,3) * assms(2) unfolding in_block_def by (simp del: of_nat_mult)
  qed
qed

lemma area_addr_inj:
  assumes "has_block psh r s" and "n < NPAGES * PAGE_SIZE psh" and "m < NPAGES * PAGE_SIZE psh"
  shows "area_addr n s = area_addr m s \<longleftrightarrow> n = m"
  using area_addr_uint(1) [OF assms(1,2)] area_addr_uint(1) [OF assms(1,3)] by (auto simp: word_uint_eq_iff)

lemma poke_in:
  assumes "has_block psh r s" and "long_block psh s" and "n < NPAGES * PAGE_SIZE psh"
  shows "poke n b s = Some (s\<lparr>kmem := (kmem s)(area_addr n s := b)\<rparr>)"
  using area_addr_uint(2) [OF assms(1,3,2)] by (simp add: poke_def)

lemma has_block_kmem [simp]:
  "has_block psh r (s\<lparr>kmem := m\<rparr>) = has_block psh r s" "area_addr n (s\<lparr>kmem := m\<rparr>) = area_addr n s"
  "long_block psh (s\<lparr>kmem := m\<rparr>) = long_block psh s"
  by (simp_all add: has_block_def area_addr_def long_block_def)

lemma has_block_kdo [simp]:
  "has_block psh r (kdo K c s) = has_block psh r s" "area_addr n (kdo K c s) = area_addr n s"
  "kmalloc_ptr (kdo K c s) = kmalloc_ptr s" "kmalloc_area (kdo K c s) = kmalloc_area s" "kmem (kdo K c s) = kmem s"
  by (simp_all add: has_block_def area_addr_def kdo_eq)

definition magic :: "byte list" where "magic = [0xaa, 0xbb, 0xcc, 0xdd]"

text \<open>The markers of the pages \<open>js\<close> are in place.\<close>

definition marked :: "nat \<Rightarrow> nat list \<Rightarrow> mem_module \<Rightarrow> bool" where
  "marked psh js s \<longleftrightarrow> (\<forall>i\<in>set js. \<forall>k<4. kmem s (area_addr (i * PAGE_SIZE psh + k) s) = magic ! k)"

lemma page_offset_eq:
  assumes "k < 4" "l < 4" "4 \<le> (q :: nat)"
  shows "i * q + k = j * q + l \<longleftrightarrow> i = j \<and> k = l"
proof
  assume "i * q + k = j * q + l"
  then have "(i * q + k) div q = (j * q + l) div q" "(i * q + k) mod q = (j * q + l) mod q" by simp_all
  then show "i = j \<and> k = l" using assms by simp
qed simp

lemma write_magic_ok:
  assumes "has_block psh r s" and "set js \<subseteq> {..<NPAGES}" and "marked psh ds s" and "set ds \<subseteq> {..<NPAGES}" and "long_block psh s"
  shows "\<exists>m. write_magic psh js s = Some (s\<lparr>kmem := m\<rparr>) \<and> marked psh (ds @ js) (s\<lparr>kmem := m\<rparr>)"
  using assms
proof (induction js arbitrary: s ds)
  case Nil
  have "s\<lparr>kmem := kmem s\<rparr> = s" by simp
  then show ?case using Nil by (intro exI [of _ "kmem s"]) (simp only: write_magic.simps append_Nil2)
next
  case (Cons i js)
  have P: "4 \<le> PAGE_SIZE psh"
    using Cons.prems(1) power_increasing [of 2 psh "2 :: nat"] by (simp add: has_block_def block_at_def PAGE_SIZE_def)
  have lt: "j * PAGE_SIZE psh + k < NPAGES * PAGE_SIZE psh" if "j < NPAGES" "k < 4" for j k
  proof -
    have "(j + 1) * PAGE_SIZE psh \<le> NPAGES * PAGE_SIZE psh" using that(1) by (intro mult_le_mono1) simp
    then show ?thesis using that(2) P by simp
  qed
  define m where "m = (kmem s)(area_addr (i * PAGE_SIZE psh) s := 0xaa, area_addr (i * PAGE_SIZE psh + 1) s := 0xbb,
    area_addr (i * PAGE_SIZE psh + 2) s := 0xcc, area_addr (i * PAGE_SIZE psh + 3) s := (0xdd :: byte))"
  let ?s = "s\<lparr>kmem := m\<rparr>"
  have i: "i < NPAGES" using Cons.prems(2) by simp
  have "poke (i * PAGE_SIZE psh + k) b (s\<lparr>kmem := f\<rparr>) =
      Some (s\<lparr>kmem := f(area_addr (i * PAGE_SIZE psh + k) s := b)\<rparr>)" if "k < 4" for k b f
    using poke_in [of psh r "s\<lparr>kmem := f\<rparr>", OF _ _ lt [OF i that]] Cons.prems(1,5) by simp
  note pk = this [of 0, simplified] this [of 1] this [of 2] this [of 3]
  have "s = s\<lparr>kmem := kmem s\<rparr>" by simp
  then have "poke (i * PAGE_SIZE psh) 0xaa s =
      Some (s\<lparr>kmem := (kmem s)(area_addr (i * PAGE_SIZE psh) s := 0xaa)\<rparr>)" by (metis pk(1))
  then have "write_magic psh (i # js) s = write_magic psh js ?s"
    using pk(2-4) by (simp add: m_def)
  moreover have "marked psh (ds @ [i]) ?s"
    unfolding marked_def
  proof (intro ballI allI impI)
    fix j k :: nat assume j: "j \<in> set (ds @ [i])" and k: "k < 4"
    then have jn: "j < NPAGES" using Cons.prems(4) i by auto
    have eq: "area_addr (j * PAGE_SIZE psh + k) s = area_addr (i * PAGE_SIZE psh + l) s \<longleftrightarrow> j = i \<and> k = l" if "l < 4" for l
      using area_addr_inj [OF Cons.prems(1) lt [OF jn k] lt [OF i that]] page_offset_eq [OF k that P] by simp
    have "kmem ?s (area_addr (j * PAGE_SIZE psh + k) s) =
        (if j = i then magic ! k else kmem s (area_addr (j * PAGE_SIZE psh + k) s))"
      using k eq [of 0] eq [of 1] eq [of 2] eq [of 3] unfolding m_def magic_def
      by (auto simp: numeral_eq_Suc less_Suc_eq)
    then show "kmem ?s (area_addr (j * PAGE_SIZE psh + k) ?s) = magic ! k"
      using Cons.prems(3) j k by (auto simp: marked_def)
  qed
  ultimately show ?case
    using Cons.IH [of ?s "ds @ [i]"] Cons.prems i by simp
qed

section \<open>Loading and unloading\<close>

text \<open>
  The answers on which a load succeeds: the device number is free, the device is added, and the allocator gives
  the block at \<open>r\<close>.
\<close>

definition mem_answers :: "nat \<Rightarrow> int \<Rightarrow> kernel \<Rightarrow> bool" where
  "mem_answers psh r K \<longleftrightarrow>
     (\<forall>h d n nm. kret K h (Chrdev (Register_chrdev_region d n nm)) = 0) \<and>
     (\<forall>h c d n. kret K h (Chrdev (Cdev_add c d n)) = 0) \<and>
     (\<forall>h n f. kret K h (Mem (Kmalloc n f)) = r) \<and> block_at psh r"

lemma mem_answersD:
  assumes "mem_answers psh r K"
  shows "kret K h (Chrdev (Register_chrdev_region d n nm)) = 0" "kret K h (Chrdev (Cdev_add c d n)) = 0"
    "kret K h (Mem (Kmalloc i f)) = r" "block_at psh r" "r \<noteq> 0"
  using assms unfolding mem_answers_def block_at_def by blast+

lemma upt_pages: "[0..<NPAGES] = [0, 1, 2]" "[0..<MEM_NUM_MINORS] = [0]"
  by (simp_all add: NPAGES_def MEM_NUM_MINORS_def numeral_3_eq_3 numeral_2_eq_2)

lemmas mem_load_simps = mydriver_init_def logg_def kcall_eq upt_pages

text \<open>What a successful load leaves in the state, but for the contents of the pages.\<close>

definition mem_loaded :: "nat \<Rightarrow> kernel \<Rightarrow> mem_module \<Rightarrow> mem_module" where
  "mem_loaded psh K s =
     (let s = logg K ''memory driver has been loaded'' s;
          s = kdo K (Chrdev (Register_chrdev_region
                (MKDEV MEM_MAJOR_NUMBER MEM_MINOR_NUMBER) MEM_NUM_MINORS MEM_MODULE_NAME)) s;
          s = kdo K (Chrdev (Cdev_init (mem_dev_addr 0) ''dev_fops'')) s;
          s = kdo K (Chrdev (Cdev_add (mem_dev_addr 0) (MKDEV MEM_MAJOR_NUMBER MEM_MINOR_NUMBER) 1)) s;
          c = Mem (Kmalloc ((NPAGES + 1) * PAGE_SIZE psh) ''GFP_KERNEL'');
          r = kret K (klog s) c;
          s = (kdo K c s)\<lparr>kmalloc_ptr := ptr_of r, kmalloc_area := PAGE_ALIGN psh (word_of_int r)\<rparr>
      in fold (\<lambda>i s. kdo K (Page (SetPageReserved (area_addr (i * PAGE_SIZE psh) s))) s) [0..<NPAGES] s)"

lemma mydriver_init_magic:
  assumes "mem_answers psh r K"
  shows "mydriver_init psh K s = Option.bind (write_magic psh [0..<NPAGES] (mem_loaded psh K s)) (\<lambda>s. Some (0, s))"
  by (simp add: mydriver_init_def mem_loaded_def Let_def kcall_eq mem_answersD [OF assms] upt_pages)

text \<open>The block of a loaded driver has the length the driver asked for.\<close>

lemma mem_loaded_len:
  assumes "mem_answers psh r K"
  shows "(Mem (Kmalloc ((NPAGES + 1) * PAGE_SIZE psh) ''GFP_KERNEL''), r) \<in> set (drop (length (klog s)) (klog (mem_loaded psh K s)))"
    and "block_len (kmalloc_ptr (mem_loaded psh K s)) (klog (mem_loaded psh K s)) = (NPAGES + 1) * PAGE_SIZE psh"
  by (simp add: mem_loaded_def Let_def upt_pages kdo_klog logg_def mem_answersD [OF assms])
    (simp add: mem_loaded_def Let_def upt_pages block_len_kdo mem_answersD [OF assms])

lemma mydriver_init_loaded:
  assumes "mem_answers psh r K"
  shows "\<exists>m. mydriver_init psh K s = Some (0, (mem_loaded psh K s)\<lparr>kmem := m\<rparr>) \<and>
    has_block psh r ((mem_loaded psh K s)\<lparr>kmem := m\<rparr>) \<and> marked psh [0..<NPAGES] ((mem_loaded psh K s)\<lparr>kmem := m\<rparr>)"
proof -
  have "has_block psh r (mem_loaded psh K s)"
    by (simp add: mem_loaded_def Let_def logg_def has_block_def upt_pages mem_answersD [OF assms])
  moreover have "long_block psh (mem_loaded psh K s)" unfolding long_block_def mem_loaded_len(2) [OF assms] by simp
  ultimately obtain m where m: "write_magic psh [0..<NPAGES] (mem_loaded psh K s) = Some ((mem_loaded psh K s)\<lparr>kmem := m\<rparr>)"
      "marked psh ([] @ [0..<NPAGES]) ((mem_loaded psh K s)\<lparr>kmem := m\<rparr>)" "has_block psh r (mem_loaded psh K s)"
    using write_magic_ok [of psh r "mem_loaded psh K s" "[0..<NPAGES]" "[]"] by (auto simp: marked_def atLeast0LessThan)
  then show ?thesis using mydriver_init_magic [OF assms, of s] by (intro exI [of _ m]) simp
qed

text \<open>The resources after the load, the last one first.\<close>

lemma acct_mem_loaded:
  assumes "mem_answers psh r K" and "acct (klog s) = ([], bs)"
  shows "acct (klog (mem_loaded psh K s)) =
    ([RReserved (area_addr (2 * PAGE_SIZE psh) (mem_loaded psh K s)), RReserved (area_addr (PAGE_SIZE psh) (mem_loaded psh K s)),
      RReserved (area_addr 0 (mem_loaded psh K s)), RMem (Heap r), RCdev (mem_dev_addr 0),
      RRegion (MKDEV MEM_MAJOR_NUMBER MEM_MINOR_NUMBER) MEM_NUM_MINORS], bs)"
  using assms(2)
  by (simp add: mem_loaded_def Let_def upt_pages logg_def log_simps mem_answersD [OF assms(1)] area_addr_def)

text \<open>
  C31: A load that gets its memory puts the mapped area inside the block it asked for. Its stores do not fault, where a store
  outside the bytes requested from \<open>kmalloc\<close> is a fault; the area starts at a page boundary, at or after the start of the
  block, its three pages end before the block of the size requested does, and each page starts with the four marker bytes.
\<close>

theorem memory_init_area_in_block:
  assumes "mem_answers psh r K"
  shows "\<exists>s' n. mydriver_init psh K s = Some (0, s') \<and>
    (Mem (Kmalloc n ''GFP_KERNEL''), r) \<in> set (drop (length (klog s)) (klog s')) \<and> n = block_len (kmalloc_ptr s') (klog s') \<and>
    PAGE_SIZE psh dvd unat (kmalloc_area s') \<and> r \<le> uint (kmalloc_area s') \<and>
    uint (kmalloc_area s') + int (NPAGES * PAGE_SIZE psh) \<le> r + int n \<and>
    (\<forall>i\<in>{0..<NPAGES}. \<forall>k\<in>{0..<4}. kmem s' (kmalloc_area s' + of_nat (i * PAGE_SIZE psh + k)) = magic ! k)"
proof -
  obtain m where m: "mydriver_init psh K s = Some (0, (mem_loaded psh K s)\<lparr>kmem := m\<rparr>)"
      "has_block psh r ((mem_loaded psh K s)\<lparr>kmem := m\<rparr>)" "marked psh [0..<NPAGES] ((mem_loaded psh K s)\<lparr>kmem := m\<rparr>)"
    using mydriver_init_loaded [OF assms] by blast
  let ?s = "(mem_loaded psh K s)\<lparr>kmem := m\<rparr>"
  have a: "block_at psh r" "kmalloc_area ?s = PAGE_ALIGN psh (word_of_int r)"
    using m(2) unfolding has_block_def by blast+
  have "\<forall>i\<in>{0..<NPAGES}. \<forall>k\<in>{0..<4}. kmem ?s (kmalloc_area ?s + of_nat (i * PAGE_SIZE psh + k)) = magic ! k"
    using m(3) unfolding marked_def area_addr_def by (metis atLeastLessThan_iff set_upt)
  moreover have "block_len (kmalloc_ptr ?s) (klog ?s) = (NPAGES + 1) * PAGE_SIZE psh"
    using mem_loaded_len(2) [OF assms, of s] by simp
  moreover have "(Mem (Kmalloc ((NPAGES + 1) * PAGE_SIZE psh) ''GFP_KERNEL''), r) \<in> set (drop (length (klog s)) (klog ?s))"
    using mem_loaded_len(1) [OF assms, of s] by simp
  ultimately show ?thesis using m(1) area_bounds [OF a] by metis
qed

text \<open>One round of loading and unloading.\<close>

lemma mem_round:
  assumes "mem_answers psh r K" and "held (klog s) = []"
  shows "\<exists>s'. mydriver_init psh K s = Some (0, s') \<and> held (klog (mydriver_exit psh K s')) = [] \<and>
    overreleased (klog (mydriver_exit psh K s')) = overreleased (klog s)"
proof -
  obtain m where m: "mydriver_init psh K s = Some (0, (mem_loaded psh K s)\<lparr>kmem := m\<rparr>)"
      "has_block psh r ((mem_loaded psh K s)\<lparr>kmem := m\<rparr>)"
    using mydriver_init_loaded [OF assms(1)] by blast
  let ?s = "(mem_loaded psh K s)\<lparr>kmem := m\<rparr>"
  have P: "0 < PAGE_SIZE psh" by (simp add: PAGE_SIZE_def)
  have ne: "area_addr 0 ?s \<noteq> area_addr (PAGE_SIZE psh) ?s" "area_addr 0 ?s \<noteq> area_addr (2 * PAGE_SIZE psh) ?s"
      "area_addr (PAGE_SIZE psh) ?s \<noteq> area_addr (2 * PAGE_SIZE psh) ?s"
    using area_addr_inj [OF m(2), of 0 "PAGE_SIZE psh"] area_addr_inj [OF m(2), of 0 "2 * PAGE_SIZE psh"]
      area_addr_inj [OF m(2), of "PAGE_SIZE psh" "2 * PAGE_SIZE psh"] P by (simp_all add: NPAGES_def)
  have "acct (klog ?s) = ([RReserved (area_addr (2 * PAGE_SIZE psh) ?s), RReserved (area_addr (PAGE_SIZE psh) ?s),
      RReserved (area_addr 0 ?s), RMem (Heap r), RCdev (mem_dev_addr 0),
      RRegion (MKDEV MEM_MAJOR_NUMBER MEM_MINOR_NUMBER) MEM_NUM_MINORS], overreleased (klog s))"
    using acct_mem_loaded [OF assms(1), of s "overreleased (klog s)"] assms(2) acct_held [of "klog s"] by simp
  then have "acct (klog (mydriver_exit psh K ?s)) = ([], overreleased (klog s))"
    using m(2) ne ne [symmetric]
    by (simp add: mydriver_exit_def Let_def upt_pages log_simps has_block_def)
  then show ?thesis using m(1) by (intro exI [of _ ?s]) (simp add: acct_held)
qed

interpretation mem_contract: balanced_module "mydriver_init psh K" "\<lambda>s. Some (mydriver_exit psh K s)"
  "\<lambda>s. mem_answers psh r K \<and> held (klog s) = [] \<and> overreleased (klog s) = bs" for psh r K bs
proof unfold_locales
  fix s :: mem_module assume "mem_answers psh r K \<and> held (klog s) = [] \<and> overreleased (klog s) = bs"
  then show "\<exists>r' s1. mydriver_init psh K s = Some (r', s1) \<and>
      (r' \<noteq> 0 \<longrightarrow> mem_answers psh r K \<and> held (klog s1) = [] \<and> overreleased (klog s1) = bs) \<and>
      (r' = 0 \<longrightarrow> (\<exists>s2. Some (mydriver_exit psh K s1) = Some s2 \<and>
        mem_answers psh r K \<and> held (klog s2) = [] \<and> overreleased (klog s2) = bs))"
    using mem_round [of psh r K s] by auto
qed

text \<open>
  The driver can be loaded and unloaded any number of times: each round gives back the reserved pages, the block, the
  device and the device number, each exactly once.
\<close>

theorem memory_reload:
  assumes "mem_answers psh r K" and "held (klog s) = []"
  shows "\<exists>s'. reload (mydriver_init psh K) (\<lambda>s. Some (mydriver_exit psh K s)) n s = Some s' \<and>
    held (klog s') = [] \<and> overreleased (klog s') = overreleased (klog s)"
  using mem_contract.reload_clean [of psh r K s "overreleased (klog s)" n] assms by blast

text \<open>
  When the block cannot be allocated, the load reports \<open>ENOMEM\<close> and keeps the device number and the device: the
  module is not loaded, so nothing will ever release them.
\<close>

theorem memory_init_leaks_without_memory:
  assumes "\<forall>h d n nm. kret K h (Chrdev (Register_chrdev_region d n nm)) = 0"
    and "\<forall>h c d n. kret K h (Chrdev (Cdev_add c d n)) = 0"
    and "\<forall>h n f. kret K h (Mem (Kmalloc n f)) = 0"
  shows "\<exists>s'. mydriver_init psh K s = Some (- ENOMEM, s') \<and>
    held (klog s') = RCdev (mem_dev_addr 0) # RRegion (MKDEV 42 0) 1 # held (klog s)"
  by (simp add: mem_load_simps assms [rule_format] Let_def held_kdo MEM_MAJOR_NUMBER_def MEM_MINOR_NUMBER_def MEM_NUM_MINORS_def)

section \<open>Mapping\<close>

text \<open>
  In the kernel's linear map a virtual address and its physical address differ by a constant that is a multiple of
  the page size.
\<close>

definition linear_map :: "nat \<Rightarrow> nat \<Rightarrow> int \<Rightarrow> kernel \<Rightarrow> bool" where
  "linear_map psh off r K \<longleftrightarrow> PAGE_SIZE psh dvd off \<and> int off \<le> r \<and>
     (\<forall>h a. kret K h (Page (Virt_to_phys a)) = uint a - int off)"

lemma area_frame:
  assumes "has_block psh r s" and "linear_map psh off r K"
  shows "unat (drop_bit psh (word_of_int (kret K h (Page (Virt_to_phys (kmalloc_area s)))) :: ulong)) * PAGE_SIZE psh =
    unat (kmalloc_area s) - off"
proof -
  have b: "block_at psh r" "kmalloc_area s = PAGE_ALIGN psh (word_of_int r)" using assms(1) by (simp_all add: has_block_def)
  note ab = area_bounds [OF b]
  let ?a = "kmalloc_area s"
  have off: "off \<le> unat ?a" "PAGE_SIZE psh dvd off"
    using assms(2) ab(2) uint_nat [of ?a] by (simp_all add: linear_map_def del: of_nat_unat)
  have "kret K h (Page (Virt_to_phys ?a)) = int (unat ?a - off)"
    using assms(2) off(1) uint_nat [of ?a] by (simp add: linear_map_def of_nat_diff del: of_nat_unat)
  then have "unat (word_of_int (kret K h (Page (Virt_to_phys ?a))) :: ulong) = unat ?a - off"
    using unat_less_64 [of ?a] by (simp add: unat_of_nat take_bit_nat_eq_self)
  then have "unat (drop_bit psh (word_of_int (kret K h (Page (Virt_to_phys ?a))) :: ulong)) = (unat ?a - off) div PAGE_SIZE psh"
    unfolding unat_drop_bit_eq by (simp add: drop_bit_eq_div PAGE_SIZE_def)
  moreover have "PAGE_SIZE psh dvd unat ?a - off" using ab(1) off(2) by (rule dvd_diff_nat)
  ultimately show ?thesis by simp
qed

text \<open>
  C10: \<open>memory_mmap\<close> maps exactly the requested length and never more than the three pages. A longer request is
  refused with \<open>EIO\<close> and makes no call. Otherwise the frames it hands to \<open>remap_pfn_range\<close> start at the physical
  address of the area, and the last byte mapped lies inside the allocated block, so user space cannot reach other
  kernel memory through the mapping.
\<close>

theorem memory_mmap_stays_in_block:
  assumes "has_block psh r s" and "linear_map psh off r K"
  shows "memory_mmap psh K vma s = (- EIO, s) \<and> NPAGES * PAGE_SIZE psh < unat (vm_end vma - vm_start vma) \<or>
    (\<exists>pfn. memory_mmap psh K vma s =
         kcall K (Page (Remap_pfn_range (vm_start vma) pfn (vm_end vma - vm_start vma)))
           (kdo K (Page (Virt_to_phys (kmalloc_area s))) s) \<and>
       int (unat pfn * PAGE_SIZE psh) = uint (kmalloc_area s) - int off \<and>
       unat (vm_end vma - vm_start vma) \<le> NPAGES * PAGE_SIZE psh \<and>
       int (unat pfn * PAGE_SIZE psh + unat (vm_end vma - vm_start vma)) \<le>
         r - int off + int ((NPAGES + 1) * PAGE_SIZE psh))"
proof -
  define sz where "sz = vm_end vma - vm_start vma"
  have b: "block_at psh r" "kmalloc_area s = PAGE_ALIGN psh (word_of_int r)" using assms(1) by (simp_all add: has_block_def)
  note ab = area_bounds [OF b]
  have "int (NPAGES * PAGE_SIZE psh) < int (2 ^ 64)" using b(1) by (simp add: block_at_def NPAGES_def)
  then have N: "unat (of_nat (NPAGES * PAGE_SIZE psh) :: ulong) = NPAGES * PAGE_SIZE psh"
    unfolding of_nat_less_iff by (simp add: unat_of_nat take_bit_nat_eq_self del: of_nat_mult)
  show ?thesis
  proof (cases "sz > of_nat (NPAGES * PAGE_SIZE psh)")
    case True
    moreover from True have "NPAGES * PAGE_SIZE psh < unat sz" unfolding word_less_nat_alt N .
    ultimately show ?thesis unfolding memory_mmap_def sz_def [symmetric] by simp
  next
    case False
    let ?v = "Page (Virt_to_phys (kmalloc_area s))"
    let ?pfn = "drop_bit psh (word_of_int (kret K (klog s) ?v)) :: ulong"
    have sz: "unat sz \<le> NPAGES * PAGE_SIZE psh" using False unfolding word_less_nat_alt N by simp
    have "off \<le> unat (kmalloc_area s)"
      using assms(2) ab(2) uint_nat [of "kmalloc_area s"] by (simp add: linear_map_def del: of_nat_unat)
    then have f: "int (unat ?pfn * PAGE_SIZE psh) = uint (kmalloc_area s) - int off"
      unfolding area_frame [OF assms(1,2), of "klog s"] by (simp add: of_nat_diff)
    moreover have "memory_mmap psh K vma s = kcall K (Page (Remap_pfn_range (vm_start vma) ?pfn sz)) (kdo K ?v s)"
      using False unfolding memory_mmap_def sz_def [symmetric] by (simp add: kcall_eq Let_def)
    moreover have "int (unat ?pfn * PAGE_SIZE psh + unat sz) \<le> r - int off + int ((NPAGES + 1) * PAGE_SIZE psh)"
      using f ab(3) sz unfolding of_nat_add by linarith
    ultimately show ?thesis using sz unfolding sz_def by blast
  qed
qed

section \<open>Witnesses\<close>

fun mem_ret :: "klog \<Rightarrow> kcall \<Rightarrow> int" where
  "mem_ret h (Mem (Kmalloc n f)) = 70000"
| "mem_ret h (Page (Virt_to_phys a)) = uint a - 65536"
| "mem_ret h c = 0"

definition mem_kernel :: kernel where "mem_kernel = \<lparr>kret = mem_ret, kbytes = (\<lambda>h c. [])\<rparr>"

lemma mem_kernel_answers: "mem_answers 12 70000 mem_kernel"
  by (simp add: mem_answers_def mem_kernel_def block_at_def NPAGES_def PAGE_SIZE_def)

theorem memory_init_area_in_block_witness:
  "mem_answers 12 70000 mem_kernel \<and>
   (\<exists>s'. mydriver_init 12 mem_kernel mem_module0 = Some (0, s') \<and> 4096 dvd unat (kmalloc_area s') \<and>
      kmem s' (kmalloc_area s' + 4097) = 0xbb)"
proof -
  obtain s' where s: "mydriver_init 12 mem_kernel mem_module0 = Some (0, s')" "PAGE_SIZE 12 dvd unat (kmalloc_area s')"
      "\<forall>i\<in>{0..<NPAGES}. \<forall>k\<in>{0..<4}. kmem s' (kmalloc_area s' + of_nat (i * PAGE_SIZE 12 + k)) = magic ! k"
    using memory_init_area_in_block [OF mem_kernel_answers, of mem_module0] by blast
  have "kmem s' (kmalloc_area s' + of_nat (1 * PAGE_SIZE 12 + 1)) = magic ! 1"
    using s(3) [rule_format, of 1 1] by (simp add: NPAGES_def del: One_nat_def)
  then show ?thesis using s mem_kernel_answers by (simp add: PAGE_SIZE_def magic_def)
qed

theorem memory_reload_witness:
  "mem_answers 12 70000 mem_kernel \<and> held (klog mem_module0) = [] \<and>
   (\<exists>s'. reload (mydriver_init 12 mem_kernel) (\<lambda>s. Some (mydriver_exit 12 mem_kernel s)) 3 mem_module0 = Some s' \<and> held (klog s') = [])"
proof -
  have "held (klog mem_module0) = []" by (simp add: mem_module0_def held_def log_simps)
  then show ?thesis using memory_reload [OF mem_kernel_answers, of mem_module0 3] mem_kernel_answers by blast
qed

theorem memory_init_leaks_without_memory_witness:
  "\<exists>s'. mydriver_init 12 \<lparr>kret = (\<lambda>h c. 0), kbytes = (\<lambda>h c. [])\<rparr> mem_module0 = Some (- ENOMEM, s') \<and>
     held (klog s') = [RCdev (mem_dev_addr 0), RRegion (42, 0) 1]"
  using memory_init_leaks_without_memory [of "\<lparr>kret = (\<lambda>h c. 0), kbytes = (\<lambda>h c. [])\<rparr>" 12 mem_module0]
  by (simp add: mem_module0_def held_def log_simps MKDEV_def)

theorem memory_mmap_stays_in_block_witness:
  "\<exists>s. has_block 12 70000 s \<and> linear_map 12 65536 70000 mem_kernel \<and>
     (\<exists>pfn. memory_mmap 12 mem_kernel \<lparr>vm_start = 0, vm_end = 4096\<rparr> s =
        kcall mem_kernel (Page (Remap_pfn_range 0 pfn 4096)) (kdo mem_kernel (Page (Virt_to_phys (kmalloc_area s))) s))"
proof -
  let ?s = "mem_module0\<lparr>kmalloc_ptr := Heap 70000, kmalloc_area := PAGE_ALIGN 12 70000\<rparr>"
  have "has_block 12 70000 ?s" "linear_map 12 65536 70000 mem_kernel"
    by (simp_all add: has_block_def block_at_def linear_map_def NPAGES_def PAGE_SIZE_def mem_kernel_def)
  then show ?thesis
    using memory_mmap_stays_in_block [of 12 70000 ?s 65536 mem_kernel "\<lparr>vm_start = 0, vm_end = 4096\<rparr>"]
    by (intro exI [of _ ?s] conjI) (auto simp: NPAGES_def PAGE_SIZE_def)
qed

end
