(* ===== verification/Memory_user.thy ===== *)
theory Memory_user
  imports User_space Memory
begin

text \<open>
  The test program of the memory driver, \<open>Drivers/memory/user/main.cpp\<close>: it maps one page of the driver's memory and prints the ninth
  word of it. Its memory is read through \<open>peek\<close>, \<open>None\<close> being an address that is not mapped; a read there kills the program. The locale
  \<open>memory_node\<close> says what the system does between the program and the driver.
\<close>

section \<open>Definitions\<close>

definition filepath :: string where "filepath = ''/dev/memory_driver''"

definition MAP_FAILED :: int where "MAP_FAILED = - 1"

definition log_line :: "string \<Rightarrow> 'w process \<Rightarrow> 'w process" where
  "log_line msg p = put_line (''[log] '' @ msg) p"

definition load_u32 :: "(ulong \<Rightarrow> byte option) \<Rightarrow> ulong \<Rightarrow> u32 option" where
  "load_u32 mem a = do {
     b0 \<leftarrow> mem a; b1 \<leftarrow> mem (a + 1); b2 \<leftarrow> mem (a + 2); b3 \<leftarrow> mem (a + 3);
     Some (u32_of_bytes [b0, b1, b2, b3])
   }"

definition memory_main :: "'w os \<Rightarrow> ('w \<Rightarrow> ulong \<Rightarrow> byte option) \<Rightarrow> 'w process \<Rightarrow> (outcome \<times> 'w process) option" where
  "memory_main os peek p = do {
     let (fd, p) = sys_call os (Sys_open filepath ''O_RDWR'') p;
     let p = (if fd = - 1 then log_line ''failed to open memory driver'' p else p);
     let (mapped, p) = sys_call os (Sys_mmap 4096 ''PROT_READ | PROT_WRITE'' ''MAP_SHARED'' fd 0) p;
     if mapped = MAP_FAILED then Some (Exit 1, log_line ''failed to get map'' p)
     else do {
       val \<leftarrow> load_u32 (peek (world p)) (word_of_int mapped + 4 * 8);
       Some (Exit 0, put_line (decimal (uint val)) p)
     }
   }"

section \<open>What a load leaves untouched\<close>

lemma poke_frame:
  "poke n b s = Some s' \<Longrightarrow> kmem s' a = (if a = area_addr n s then b else kmem s a) \<and>
     kmalloc_area s' = kmalloc_area s \<and> kmalloc_ptr s' = kmalloc_ptr s"
  by (auto simp: poke_def split: if_splits)

lemma write_magic_frame:
  "write_magic psh js s = Some s' \<Longrightarrow> (\<And>i k. i \<in> set js \<Longrightarrow> k < 4 \<Longrightarrow> a \<noteq> area_addr (i * PAGE_SIZE psh + k) s) \<Longrightarrow>
    kmem s' a = kmem s a \<and> kmalloc_area s' = kmalloc_area s \<and> kmalloc_ptr s' = kmalloc_ptr s"
proof (induction js arbitrary: s)
  case (Cons i js)
  obtain s1 where s1: "poke (i * PAGE_SIZE psh + 0) 0xaa s = Some s1"
    using Cons.prems(1) by (auto simp: bind_Some_conv)
  obtain s2 where s2: "poke (i * PAGE_SIZE psh + 1) 0xbb s1 = Some s2"
    using Cons.prems(1) s1 by (auto simp: bind_Some_conv)
  obtain s3 where s3: "poke (i * PAGE_SIZE psh + 2) 0xcc s2 = Some s3"
    using Cons.prems(1) s1 s2 by (auto simp: bind_Some_conv)
  obtain s4 where s4: "poke (i * PAGE_SIZE psh + 3) 0xdd s3 = Some s4" "write_magic psh js s4 = Some s'"
    using Cons.prems(1) s1 s2 s3 by (auto simp: bind_Some_conv)
  note f = poke_frame [OF s1, of a] poke_frame [OF s2, of a] poke_frame [OF s3, of a] poke_frame [OF s4(1), of a]
  have area: "area_addr n s4 = area_addr n s" "area_addr n s3 = area_addr n s" "area_addr n s2 = area_addr n s"
    "area_addr n s1 = area_addr n s" for n
    using f by (simp_all add: area_addr_def)
  have "kmem s4 a = kmem s a"
    using f Cons.prems(2) [of i 0] Cons.prems(2) [of i 1] Cons.prems(2) [of i 2] Cons.prems(2) [of i 3] by (simp add: area)
  then show ?case using Cons.IH [OF s4(2)] Cons.prems(2) f by (simp add: area)
qed simp

text \<open>Of the mapped pages a load writes the first four bytes each.\<close>

lemma load_keeps:
  assumes "mydriver_init psh K s = Some (0, s')" and "mem_answers psh r K" and "n < NPAGES * PAGE_SIZE psh"
    and "4 \<le> n mod PAGE_SIZE psh"
  shows "kmem s' (area_addr n s') = kmem s (area_addr n s') \<and> has_block psh r s'"
proof -
  obtain m where m: "s' = (mem_loaded psh K s)\<lparr>kmem := m\<rparr>" "has_block psh r s'"
    using mydriver_init_loaded [OF assms(2), of s] assms(1) by auto
  have w: "write_magic psh [0..<NPAGES] (mem_loaded psh K s) = Some s'"
    using assms(1) mydriver_init_magic [OF assms(2)] by (auto simp: bind_Some_conv)
  have area: "area_addr k s' = area_addr k (mem_loaded psh K s)" for k by (simp add: m(1))
  have "area_addr n s' \<noteq> area_addr (i * PAGE_SIZE psh + k) (mem_loaded psh K s)" if "i \<in> set [0..<NPAGES]" "k < 4" for i k
  proof -
    have P: "4 \<le> PAGE_SIZE psh" using assms(4) PAGE_SIZE_pos [of psh] by (meson le_trans mod_less_divisor less_imp_le)
    have "Suc i * PAGE_SIZE psh \<le> NPAGES * PAGE_SIZE psh" using that(1) by (intro mult_le_mono1) simp
    then have "i * PAGE_SIZE psh + k < NPAGES * PAGE_SIZE psh" using that(2) P by simp
    moreover have "n \<noteq> i * PAGE_SIZE psh + k" using assms(4) that(2) P by auto
    ultimately show ?thesis using area_addr_inj [OF m(2) assms(3)] area by metis
  qed
  from write_magic_frame [OF w this] show ?thesis
    using m(2) by (simp add: mem_loaded_def Let_def logg_def upt_pages)
qed

section \<open>The driver behind the mapping\<close>

text \<open>
  What the system promises: the device node that is present opens, which runs \<open>memory_open\<close>; a mapping of whole pages runs the driver's \<open>mmap\<close> on
  a fresh range of addresses, where afterwards the page frames the driver named are visible (the kernel's own view of frame
  \<open>f\<close> starts at \<open>f\<close> pages plus \<open>off\<close>), and an error of the driver is \<open>MAP_FAILED\<close>.
\<close>

locale memory_node =
  fixes os :: "'w os" and node :: "'w \<Rightarrow> bool" and opened :: "int \<Rightarrow> 'w \<Rightarrow> bool" and drv :: "'w \<Rightarrow> mem_module"
    and peek :: "'w \<Rightarrow> ulong \<Rightarrow> byte option" and psh :: nat and off :: nat and K :: kernel
  assumes open_law: "node w \<Longrightarrow> \<exists>fd w'. os (Sys_open filepath ''O_RDWR'') w = (fd, w') \<and> 0 \<le> fd \<and> opened fd w' \<and>
      drv w' = snd (snd (memory_open K \<lparr>i_cdev = mem_dev_addr 0\<rparr> \<lparr>private_data = Null\<rparr> (drv w)))"
    and open_missing: "\<not> node w \<Longrightarrow> \<exists>w'. os (Sys_open filepath ''O_RDWR'') w = (- 1, w') \<and> drv w' = drv w"
    and mmap_law: "opened fd w \<Longrightarrow> PAGE_SIZE psh dvd len \<Longrightarrow> \<exists>a r m w'.
      memory_mmap psh K \<lparr>vm_start = a, vm_end = a + of_nat len\<rparr> (drv w) = (r, m) \<and> drv w' = m \<and>
      os (Sys_mmap len prot fl fd 0) w = (if r = 0 then uint a else MAP_FAILED, w') \<and>
      (r = 0 \<longrightarrow> (\<forall>f n i. remaps (klog m) = remaps (klog (drv w)) @ [(a, f, n)] \<longrightarrow> i < unat n \<longrightarrow>
         peek w' (a + of_nat i) = Some (kmem m (of_nat (unat f * PAGE_SIZE psh + off + i)))))"
    and mmap_bad: "fd < 0 \<Longrightarrow> os (Sys_mmap len prot fl fd 0) w = (MAP_FAILED, w)"
begin

lemma mapping_shows_area:
  assumes "opened fd w" and "has_block psh r (drv w)" and "linear_map psh off r K"
    and "\<And>h a f n. kret K h (Page (Remap_pfn_range a f n)) = 0" and "len = PAGE_SIZE psh"
  shows "\<exists>a w'. os (Sys_mmap len prot fl fd 0) w = (uint a, w') \<and>
    (\<forall>i<len. peek w' (a + of_nat i) = Some (kmem (drv w) (area_addr i (drv w))))"
proof -
  obtain a x m w' where w': "memory_mmap psh K \<lparr>vm_start = a, vm_end = a + of_nat len\<rparr> (drv w) = (x, m)" "drv w' = m"
    "os (Sys_mmap len prot fl fd 0) w = (if x = 0 then uint a else MAP_FAILED, w')"
    "x = 0 \<Longrightarrow> remaps (klog m) = remaps (klog (drv w)) @ [(a, f, n)] \<Longrightarrow> i < unat n \<Longrightarrow>
      peek w' (a + of_nat i) = Some (kmem m (of_nat (unat f * PAGE_SIZE psh + off + i)))" for f n i
    using mmap_law [OF assms(1), of len prot fl] assms(5) by auto
  let ?v = "Page (Virt_to_phys (kmalloc_area (drv w)))"
  let ?f = "drop_bit psh (word_of_int (kret K (klog (drv w)) ?v)) :: ulong"
  have b: "block_at psh r" "kmalloc_area (drv w) = PAGE_ALIGN psh (word_of_int r)"
    using assms(2) by (simp_all add: has_block_def)
  note ab = area_bounds [OF b]
  have psh: "psh < 64" using b(1) by (simp add: block_at_def)
  have len: "unat (of_nat len :: ulong) = len" unfolding assms(5) by (rule unat_PAGE_SIZE [OF psh])
  have "int (NPAGES * PAGE_SIZE psh) < int (2 ^ 64)" using b(1) by (simp add: block_at_def NPAGES_def)
  then have "NPAGES * PAGE_SIZE psh < 2 ^ 64" unfolding of_nat_less_iff .
  then have N: "unat (of_nat (NPAGES * PAGE_SIZE psh) :: ulong) = NPAGES * PAGE_SIZE psh" by (rule unat_of_nat_64)
  have "\<not> of_nat (NPAGES * PAGE_SIZE psh) < (of_nat len :: ulong)"
    unfolding word_less_nat_alt N len unfolding assms(5) by (simp add: NPAGES_def)
  then have m: "x = 0" "m = kdo K (Page (Remap_pfn_range a ?f (of_nat len))) (kdo K ?v (drv w))"
    using w'(1) assms(4) by (simp_all add: memory_mmap_def kcall_eq Let_def del: of_nat_mult)
  have "off \<le> unat (kmalloc_area (drv w))"
    using assms(3) ab(2) uint_nat [of "kmalloc_area (drv w)"] by (simp add: linear_map_def del: of_nat_unat)
  then have "unat ?f * PAGE_SIZE psh + off = unat (kmalloc_area (drv w))"
    using area_frame [OF assms(2,3), of "klog (drv w)"] by simp
  then have "of_nat (unat ?f * PAGE_SIZE psh + off + i) = area_addr i (drv w)" for i
    by (simp only: of_nat_add area_addr_def) (simp del: of_nat_add of_nat_mult)
  then show ?thesis
    using w'(3) w'(4) [OF m(1), of ?f "of_nat len"] m len
    by (intro exI [of _ a] exI [of _ w']) (simp add: log_simps del: of_nat_add of_nat_mult)
qed

lemma memory_main_prints_area:
  assumes "node w" and "has_block psh r (drv w)" and "linear_map psh off r K"
    and "\<And>h a f n. kret K h (Page (Remap_pfn_range a f n)) = 0" and "psh = 12"
  shows "\<exists>p. memory_main os peek (start w) = Some (Exit 0, p) \<and>
    cout p = decimal (uint (u32_of_bytes (map (\<lambda>k. kmem (drv w) (area_addr (32 + k) (drv w))) [0..<4]))) @ [CHR 0x0A]"
proof -
  obtain fd w1 where 1: "os (Sys_open filepath ''O_RDWR'') w = (fd, w1)" "0 \<le> fd" "opened fd w1"
    "drv w1 = kdo K (Print (Pr_info ''[LOG]: %s'' [PStr ''memory_open called''])) (drv w)"
    using open_law [OF assms(1)] by (auto simp: memory_open_def logg_def Let_def)
  have "has_block psh r (drv w1)" using assms(2) 1(4) by simp
  then obtain a w2 where 2: "os (Sys_mmap 4096 ''PROT_READ | PROT_WRITE'' ''MAP_SHARED'' fd 0) w1 = (uint a, w2)"
    "\<forall>i<4096. peek w2 (a + of_nat i) = Some (kmem (drv w) (area_addr i (drv w)))"
    using mapping_shows_area [OF 1(3) _ assms(3,4), of 4096 "''PROT_READ | PROT_WRITE''" "''MAP_SHARED''"] 1(4)
    by (auto simp: PAGE_SIZE_def assms(5))
  have pk: "peek w2 (a + 32) = Some (kmem (drv w) (area_addr 32 (drv w)))"
    "peek w2 (a + 33) = Some (kmem (drv w) (area_addr 33 (drv w)))"
    "peek w2 (a + 34) = Some (kmem (drv w) (area_addr 34 (drv w)))"
    "peek w2 (a + 35) = Some (kmem (drv w) (area_addr 35 (drv w)))"
    using 2(2) [rule_format, of 32] 2(2) [rule_format, of 33] 2(2) [rule_format, of 34] 2(2) [rule_format, of 35] by simp_all
  have "[0..<4] = [0, 1, 2, 3 :: nat]" by (simp add: upt_rec)
  then have ld: "load_u32 (peek w2) (a + 32) = Some (u32_of_bytes (map (\<lambda>k. kmem (drv w) (area_addr (32 + k) (drv w))) [0..<4]))"
    using pk by (simp add: load_u32_def add.assoc)
  have "uint a \<noteq> MAP_FAILED" using uint_ge_0 [of a] unfolding MAP_FAILED_def by linarith
  then show ?thesis using 1(1,2) 2(1) ld by (simp add: memory_main_def sys_call_eq)
qed

lemma memory_main_without_node:
  assumes "\<not> node w"
  shows "\<exists>p. memory_main os peek (start w) = Some (Exit 1, p) \<and> drv (world p) = drv w \<and>
    cout p = ''[log] failed to open memory driver'' @ [CHR 0x0A] @ ''[log] failed to get map'' @ [CHR 0x0A]"
  using open_missing [OF assms] by (auto simp: memory_main_def sys_call_eq mmap_bad log_line_def MAP_FAILED_def)

end

section \<open>A system\<close>

text \<open>The device node exists when \<open>node_there\<close>; a mapping is kept as its first address, the frame behind it and its length.\<close>

record memory_world =
  module :: mem_module
  node_there :: bool
  maps :: "(ulong \<times> ulong \<times> ulong) option"

definition user_base :: ulong where "user_base = 0x10000"

fun memory_os :: "kernel \<Rightarrow> memory_world os" where
  "memory_os K (Sys_open path fl) w =
     (if node_there w then (3, w\<lparr>module := snd (snd (memory_open K \<lparr>i_cdev = mem_dev_addr 0\<rparr> \<lparr>private_data = Null\<rparr> (module w)))\<rparr>)
      else (- 1, w))"
| "memory_os K (Sys_mmap len prot fl fd n) w =
     (if fd = 3 then
        let (r, m) = memory_mmap 12 K \<lparr>vm_start = user_base, vm_end = user_base + of_nat len\<rparr> (module w);
            w = w\<lparr>module := m, maps := (if remaps (klog m) = [] then None else Some (last (remaps (klog m))))\<rparr>
        in (if r = 0 then uint user_base else MAP_FAILED, w)
      else (MAP_FAILED, w))"
| "memory_os K c w = (- 1, w)"

definition memory_peek :: "nat \<Rightarrow> memory_world \<Rightarrow> ulong \<Rightarrow> byte option" where
  "memory_peek off w x =
     (case maps w of
        Some (a, f, n) \<Rightarrow>
          if unat (x - a) < unat n then Some (kmem (module w) (of_nat (unat f * PAGE_SIZE 12 + off + unat (x - a)))) else None
      | None \<Rightarrow> None)"

interpretation memfs: memory_node "memory_os K" node_there "\<lambda>fd w. fd = 3" module "memory_peek off" 12 off K for K off
proof unfold_locales
  show "\<exists>a r m w'. memory_mmap 12 K \<lparr>vm_start = a, vm_end = a + of_nat len\<rparr> (module w) = (r, m) \<and> module w' = m \<and>
      memory_os K (Sys_mmap len prot fl fd 0) w = (if r = 0 then uint a else MAP_FAILED, w') \<and>
      (r = 0 \<longrightarrow> (\<forall>f n i. remaps (klog m) = remaps (klog (module w)) @ [(a, f, n)] \<longrightarrow> i < unat n \<longrightarrow>
         memory_peek off w' (a + of_nat i) = Some (kmem m (of_nat (unat f * PAGE_SIZE 12 + off + i)))))"
    if "fd = 3" for fd w len prot fl
  proof -
    obtain r m where m: "memory_mmap 12 K \<lparr>vm_start = user_base, vm_end = user_base + of_nat len\<rparr> (module w) = (r, m)" by fastforce
    let ?w = "w\<lparr>module := m, maps := (if remaps (klog m) = [] then None else Some (last (remaps (klog m))))\<rparr>"
    have "unat (of_nat i :: ulong) = i" if "i < unat (n :: ulong)" for i n
      using that unat_less_64 [of n] by (intro unat_of_nat_64) simp
    then show ?thesis
      using that m by (intro exI [of _ user_base] exI [of _ r] exI [of _ m] exI [of _ ?w])
        (simp add: memory_peek_def del: of_nat_add of_nat_mult)
  qed
qed auto

section \<open>Theorems\<close>

text \<open>
  C20: Driver and test program together: the program prints the ninth word of the driver's area, and that word is what the block held
  before the driver was loaded: the driver clears nothing and marks only the first four bytes of each page, so whoever maps the device reads
  left-over kernel memory.
\<close>

theorem memory_user_reads_stale_memory:
  assumes "memory_node os node opened drv peek 12 off K" and "node w" and "mem_answers 12 r K" and "linear_map 12 off r K"
    and "\<And>h a f n. kret K h (Page (Remap_pfn_range a f n)) = 0"
    and "mydriver_init 12 K s = Some (0, drv w)"
  shows "\<exists>p. memory_main os peek (start w) = Some (Exit 0, p) \<and>
    cout p = decimal (uint (u32_of_bytes (map (\<lambda>k. kmem s (kmalloc_area (drv w) + 32 + of_nat k)) [0..<4]))) @ [CHR 0x0A]"
proof -
  have "kmem (drv w) (area_addr (32 + k) (drv w)) = kmem s (kmalloc_area (drv w) + 32 + of_nat k)" if "k < 4" for k
    using load_keeps [OF assms(6,3), of "32 + k"] that by (simp add: PAGE_SIZE_def NPAGES_def area_addr_def add.assoc)
  then have "map (\<lambda>k. kmem (drv w) (area_addr (32 + k) (drv w))) [0..<4] =
      map (\<lambda>k. kmem s (kmalloc_area (drv w) + 32 + of_nat k)) [0..<4]" by simp
  moreover have "has_block 12 r (drv w)" using load_keeps [OF assms(6,3), of 32] by (simp add: PAGE_SIZE_def NPAGES_def)
  ultimately show ?thesis
    using memory_node.memory_main_prints_area [OF assms(1,2) _ assms(4,5) refl] by metis
qed

text \<open>Without the device the program says so, maps nothing and exits with status 1.\<close>

theorem memory_user_without_device:
  assumes "memory_node os node opened drv peek psh off K" and "\<not> node w"
  shows "\<exists>p. memory_main os peek (start w) = Some (Exit 1, p) \<and> drv (world p) = drv w \<and>
    cout p = ''[log] failed to open memory driver'' @ [CHR 0x0A] @ ''[log] failed to get map'' @ [CHR 0x0A]"
  by (rule memory_node.memory_main_without_node [OF assms])

section \<open>Witnesses\<close>

theorem memory_user_reads_stale_memory_witness:
  "\<exists>w p. mydriver_init 12 mem_kernel (mem_module0\<lparr>kmem := (\<lambda>a. 7)\<rparr>) = Some (0, module w) \<and>
     memory_main (memory_os mem_kernel) (memory_peek 65536) (start w) = Some (Exit 0, p) \<and>
     cout p = decimal (uint (u32_of_bytes [7, 7, 7, 7])) @ [CHR 0x0A]"
proof -
  let ?s = "mem_module0\<lparr>kmem := (\<lambda>a. 7)\<rparr>"
  obtain m where m: "mydriver_init 12 mem_kernel ?s = Some (0, m)"
    using mydriver_init_loaded [OF mem_kernel_answers, of ?s] by blast
  let ?w = "\<lparr>module = m, node_there = True, maps = None\<rparr>"
  have l: "linear_map 12 65536 70000 mem_kernel" by (simp add: linear_map_def PAGE_SIZE_def mem_kernel_def)
  have n: "node_there ?w" "mydriver_init 12 mem_kernel ?s = Some (0, module ?w)"
    "\<And>h a f n. kret mem_kernel h (Page (Remap_pfn_range a f n)) = 0" using m by (simp_all add: mem_kernel_def)
  obtain p where "memory_main (memory_os mem_kernel) (memory_peek 65536) (start ?w) = Some (Exit 0, p)"
    "cout p = decimal (uint (u32_of_bytes (map (\<lambda>k. kmem ?s (kmalloc_area (module ?w) + 32 + of_nat k)) [0..<4]))) @ [CHR 0x0A]"
    using memory_user_reads_stale_memory [OF memfs.memory_node_axioms n(1) mem_kernel_answers l n(3) n(2)] by blast
  moreover have "map (\<lambda>k. kmem ?s (kmalloc_area (module ?w) + 32 + of_nat k)) [0..<4] = [7, 7, 7, 7]" by (simp add: upt_rec)
  ultimately show ?thesis using n(2) by metis
qed

theorem memory_user_without_device_witness:
  "\<exists>p. memory_main (memory_os mem_kernel) (memory_peek 0) (start \<lparr>module = mem_module0, node_there = False, maps = None\<rparr>) = Some (Exit 1, p)"
  using memory_user_without_device [OF memfs.memory_node_axioms, of "\<lparr>module = mem_module0, node_there = False, maps = None\<rparr>" mem_kernel 0]
  by auto

end
