(* ===== verification/Nonmemory.thy ===== *)
theory Nonmemory
  imports Pages Module_contract
begin

text \<open>
  The driver for non-contiguous memory, \<open>Drivers/nonConMemory/kernel/nonMemory.c\<close>: it maps pages that are contiguous
  in the kernel's address space but not in physical memory, one by one, and reports through \<open>/proc\<close> the size of the
  caller's address space. The caller's areas are an argument of \<open>memory_seq_show\<close>. The mapping loop counts in
  64-bit arithmetic as the code does, so its termination is a theorem and not a matter of its form.
\<close>

section \<open>Definitions\<close>

definition NON_MAJOR_NUMBER :: nat where "NON_MAJOR_NUMBER = 42"
definition NON_MINOR_NUMBER :: nat where "NON_MINOR_NUMBER = 0"
definition NON_NUM_MINORS :: nat where "NON_NUM_MINORS = 1"
definition NON_MODULE_NAME :: string where "NON_MODULE_NAME = ''nonmemory_driver''"
definition NON_NPAGES :: nat where "NON_NPAGES = 3"
definition PROC_ENTRY_NAME :: string where "PROC_ENTRY_NAME = ''nonmemory_driver_proc''"

record nonmem_module = kstate +
  vmalloc_area :: ptr

definition nonmem_module0 :: nonmem_module where "nonmem_module0 = \<lparr>klog = [], vmalloc_area = Null\<rparr>"

definition nonmem_dev_addr :: "nat \<Rightarrow> ptr" where "nonmem_dev_addr i = Static ''nonMemory.devs'' i ''''"

definition logg :: "kernel \<Rightarrow> string \<Rightarrow> nonmem_module \<Rightarrow> nonmem_module" where
  "logg K txt s = kdo K (Print (Pr_info ''[LOG]: %s'' [PStr txt])) s"

definition memory_open :: "kernel \<Rightarrow> inode \<Rightarrow> kfile \<Rightarrow> nonmem_module \<Rightarrow> int \<times> kfile \<times> nonmem_module" where
  "memory_open K inode file s =
     (let file = file\<lparr>private_data := i_cdev inode\<rparr> in (0, file, logg K ''[memory_open called]'' s))"

definition memory_release :: "kernel \<Rightarrow> nonmem_module \<Rightarrow> int \<times> nonmem_module" where
  "memory_release K s = (0, logg K ''[memory_close called]'' s)"

text \<open>The address of the byte at an offset of the area, NULL standing for address 0.\<close>

definition area_at :: "nonmem_module \<Rightarrow> ulong \<Rightarrow> ulong" where
  "area_at s off = (case vmalloc_area s of Heap a \<Rightarrow> word_of_int a | _ \<Rightarrow> 0) + off"

partial_function (option) mmap_loop ::
    "nat \<Rightarrow> kernel \<Rightarrow> vm_area_struct \<Rightarrow> ulong \<Rightarrow> ulong \<Rightarrow> nonmem_module \<Rightarrow> (int \<times> nonmem_module) option" where
  "mmap_loop psh K vma sz off s =
     (if off < sz then
        (let (pfn, s) = kcall K (Page (Vmalloc_to_pfn (area_at s off))) s;
             (ret, s) = kcall K (Page (Remap_pfn_range (vm_start vma + off) (word_of_int pfn) (of_nat (PAGE_SIZE psh)))) s
         in if ret \<noteq> 0 then Some (ret, s)
            else mmap_loop psh K vma sz (off + of_nat (PAGE_SIZE psh)) s)
      else Some (0, s))"

definition memory_mmap ::
    "nat \<Rightarrow> kernel \<Rightarrow> vm_area_struct \<Rightarrow> nonmem_module \<Rightarrow> (int \<times> nonmem_module) option" where
  "memory_mmap psh K vma s =
     (let sz = vm_end vma - vm_start vma in
      if sz > of_nat (NON_NPAGES * PAGE_SIZE psh) then Some (- 1, s)
      else mmap_loop psh K vma sz 0 s)"

fun sum_vmas :: "kernel \<Rightarrow> vm_area_struct list \<Rightarrow> ulong \<Rightarrow> nonmem_module \<Rightarrow> ulong \<times> nonmem_module" where
  "sum_vmas K [] sz s = (sz, s)"
| "sum_vmas K (vma # vmas) sz s =
     (let s = kdo K (Print (Pr_info ''%lx %lx'' [PUlong (vm_start vma), PUlong (vm_end vma)])) s
      in sum_vmas K vmas (sz + (vm_end vma - vm_start vma)) s)"

definition memory_seq_show :: "kernel \<Rightarrow> vm_area_struct list \<Rightarrow> nonmem_module \<Rightarrow> int \<times> nonmem_module" where
  "memory_seq_show K vmas s =
     (let (r, s) = kcall K (Task Get_task_mm) s; mm = ptr_of r in
      if mm = Null then (0, s)
      else
        let s = kdo K (Sync (Mmap_read_lock mm)) s;
            (sz, s) = sum_vmas K vmas 0 s;
            s = kdo K (Sync (Mmap_read_unlock mm)) s;
            s = kdo K (Task (Mmput mm)) s;
            s = kdo K (Entry (Seq_printf ''%lu'' [PUlong sz])) s
        in (0, s))"

definition memory_seq_open :: "kernel \<Rightarrow> nonmem_module \<Rightarrow> int \<times> nonmem_module" where
  "memory_seq_open K s = kcall K (Entry (Single_open ''memory_seq_show'')) s"

text \<open>
  \<open>vmalloc_to_page\<close> and the flag operation on its result. The page of an address is named by the address; no page
  belongs to NULL, and the flag operations dereference what they are given.
\<close>

definition at_page :: "nat \<Rightarrow> kernel \<Rightarrow> (ulong \<Rightarrow> page_call) \<Rightarrow> nat \<Rightarrow> nonmem_module \<Rightarrow> nonmem_module option" where
  "at_page psh K op i s =
     (if vmalloc_area s = Null then None
      else Some (kdo K (Page (op (area_at s (of_nat (PAGE_SIZE psh * i))))) s))"

fun at_pages :: "nat \<Rightarrow> kernel \<Rightarrow> (ulong \<Rightarrow> page_call) \<Rightarrow> nat list \<Rightarrow> nonmem_module \<Rightarrow> nonmem_module option" where
  "at_pages psh K op [] s = Some s"
| "at_pages psh K op (i # is) s = do { s \<leftarrow> at_page psh K op i s; at_pages psh K op is s }"

definition driver_initt :: "nat \<Rightarrow> kernel \<Rightarrow> nonmem_module \<Rightarrow> (int \<times> nonmem_module) option" where
  "driver_initt psh K s = do {
     let s = logg K ''non-contignous memory driver has been initalized'' s;
     let s = kdo K (Entry (Proc_create PROC_ENTRY_NAME)) s;
     let (res, s) = kcall K (Chrdev (Register_chrdev_region
           (MKDEV NON_MAJOR_NUMBER NON_MINOR_NUMBER) NON_NUM_MINORS NON_MODULE_NAME)) s;
     if res \<noteq> 0 then Some (res, kdo K (Print (Pr_debug ''[ERROR] failed to allocate char device region'' [])) s)
     else do {
       let s = fold (\<lambda>i s.
             kdo K (Chrdev (Cdev_add (nonmem_dev_addr i) (MKDEV NON_MAJOR_NUMBER NON_MINOR_NUMBER) 1))
               (kdo K (Chrdev (Cdev_init (nonmem_dev_addr i) ''fops'')) s)) [0..<NON_NUM_MINORS] s;
       let (r, s) = kcall K (Page (Vmalloc (PAGE_SIZE psh * NON_NPAGES))) s;
       let s = s\<lparr>vmalloc_area := ptr_of r\<rparr>;
       s \<leftarrow> at_pages psh K SetPageReserved [0..<NON_NPAGES] s;
       Some (res, s)
     }
   }"

definition driver_exit :: "nat \<Rightarrow> kernel \<Rightarrow> nonmem_module \<Rightarrow> nonmem_module option" where
  "driver_exit psh K s = do {
     let s = logg K ''non-contignous memory driver has exited'' s;
     let s = kdo K (Entry (Remove_proc_entry PROC_ENTRY_NAME)) s;
     let s = fold (\<lambda>i. kdo K (Chrdev (Cdev_del (nonmem_dev_addr i)))) [0..<NON_NUM_MINORS] s;
     let s = kdo K (Chrdev (Unregister_chrdev_region (MKDEV NON_MAJOR_NUMBER NON_MINOR_NUMBER) NON_NUM_MINORS)) s;
     s \<leftarrow> at_pages psh K ClearPageReserved [0..<NON_NPAGES] s;
     Some (kdo K (Page (Vfree (vmalloc_area s))) s)
   }"

section \<open>The mapping loop\<close>

text \<open>The pages to map, as a list of their indices: what the loop does, stated without its counter.\<close>

fun map_pages ::
    "nat \<Rightarrow> kernel \<Rightarrow> vm_area_struct \<Rightarrow> nat list \<Rightarrow> nonmem_module \<Rightarrow> int \<times> nonmem_module" where
  "map_pages psh K vma [] s = (0, s)"
| "map_pages psh K vma (i # is) s =
     (let a = of_nat (i * PAGE_SIZE psh);
          (pfn, s) = kcall K (Page (Vmalloc_to_pfn (area_at s a))) s;
          (ret, s) = kcall K (Page (Remap_pfn_range (vm_start vma + a) (word_of_int pfn) (of_nat (PAGE_SIZE psh)))) s
      in if ret \<noteq> 0 then (ret, s) else map_pages psh K vma is s)"

definition page_count :: "nat \<Rightarrow> ulong \<Rightarrow> nat" where
  "page_count psh sz = (unat sz + PAGE_SIZE psh - 1) div PAGE_SIZE psh"

lemma page_count_iff: "i * PAGE_SIZE psh < unat sz \<longleftrightarrow> i < page_count psh sz"
proof -
  let ?q = "PAGE_SIZE psh"
  have q: "0 < ?q" by (rule PAGE_SIZE_pos)
  have "i < (unat sz + ?q - 1) div ?q \<longleftrightarrow> Suc i * ?q \<le> unat sz + ?q - 1"
    using less_eq_div_iff_mult_less_eq [OF q, of "Suc i"] by (simp add: Suc_le_eq)
  also have "\<dots> \<longleftrightarrow> i * ?q < unat sz" using q by auto
  finally show ?thesis by (simp add: page_count_def)
qed

lemma page_count_le: "unat sz \<le> n * PAGE_SIZE psh \<Longrightarrow> page_count psh sz \<le> n"
  using page_count_iff [of n psh sz] by simp

lemma mmap_loop_eq:
  assumes "i \<le> page_count psh sz" and "page_count psh sz * PAGE_SIZE psh < 2 ^ 64"
  shows "mmap_loop psh K vma sz (of_nat (i * PAGE_SIZE psh)) s = Some (map_pages psh K vma [i..<page_count psh sz] s)"
  using assms
proof (induction "page_count psh sz - i" arbitrary: i s)
  case 0
  then have "i * PAGE_SIZE psh \<le> page_count psh sz * PAGE_SIZE psh" by (intro mult_le_mono1)
  then have "unat (of_nat (i * PAGE_SIZE psh) :: ulong) = i * PAGE_SIZE psh"
    using 0 by (intro unat_of_nat_64) linarith
  then have "\<not> of_nat (i * PAGE_SIZE psh) < sz"
    using page_count_iff [of i psh sz] 0 by (simp add: word_less_nat_alt del: of_nat_mult)
  then show ?case using 0 by (subst mmap_loop.simps) simp
next
  case (Suc n)
  then have i: "i < page_count psh sz" by simp
  have "i * PAGE_SIZE psh \<le> page_count psh sz * PAGE_SIZE psh" using i by (intro mult_le_mono1) simp
  then have "unat (of_nat (i * PAGE_SIZE psh) :: ulong) = i * PAGE_SIZE psh"
    using Suc.prems(2) by (intro unat_of_nat_64) linarith
  then have lt: "of_nat (i * PAGE_SIZE psh) < sz"
    using page_count_iff [of i psh sz] i by (simp add: word_less_nat_alt del: of_nat_mult)
  have "of_nat (i * PAGE_SIZE psh) + of_nat (PAGE_SIZE psh) = (of_nat (Suc i * PAGE_SIZE psh) :: ulong)"
    by (simp add: algebra_simps)
  note step = this Suc.hyps(1) [of "Suc i"]
  show ?case
    using Suc.hyps(2) Suc.prems(2) i lt unfolding upt_conv_Cons [OF i] map_pages.simps
    by (subst mmap_loop.simps) (simp add: step Let_def kcall_eq del: of_nat_mult mult_Suc)
qed

lemma memory_mmap_eq:
  assumes "psh \<le> 61"
  shows "memory_mmap psh K vma s =
    Some (if NON_NPAGES * PAGE_SIZE psh < unat (vm_end vma - vm_start vma) then (- 1, s)
          else map_pages psh K vma [0..<page_count psh (vm_end vma - vm_start vma)] s)"
proof -
  define sz where "sz = vm_end vma - vm_start vma"
  have "PAGE_SIZE psh \<le> 2 ^ 61" unfolding PAGE_SIZE_def using assms by (intro power_increasing) simp_all
  then have N: "NON_NPAGES * PAGE_SIZE psh < 2 ^ 64" by (simp add: NON_NPAGES_def)
  have le: "sz > of_nat (NON_NPAGES * PAGE_SIZE psh) \<longleftrightarrow> NON_NPAGES * PAGE_SIZE psh < unat sz"
    unfolding word_less_nat_alt unat_of_nat_64 [OF N] ..
  have "mmap_loop psh K vma sz (of_nat (0 * PAGE_SIZE psh)) s = Some (map_pages psh K vma [0..<page_count psh sz] s)"
    if "\<not> NON_NPAGES * PAGE_SIZE psh < unat sz"
  proof (rule mmap_loop_eq)
    have "page_count psh sz \<le> NON_NPAGES" using that by (intro page_count_le) simp
    then have "page_count psh sz * PAGE_SIZE psh \<le> NON_NPAGES * PAGE_SIZE psh" by (rule mult_le_mono1)
    then show "page_count psh sz * PAGE_SIZE psh < 2 ^ 64" using N by linarith
  qed simp
  then show ?thesis unfolding memory_mmap_def Let_def sz_def [symmetric] le by simp
qed

text \<open>
  C11: \<open>memory_mmap\<close> always returns, whatever the kernel answers and whatever area is asked for: its loop counter is
  bounded by three pages, so it cannot wrap. A request longer than three pages is refused with -1 and makes no call.
  Any other request maps, in order, each page the area touches and stops at the first one that fails. The page
  shift is at most 61, so that three pages and one more fit in the 64-bit address space.
\<close>

theorem nonmem_mmap_maps_pages:
  assumes "psh \<le> 61"
  shows "memory_mmap psh K vma s =
    Some (if NON_NPAGES * PAGE_SIZE psh < unat (vm_end vma - vm_start vma) then (- 1, s)
          else map_pages psh K vma [0..<page_count psh (vm_end vma - vm_start vma)] s)"
  using assms by (rule memory_mmap_eq)

text \<open>What is mapped when every mapping succeeds: page \<open>i\<close> of the request is page \<open>i\<close> of the area.\<close>

lemma map_pages_remaps:
  assumes "\<forall>h a f n. kret K h (Page (Remap_pfn_range a f n)) = 0"
    and "\<forall>h a. kret K h (Page (Vmalloc_to_pfn a)) = frame a"
  shows "fst (map_pages psh K vma is s) = 0 \<and>
    remaps (klog (snd (map_pages psh K vma is s))) = remaps (klog s) @
      map (\<lambda>i. (vm_start vma + of_nat (i * PAGE_SIZE psh), word_of_int (frame (area_at s (of_nat (i * PAGE_SIZE psh)))),
        of_nat (PAGE_SIZE psh))) is"
proof (induction "is" arbitrary: s)
  case (Cons i "is")
  have a: "area_at (kdo K c t) = area_at t" for c t by (simp add: fun_eq_iff area_at_def kdo_eq)
  show ?case
    using Cons.IH assms by (simp add: Let_def kcall_eq a log_simps del: of_nat_mult)
qed simp

text \<open>
  A request for at most three pages, when no mapping is refused, succeeds, and afterwards the user sees the area: the
  page at every offset of the request is the frame that backs that offset of the driver's area, and nothing else is
  mapped.
\<close>

theorem nonmem_mmap_shows_area:
  assumes "psh \<le> 61" and "unat (vm_end vma - vm_start vma) = n * PAGE_SIZE psh" and "n \<le> NON_NPAGES"
    and "\<forall>h a f n. kret K h (Page (Remap_pfn_range a f n)) = 0"
    and "\<forall>h a. kret K h (Page (Vmalloc_to_pfn a)) = frame a"
  shows "\<exists>s'. memory_mmap psh K vma s = Some (0, s') \<and>
    remaps (klog s') = remaps (klog s) @
      map (\<lambda>i. (vm_start vma + of_nat (i * PAGE_SIZE psh), word_of_int (frame (area_at s (of_nat (i * PAGE_SIZE psh)))),
        of_nat (PAGE_SIZE psh))) [0..<n]"
proof -
  let ?sz = "vm_end vma - vm_start vma"
  have "\<not> NON_NPAGES * PAGE_SIZE psh < unat ?sz" unfolding assms(2) using mult_le_mono1 [OF assms(3)] by (simp only: not_less)
  moreover have "page_count psh ?sz = n"
  proof (rule antisym)
    show "page_count psh ?sz \<le> n" using assms(2) by (intro page_count_le) simp
    show "n \<le> page_count psh ?sz" using page_count_iff [of "page_count psh ?sz" psh ?sz] assms(2) PAGE_SIZE_pos [of psh]
      by (simp add: not_less)
  qed
  ultimately have "memory_mmap psh K vma s = Some (map_pages psh K vma [0..<n] s)"
    unfolding memory_mmap_eq [OF assms(1)] by simp
  then show ?thesis
    using map_pages_remaps [OF assms(4,5), of psh vma "[0..<n]" s]
    by (intro exI [of _ "snd (map_pages psh K vma [0..<n] s)"]) (simp add: prod_eq_iff)
qed

section \<open>The report through /proc\<close>

text \<open>The seq output of a log.\<close>

fun seq_out :: "kcall \<times> int \<Rightarrow> (string \<times> parg list) list" where
  "seq_out (Entry (Seq_printf f as), r) = [(f, as)]"
| "seq_out _ = []"

definition seq_outs :: "klog \<Rightarrow> (string \<times> parg list) list" where
  "seq_outs h = concat (map seq_out h)"

lemma seq_outs_kdo [log_simps]: "seq_outs (klog (kdo K c s)) = seq_outs (klog s) @ seq_out (c, kret K (klog s) c)"
  by (simp add: seq_outs_def kdo_klog)

lemma sum_vmas_result:
  "fst (sum_vmas K vmas sz s) = sz + (\<Sum>v\<leftarrow>vmas. vm_end v - vm_start v)"
  by (induction vmas arbitrary: sz s) (simp_all add: Let_def algebra_simps)

lemma sum_vmas_frame:
  "seq_outs (klog (snd (sum_vmas K vmas sz s))) = seq_outs (klog s)"
  "acct (klog (snd (sum_vmas K vmas sz s))) = acct (klog s)"
  "locks (klog (snd (sum_vmas K vmas sz s))) = locks (klog s)"
  by (induction vmas arbitrary: sz s) (simp_all add: Let_def log_simps)

text \<open>
  The areas of a process as the kernel keeps them: none is empty or turned around, they are sorted by address and
  disjoint.
\<close>

fun vmas_sorted :: "ulong \<Rightarrow> vm_area_struct list \<Rightarrow> bool" where
  "vmas_sorted a [] = True"
| "vmas_sorted a (v # vs) = (a \<le> vm_start v \<and> vm_start v \<le> vm_end v \<and> vmas_sorted (vm_end v) vs)"

text \<open>The addresses in some area.\<close>

definition mapped_addrs :: "vm_area_struct list \<Rightarrow> ulong set" where
  "mapped_addrs vs = (\<Union>v\<in>set vs. {vm_start v..<vm_end v})"

lemma vmas_sorted_above: "vmas_sorted a vs \<Longrightarrow> x \<in> mapped_addrs vs \<Longrightarrow> a \<le> x"
  by (induction vs arbitrary: a) (fastforce simp: mapped_addrs_def)+

lemma card_interval: "vm_start v \<le> vm_end v \<Longrightarrow> card {vm_start v..<vm_end v} = unat (vm_end v - vm_start v)"
proof -
  assume le: "vm_start v \<le> vm_end v"
  have "unat ` {vm_start v..<vm_end v} = {unat (vm_start v)..<unat (vm_end v)}"
  proof (intro equalityI subsetI)
    fix y assume y: "y \<in> {unat (vm_start v)..<unat (vm_end v)}"
    then have "unat (of_nat y :: ulong) = y" using unat_less_64 [of "vm_end v"] by (intro unat_of_nat_64) simp
    then show "y \<in> unat ` {vm_start v..<vm_end v}"
      using y by (intro image_eqI [of _ _ "of_nat y"]) (simp_all add: word_le_nat_alt word_less_nat_alt)
  qed (auto simp: word_le_nat_alt word_less_nat_alt)
  then have "card {vm_start v..<vm_end v} = unat (vm_end v) - unat (vm_start v)"
    by (metis card_atLeastLessThan card_image inj_on_def unsigned_word_eqI)
  then show ?thesis using le by (simp add: unat_sub)
qed

lemma card_mapped_addrs:
  "vmas_sorted a vs \<Longrightarrow> of_nat (card (mapped_addrs vs)) = (\<Sum>v\<leftarrow>vs. vm_end v - vm_start v)"
proof (induction vs arbitrary: a)
  case (Cons v vs)
  have "mapped_addrs (v # vs) = {vm_start v..<vm_end v} \<union> mapped_addrs vs"
    "{vm_start v..<vm_end v} \<inter> mapped_addrs vs = {}"
    using vmas_sorted_above [of "vm_end v" vs] Cons.prems by (fastforce simp: mapped_addrs_def)+
  then have "card (mapped_addrs (v # vs)) = unat (vm_end v - vm_start v) + card (mapped_addrs vs)"
    using Cons.prems by (simp add: card_Un_disjoint card_interval)
  then show ?case using Cons.IH [of "vm_end v"] Cons.prems by simp
qed (simp add: mapped_addrs_def)

text \<open>
  C33: Reading the \<open>/proc\<close> entry reports one number, the number of addresses in the caller's areas, takes and
  releases the lock of the memory map and gives back the reference to it. A kernel thread has no memory map: it gets
  no output.
\<close>

theorem nonmem_seq_show_counts_addresses:
  assumes "vmas_sorted 0 vmas" and "locks (klog s) = Some []"
  shows "seq_outs (klog (snd (memory_seq_show K vmas s))) = seq_outs (klog s) @
      (if kret K (klog s) (Task Get_task_mm) = 0 then [] else [(''%lu'', [PUlong (of_nat (card (mapped_addrs vmas)))])]) \<and>
    locks (klog (snd (memory_seq_show K vmas s))) = Some [] \<and>
    acct (klog (snd (memory_seq_show K vmas s))) = acct (klog s)"
proof (cases "kret K (klog s) (Task Get_task_mm) = 0")
  case True
  then show ?thesis using assms(2) by (simp add: memory_seq_show_def kcall_eq log_simps acct_held [of "klog s"])
next
  case False
  define mm where "mm = Heap (kret K (klog s) (Task Get_task_mm))"
  have "snd (memory_seq_show K vmas s) =
      (let t = kdo K (Sync (Mmap_read_lock mm)) (kdo K (Task Get_task_mm) s); u = snd (sum_vmas K vmas 0 t)
       in kdo K (Entry (Seq_printf ''%lu'' [PUlong (fst (sum_vmas K vmas 0 t))]))
            (kdo K (Task (Mmput mm)) (kdo K (Sync (Mmap_read_unlock mm)) u)))"
    using False by (simp add: memory_seq_show_def kcall_eq Let_def mm_def split_beta)
  then show ?thesis
    using False assms(2)
    by (simp add: Let_def log_simps sum_vmas_frame sum_vmas_result mm_def acct_held [of "klog s"]
        card_mapped_addrs [OF assms(1)])
qed

section \<open>Loading and unloading\<close>

text \<open>The answers on which a load succeeds.\<close>

definition nonmem_answers :: "int \<Rightarrow> kernel \<Rightarrow> bool" where
  "nonmem_answers r K \<longleftrightarrow>
     (\<forall>h nm. kret K h (Entry (Proc_create nm)) \<noteq> 0) \<and>
     (\<forall>h d n nm. kret K h (Chrdev (Register_chrdev_region d n nm)) = 0) \<and>
     (\<forall>h c d n. kret K h (Chrdev (Cdev_add c d n)) = 0) \<and> (\<forall>h n. kret K h (Page (Vmalloc n)) = r)"

lemma nonmem_answersD:
  assumes "nonmem_answers r K"
  shows "kret K h (Entry (Proc_create nm)) \<noteq> 0" "kret K h (Chrdev (Register_chrdev_region d n nm)) = 0"
    "kret K h (Chrdev (Cdev_add c d n)) = 0" "kret K h (Page (Vmalloc m)) = r"
  using assms unfolding nonmem_answers_def by blast+

lemma non_upt: "[0..<NON_NPAGES] = [0, 1, 2]" "[0..<NON_NUM_MINORS] = [0]"
  by (simp_all add: NON_NPAGES_def NON_NUM_MINORS_def numeral_3_eq_3 numeral_2_eq_2)

lemma nonmem_sel [simp]:
  "vmalloc_area (kdo K c s) = vmalloc_area s" "area_at (kdo K c s) = area_at s"
  by (simp_all add: kdo_eq area_at_def fun_eq_iff)

lemmas nonmem_load_simps = driver_initt_def driver_exit_def logg_def kcall_eq non_upt at_page_def log_simps

lemma page_offsets_distinct:
  assumes "psh \<le> 61"
  shows "(of_nat (PAGE_SIZE psh) :: ulong) \<noteq> 0" "(2 * of_nat (PAGE_SIZE psh) :: ulong) \<noteq> 0"
    "2 * of_nat (PAGE_SIZE psh) \<noteq> (of_nat (PAGE_SIZE psh) :: ulong)"
proof -
  have P: "PAGE_SIZE psh \<le> 2 ^ 61" unfolding PAGE_SIZE_def using assms by (intro power_increasing) simp_all
  have "unat (of_nat (PAGE_SIZE psh) :: ulong) = PAGE_SIZE psh" "unat (of_nat (2 * PAGE_SIZE psh) :: ulong) = 2 * PAGE_SIZE psh"
    using P by (intro unat_of_nat_64; simp)+
  then show "(of_nat (PAGE_SIZE psh) :: ulong) \<noteq> 0" "(2 * of_nat (PAGE_SIZE psh) :: ulong) \<noteq> 0"
      "2 * of_nat (PAGE_SIZE psh) \<noteq> (of_nat (PAGE_SIZE psh) :: ulong)"
    using PAGE_SIZE_pos [of psh] by auto
qed

text \<open>One round of loading and unloading.\<close>

lemma nonmem_round:
  assumes "nonmem_answers r K" and "r \<noteq> 0" and "psh \<le> 61" and "held (klog s) = []"
  shows "\<exists>s1 s2. driver_initt psh K s = Some (0, s1) \<and> driver_exit psh K s1 = Some s2 \<and>
    held (klog s2) = [] \<and> overreleased (klog s2) = overreleased (klog s)"
proof -
  let ?a = "word_of_int r :: ulong" and ?p = "of_nat (PAGE_SIZE psh) :: ulong"
  have ne: "?a + ?p \<noteq> ?a" "?a + 2 * ?p \<noteq> ?a" "?a + 2 * ?p \<noteq> ?a + ?p"
    using page_offsets_distinct [OF assms(3)] by simp_all
  have s: "acct (klog s) = ([], overreleased (klog s))" using assms(4) by (simp add: acct_held)
  obtain s1 where s1: "driver_initt psh K s = Some (0, s1)" "vmalloc_area s1 = Heap r"
      "acct (klog s1) = ([RReserved (?a + 2 * ?p), RReserved (?a + ?p), RReserved ?a, RVmem (Heap r),
        RCdev (nonmem_dev_addr 0), RRegion (MKDEV NON_MAJOR_NUMBER NON_MINOR_NUMBER) NON_NUM_MINORS,
        RProc PROC_ENTRY_NAME], overreleased (klog s))"
    using assms(2) s
    by (auto simp: nonmem_load_simps Let_def nonmem_answersD [OF assms(1)] area_at_def mult.commute)
  then obtain s2 where "driver_exit psh K s1 = Some s2" "acct (klog s2) = ([], overreleased (klog s))"
    using ne ne [symmetric] assms(2) by (simp add: nonmem_load_simps Let_def area_at_def mult.commute)
  then show ?thesis using s1(1) by (auto simp: acct_held)
qed

interpretation nonmem_contract: balanced_module "driver_initt psh K" "driver_exit psh K"
  "\<lambda>s. nonmem_answers r K \<and> r \<noteq> 0 \<and> psh \<le> 61 \<and> held (klog s) = [] \<and> overreleased (klog s) = bs" for psh r K bs
proof unfold_locales
  fix s :: nonmem_module assume "nonmem_answers r K \<and> r \<noteq> 0 \<and> psh \<le> 61 \<and> held (klog s) = [] \<and> overreleased (klog s) = bs"
  then show "\<exists>r' s1. driver_initt psh K s = Some (r', s1) \<and>
      (r' \<noteq> 0 \<longrightarrow> nonmem_answers r K \<and> r \<noteq> 0 \<and> psh \<le> 61 \<and> held (klog s1) = [] \<and> overreleased (klog s1) = bs) \<and>
      (r' = 0 \<longrightarrow> (\<exists>s2. driver_exit psh K s1 = Some s2 \<and>
        nonmem_answers r K \<and> r \<noteq> 0 \<and> psh \<le> 61 \<and> held (klog s2) = [] \<and> overreleased (klog s2) = bs))"
    using nonmem_round [of r K psh s] by auto
qed

text \<open>
  The driver can be loaded and unloaded any number of times: each round gives back the \<open>/proc\<close> entry, the device, the
  device number, the reserved pages and the memory, each once.
\<close>

theorem nonmem_reload:
  assumes "nonmem_answers r K" and "r \<noteq> 0" and "psh \<le> 61" and "held (klog s) = []"
  shows "\<exists>s'. reload (driver_initt psh K) (driver_exit psh K) n s = Some s' \<and>
    held (klog s') = [] \<and> overreleased (klog s') = overreleased (klog s)"
  using nonmem_contract.reload_clean [of r K psh s "overreleased (klog s)" n] assms by blast

text \<open>
  The result of \<open>vmalloc\<close> is not checked: when it is NULL, loading faults at the first page, with the device and the
  \<open>/proc\<close> entry already in place.
\<close>

theorem nonmem_init_faults_without_memory:
  assumes "nonmem_answers 0 K"
  shows "driver_initt psh K s = None"
  using assms(1) by (simp add: nonmem_load_simps Let_def nonmem_answersD [OF assms])

text \<open>
  When the device number is taken, the load fails and its \<open>/proc\<close> entry stays behind.
\<close>

theorem nonmem_init_refused_leaves_proc_entry:
  assumes "\<forall>h d n nm. kret K h (Chrdev (Register_chrdev_region d n nm)) = - EBUSY"
    and "\<forall>h nm. kret K h (Entry (Proc_create nm)) \<noteq> 0"
  shows "\<exists>s'. driver_initt psh K s = Some (- EBUSY, s') \<and> held (klog s') = RProc PROC_ENTRY_NAME # held (klog s)"
  by (simp add: nonmem_load_simps assms [rule_format] Let_def held_kdo EBUSY_def)

section \<open>Witnesses\<close>

fun nonmem_ret :: "klog \<Rightarrow> kcall \<Rightarrow> int" where
  "nonmem_ret h (Page (Vmalloc n)) = 65536"
| "nonmem_ret h (Page (Vmalloc_to_pfn a)) = uint a div 4096 + 7"
| "nonmem_ret h (Entry (Proc_create nm)) = 1"
| "nonmem_ret h (Task Get_task_mm) = 99"
| "nonmem_ret h c = 0"

definition nonmem_kernel :: kernel where "nonmem_kernel = \<lparr>kret = nonmem_ret, kbytes = (\<lambda>h c. [])\<rparr>"

lemma nonmem_kernel_sel [simp]: "kret nonmem_kernel = nonmem_ret"
  by (simp add: nonmem_kernel_def)

theorem nonmem_mmap_maps_pages_witness:
  "(12 :: nat) \<le> 61 \<and> memory_mmap 12 nonmem_kernel \<lparr>vm_start = 0, vm_end = 16384\<rparr> nonmem_module0 = Some (- 1, nonmem_module0) \<and>
   memory_mmap 12 nonmem_kernel \<lparr>vm_start = 8192, vm_end = 16384\<rparr> (nonmem_module0\<lparr>vmalloc_area := Heap 65536\<rparr>) =
     Some (map_pages 12 nonmem_kernel \<lparr>vm_start = 8192, vm_end = 16384\<rparr> [0, 1] (nonmem_module0\<lparr>vmalloc_area := Heap 65536\<rparr>))"
proof -
  have "[0..<2] = [0, 1 :: nat]" by (simp add: numeral_2_eq_2)
  then show ?thesis
    using nonmem_mmap_maps_pages [of 12 nonmem_kernel "\<lparr>vm_start = 0, vm_end = 16384\<rparr>" nonmem_module0]
      nonmem_mmap_maps_pages [of 12 nonmem_kernel "\<lparr>vm_start = 8192, vm_end = 16384\<rparr>" "nonmem_module0\<lparr>vmalloc_area := Heap 65536\<rparr>"]
    by (simp add: NON_NPAGES_def PAGE_SIZE_def page_count_def del: map_pages.simps)
qed

theorem nonmem_mmap_shows_area_witness:
  "\<exists>s'. memory_mmap 12 nonmem_kernel \<lparr>vm_start = 8192, vm_end = 16384\<rparr> (nonmem_module0\<lparr>vmalloc_area := Heap 65536\<rparr>) = Some (0, s') \<and>
     remaps (klog s') = [(8192, 23, 4096), (12288, 24, 4096)]"
proof -
  have "[0..<2] = [0, 1 :: nat]" by (simp add: numeral_2_eq_2)
  then show ?thesis
    using nonmem_mmap_shows_area [of 12 "\<lparr>vm_start = 8192, vm_end = 16384\<rparr>" 2 nonmem_kernel "\<lambda>a. uint a div 4096 + 7"
        "nonmem_module0\<lparr>vmalloc_area := Heap 65536\<rparr>"]
    by (simp add: NON_NPAGES_def PAGE_SIZE_def area_at_def nonmem_module0_def remaps_def)
qed

theorem nonmem_seq_show_counts_addresses_witness:
  "vmas_sorted 0 [\<lparr>vm_start = 16, vm_end = 32\<rparr>] \<and> locks (klog nonmem_module0) = Some [] \<and>
   seq_outs (klog (snd (memory_seq_show nonmem_kernel [\<lparr>vm_start = 16, vm_end = 32\<rparr>] nonmem_module0))) = [(''%lu'', [PUlong 16])]"
  using nonmem_seq_show_counts_addresses [of "[\<lparr>vm_start = 16, vm_end = 32\<rparr>]" nonmem_module0 nonmem_kernel]
    card_mapped_addrs [of 0 "[\<lparr>vm_start = 16, vm_end = 32\<rparr>]"]
  by (simp add: nonmem_module0_def log_simps seq_outs_def)

theorem nonmem_reload_witness:
  "nonmem_answers 65536 nonmem_kernel \<and>
   (\<exists>s'. reload (driver_initt 12 nonmem_kernel) (driver_exit 12 nonmem_kernel) 2 nonmem_module0 = Some s' \<and> held (klog s') = [])"
proof -
  have "nonmem_answers 65536 nonmem_kernel" "held (klog nonmem_module0) = []"
    by (simp_all add: nonmem_answers_def nonmem_module0_def held_def log_simps)
  then show ?thesis using nonmem_reload [of 65536 nonmem_kernel 12 nonmem_module0 2] by auto
qed

theorem nonmem_init_faults_without_memory_witness:
  "\<exists>K. nonmem_answers 0 K \<and> driver_initt 12 K nonmem_module0 = None"
proof -
  let ?K = "\<lparr>kret = (\<lambda>h c. case c of Entry e \<Rightarrow> 1 | _ \<Rightarrow> 0), kbytes = (\<lambda>h c. [])\<rparr> :: kernel"
  have "nonmem_answers 0 ?K" by (simp add: nonmem_answers_def)
  then show ?thesis using nonmem_init_faults_without_memory [of ?K 12 nonmem_module0] by blast
qed

theorem nonmem_init_refused_leaves_proc_entry_witness:
  "\<exists>K s'. driver_initt 12 K nonmem_module0 = Some (- EBUSY, s') \<and> held (klog s') = [RProc ''nonmemory_driver_proc'']"
  using nonmem_init_refused_leaves_proc_entry
    [of "\<lparr>kret = (\<lambda>h c. case c of Entry e \<Rightarrow> 1 | _ \<Rightarrow> - EBUSY), kbytes = (\<lambda>h c. [])\<rparr>" 12 nonmem_module0]
  by (auto simp: nonmem_module0_def held_def log_simps PROC_ENTRY_NAME_def)

end
