(* ===== verification/Timer.thy ===== *)
theory Timer
  imports Store
begin

unbundle bit_operations_syntax

text \<open>
  The deferred-work driver, \<open>Drivers/deferredTimer/kernel/timer.c\<close> with the ioctl numbers of \<open>include/deferred.h\<close>:
  a device whose timer, when it fires, does nothing, schedules blocking work, or looks through a list of monitored
  processes for dead ones. Each list entry owns a reference to its task and its own memory; the invariant
  \<open>timer_ok\<close> says so, every operation keeps it and unloading gives everything back.
\<close>

section \<open>Definitions\<close>

definition MAJOR_NUMBER :: nat where "MAJOR_NUMBER = 42"
definition MINOR_NUMBER :: nat where "MINOR_NUMBER = 0"
definition NUM_MINORS :: nat where "NUM_MINORS = 1"
definition MODULE_NAME :: string where "MODULE_NAME = ''timerDriver''"

definition TIMER_TYPE_NONE :: int where "TIMER_TYPE_NONE = - 1"
definition TIMER_TYPE_SET :: int where "TIMER_TYPE_SET = 0"
definition TIMER_TYPE_ALLOC :: int where "TIMER_TYPE_ALLOC = 1"
definition TIMER_TYPE_MONITOR :: int where "TIMER_TYPE_MONITOR = 2"

text \<open>The encoding of ioctl numbers: direction, argument size, type and number.\<close>

definition IOC :: "u32 \<Rightarrow> u32 \<Rightarrow> u32 \<Rightarrow> u32 \<Rightarrow> u32" where
  "IOC dir ty nr sz = push_bit 30 dir OR push_bit 16 sz OR push_bit 8 ty OR nr"

definition MY_IOCTL_TIMER_SET :: u32 where "MY_IOCTL_TIMER_SET = IOC 1 0x6b 1 8"
definition MY_IOCTL_TIMER_CANCEL :: u32 where "MY_IOCTL_TIMER_CANCEL = IOC 0 0x6b 2 0"
definition MY_IOCTL_TIMER_ALLOC :: u32 where "MY_IOCTL_TIMER_ALLOC = IOC 0 0x6b 3 0"
definition MY_IOCTL_TIMER_MONITOR :: u32 where "MY_IOCTL_TIMER_MONITOR = IOC 1 0x6b 4 8"

definition TASK_DEAD :: int where "TASK_DEAD = 0x80"

record monitor_process =
  task :: ptr

record timer_module = "monitor_process list_module" +
  flag :: "nat \<Rightarrow> int"

text \<open>The members of \<open>devices[i]\<close>.\<close>

definition dev_addr :: "nat \<Rightarrow> ptr" where "dev_addr i = Static ''timer.devices'' i ''''"
definition timer_addr :: "nat \<Rightarrow> ptr" where "timer_addr i = Static ''timer.devices'' i ''timer''"
definition work_addr :: "nat \<Rightarrow> ptr" where "work_addr i = Static ''timer.devices'' i ''work_queue''"
definition list_addr :: "nat \<Rightarrow> ptr" where "list_addr i = Static ''timer.devices'' i ''list''"
definition lock_addr :: "nat \<Rightarrow> ptr" where "lock_addr i = Static ''timer.devices'' i ''lock''"

fun dev_of :: "ptr \<Rightarrow> nat option" where
  "dev_of (Static v i m) = (if v = ''timer.devices'' \<and> m = '''' \<and> i < NUM_MINORS then Some i else None)"
| "dev_of p = None"

definition timer_module0 :: timer_module where
  "timer_module0 = \<lparr>klog = [], links = [list_addr 0 \<mapsto> \<lparr>lnext = Null, lprev = Null\<rparr>], heap = Map.empty, flag = (\<lambda>i. 0)\<rparr>"

definition alloc_io :: "kernel \<Rightarrow> tasks \<Rightarrow> timer_module \<Rightarrow> timer_module" where
  "alloc_io K T s =
     (let secs = 10;
          s = kdo K (Time (Set_current_state ''TASK_INTERRUPTIBLE'')) s;
          s = kdo K (Time (Schedule_timeout (of_nat (secs * HZ T)))) s
      in kdo K (Print (Pr_info ''[LOG] I went to sleep for %d seconds im sleepy'' [PInt (int secs)])) s)"

definition sizeof_monitor_process :: nat where "sizeof_monitor_process = 24"

text \<open>The result is an entry or, on the left, the error that \<open>ERR_PTR\<close> encodes.\<close>

definition get_proc :: "kernel \<Rightarrow> int \<Rightarrow> timer_module \<Rightarrow> (int + ptr) \<times> timer_module" where
  "get_proc K pid s =
     (let s = kdo K (Sync Rcu_read_lock) s;
          (t, s) = kcall K (Task (Find_task pid)) s;
          s = kdo K (Sync Rcu_read_unlock) s
      in if ptr_of t = Null then (Inl (- ESRCH), s)
         else
           let (r, s) = kcall K (Mem (Kmalloc sizeof_monitor_process ''GFP_ATOMIC'')) s; p = ptr_of r in
           if p = Null then (Inl (- ENOMEM), s)
           else let s = kdo K (Task (Get_task_struct (ptr_of t))) s in (Inr p, new_node p \<lparr>task = ptr_of t\<rparr> s))"

definition work_handler :: "kernel \<Rightarrow> tasks \<Rightarrow> timer_module \<Rightarrow> timer_module" where
  "work_handler K T s = alloc_io K T s"

text \<open>The body of the loop over the monitored processes.\<close>

definition reap_if_dead :: "list_api \<Rightarrow> kernel \<Rightarrow> ptr \<Rightarrow> timer_module \<Rightarrow> (unit option \<times> timer_module) option" where
  "reap_if_dead L K p s = do {
     process \<leftarrow> heap s p;
     let (st, s) = kcall K (Task (Task_state (task process))) s;
     if st = TASK_DEAD then do {
       let (comm, s) = kcall K (Task (Task_comm (task process))) s;
       let (pid, s) = kcall K (Task (Task_pid (task process))) s;
       let s = kdo K (Print (Pr_info ''task %s (%d) is dead'' [PInt comm, PInt pid])) s;
       let s = kdo K (Task (Put_task_struct (task process))) s;
       s \<leftarrow> unlink_and_free L K p s;
       Some (None, s)
     } else Some (None, s)
   }"

definition timer_handler :: "list_api \<Rightarrow> kernel \<Rightarrow> nat \<Rightarrow> timer_module \<Rightarrow> timer_module option" where
  "timer_handler L K i s = do {
     let s = kdo K (Print (Pr_info ''[timer_handler]'' [])) s;
     if flag s i = TIMER_TYPE_SET then Some s
     else if flag s i = TIMER_TYPE_ALLOC then Some (kdo K (Time (Schedule_work (work_addr i))) s)
     else if flag s i = TIMER_TYPE_MONITOR then do {
       let s = kdo K (Sync (Spin_lock_irqsave (lock_addr i))) s;
       (_, s) \<leftarrow> list_for_each_safe links (list_addr i) (reap_if_dead L K) s;
       Some (kdo K (Sync (Spin_unlock_irqrestore (lock_addr i))) s)
     }
     else Some s
   }"

definition timer_open :: "kernel \<Rightarrow> inode \<Rightarrow> kfile \<Rightarrow> timer_module \<Rightarrow> int \<times> kfile \<times> timer_module" where
  "timer_open K inode file s =
     (let file = file\<lparr>private_data := i_cdev inode\<rparr> in (0, file, kdo K (Print (Pr_info ''[deferred_open]'' [])) s))"

definition timer_release :: "kernel \<Rightarrow> timer_module \<Rightarrow> int \<times> timer_module" where
  "timer_release K s = (0, kdo K (Print (Pr_info ''[deferred_release]'' [])) s)"

definition timer_ioctl ::
    "list_api \<Rightarrow> kernel \<Rightarrow> tasks \<Rightarrow> kfile \<Rightarrow> u32 \<Rightarrow> ulong \<Rightarrow> timer_module \<Rightarrow> (int \<times> timer_module) option" where
  "timer_ioctl L K T file cmd arg s =
     (if cmd = MY_IOCTL_TIMER_SET then do {
        let s = kdo K (Print (Pr_info ''[TIMER SET]'' [])) s;
        i \<leftarrow> dev_of (private_data file);
        let s = s\<lparr>flag := (flag s)(i := TIMER_TYPE_SET)\<rparr>;
        let (j, s) = kcall K (Time Jiffies) s;
        Some (0, kdo K (Time (Mod_timer (timer_addr i) (word_of_int j + arg * of_nat (HZ T)))) s)
      }
      else if cmd = MY_IOCTL_TIMER_CANCEL then do {
        let s = kdo K (Print (Pr_info ''[TIMER CANCEL]'' [])) s;
        i \<leftarrow> dev_of (private_data file);
        Some (0, kdo K (Time (Del_timer (timer_addr i))) s)
      }
      else if cmd = MY_IOCTL_TIMER_ALLOC then do {
        let s = kdo K (Print (Pr_info ''[TIMER ALLOC]'' [])) s;
        i \<leftarrow> dev_of (private_data file);
        let s = s\<lparr>flag := (flag s)(i := TIMER_TYPE_ALLOC)\<rparr>;
        let (j, s) = kcall K (Time Jiffies) s;
        Some (0, kdo K (Time (Mod_timer (timer_addr i) (word_of_int j + arg * of_nat (HZ T)))) s)
      }
      else if cmd = MY_IOCTL_TIMER_MONITOR then do {
        let s = kdo K (Print (Pr_info ''[TIMER MONITOR]'' [])) s;
        let (r, s) = get_proc K (sint (ucast arg :: u32)) s;
        case r of
          Inl e \<Rightarrow> Some (e, s)
        | Inr p \<Rightarrow> do {
            i \<leftarrow> dev_of (private_data file);
            let s = kdo K (Sync (Spin_lock_bh (lock_addr i))) s;
            l \<leftarrow> list_add L p (list_addr i) (links s);
            let s = s\<lparr>links := l\<rparr>;
            let s = kdo K (Sync (Spin_unlock_bh (lock_addr i))) s;
            let s = s\<lparr>flag := (flag s)(i := TIMER_TYPE_MONITOR)\<rparr>;
            let (j, s) = kcall K (Time Jiffies) s;
            Some (0, kdo K (Time (Mod_timer (timer_addr i) (word_of_int j + of_nat (HZ T)))) s)
          }
      }
      else Some (0, s))"

fun setup_devices :: "list_api \<Rightarrow> kernel \<Rightarrow> nat list \<Rightarrow> timer_module \<Rightarrow> timer_module option" where
  "setup_devices L K [] s = Some s"
| "setup_devices L K (i # is) s = do {
     let s = kdo K (Chrdev (Cdev_init (dev_addr i) ''timer_fops'')) s;
     let s = kdo K (Chrdev (Cdev_add (dev_addr i) (MKDEV MAJOR_NUMBER i) 1)) s;
     let s = kdo K (Time (Timer_setup (timer_addr i) ''timer_handler'')) s;
     let s = kdo K (Time (Init_work (work_addr i) ''work_handler'')) s;
     let s = kdo K (Sync (Spin_lock_init (lock_addr i))) s;
     l \<leftarrow> INIT_LIST_HEAD L (list_addr i) (links s);
     let s = s\<lparr>links := l\<rparr>;
     let s = s\<lparr>flag := (flag s)(i := TIMER_TYPE_NONE)\<rparr>;
     setup_devices L K is s
   }"

definition deferred_init :: "list_api \<Rightarrow> kernel \<Rightarrow> timer_module \<Rightarrow> (int \<times> timer_module) option" where
  "deferred_init L K s = do {
     let (result, s) = kcall K (Chrdev (Register_chrdev_region
           (MKDEV MAJOR_NUMBER MINOR_NUMBER) NUM_MINORS MODULE_NAME)) s;
     if result \<noteq> 0 then
       Some (result, kdo K (Print (Pr_debug ''[ERROR] failed to register device in chrdev region'' [])) s)
     else do {
       s \<leftarrow> setup_devices L K [0..<NUM_MINORS] s;
       Some (0, kdo K (Print (Pr_info ''[LOG] registered %s char device in memory success'' [PStr MODULE_NAME])) s)
     }
   }"

text \<open>The body of the loop of the exit function.\<close>

definition drop_process :: "list_api \<Rightarrow> kernel \<Rightarrow> ptr \<Rightarrow> timer_module \<Rightarrow> (unit option \<times> timer_module) option" where
  "drop_process L K p s = do {
     process \<leftarrow> heap s p;
     let s = kdo K (Task (Put_task_struct (task process))) s;
     s \<leftarrow> unlink_and_free L K p s;
     Some (None, s)
   }"

fun teardown_devices :: "list_api \<Rightarrow> kernel \<Rightarrow> nat list \<Rightarrow> timer_module \<Rightarrow> timer_module option" where
  "teardown_devices L K [] s = Some s"
| "teardown_devices L K (i # is) s = do {
     let s = kdo K (Chrdev (Cdev_del (dev_addr i))) s;
     let s = kdo K (Time (Del_timer (timer_addr i))) s;
     let s = kdo K (Time (Cancel_work_sync (work_addr i))) s;
     (_, s) \<leftarrow> list_for_each_safe links (list_addr i) (drop_process L K) s;
     teardown_devices L K is s
   }"

definition deferred_exit :: "list_api \<Rightarrow> kernel \<Rightarrow> timer_module \<Rightarrow> timer_module option" where
  "deferred_exit L K s = do {
     let s = kdo K (Print (Pr_info ''[LOG] Unregistered %s from kernel space'' [PStr MODULE_NAME])) s;
     s \<leftarrow> teardown_devices L K [0..<NUM_MINORS] s;
     Some (kdo K (Chrdev (Unregister_chrdev_region (MKDEV MAJOR_NUMBER MINOR_NUMBER) NUM_MINORS)) s)
   }"

section \<open>Queries and the invariant\<close>

text \<open>The task states that were read, in order.\<close>

fun state_read :: "kcall \<times> int \<Rightarrow> int list" where
  "state_read (Task (Task_state q), r) = [r]"
| "state_read _ = []"

definition state_reads :: "klog \<Rightarrow> int list" where
  "state_reads h = concat (map state_read h)"

lemma state_reads_kdo [log_simps]: "state_reads (klog (kdo K c s)) = state_reads (klog s) @ state_read (c, kret K (klog s) c)"
  by (simp add: state_reads_def kdo_klog)

text \<open>The calls about time, timers and work items, in order.\<close>

fun time_call :: "kcall \<times> int \<Rightarrow> time_call list" where
  "time_call (Time c, r) = [c]"
| "time_call _ = []"

definition time_calls :: "klog \<Rightarrow> time_call list" where
  "time_calls h = concat (map time_call h)"

lemma time_calls_kdo [log_simps]: "time_calls (klog (kdo K c s)) = time_calls (klog s) @ time_call (c, kret K (klog s) c)"
  by (simp add: time_calls_def kdo_klog)

text \<open>
  What protects a task structure: it stays allocated inside an RCU read section and while the driver holds a reference
  to it. \<open>unprotected h\<close> lists the tasks that were touched at a point where neither was the case.
\<close>

fun rcu_step :: "nat \<Rightarrow> kcall \<times> int \<Rightarrow> nat" where
  "rcu_step n (Sync Rcu_read_lock, r) = Suc n"
| "rcu_step n (Sync Rcu_read_unlock, r) = n - 1"
| "rcu_step n e = n"

definition rcu_depth :: "klog \<Rightarrow> nat" where "rcu_depth h = foldl rcu_step 0 h"

fun task_touched :: "kcall \<Rightarrow> ptr option" where
  "task_touched (Task (Get_task_struct t)) = Some t"
| "task_touched (Task (Put_task_struct t)) = Some t"
| "task_touched (Task (Task_state t)) = Some t"
| "task_touched (Task (Task_pid t)) = Some t"
| "task_touched (Task (Task_comm t)) = Some t"
| "task_touched c = None"

definition unprotected_at :: "klog \<Rightarrow> kcall \<Rightarrow> ptr list" where
  "unprotected_at h c =
     (case task_touched c of
        None \<Rightarrow> []
      | Some t \<Rightarrow> if rcu_depth h = 0 \<and> RTask t \<notin> set (held_tasks h) then [t] else [])"

definition unprotected :: "klog \<Rightarrow> ptr list" where
  "unprotected h = concat (map (\<lambda>i. unprotected_at (take i h) (fst (h ! i))) [0..<length h])"

lemma unprotected_snoc: "unprotected (h @ [e]) = unprotected h @ unprotected_at h (fst e)"
proof -
  let ?f = "\<lambda>h i. unprotected_at (take i h) (fst (h ! i))"
  have "map (?f (h @ [e])) [0..<length h] = map (?f h) [0..<length h]" by (auto simp: nth_append)
  moreover have "[0..<length (h @ [e])] = [0..<length h] @ [length h]" by simp
  ultimately show ?thesis by (simp only: unprotected_def map_append concat_append) simp
qed

lemma unprotected_kdo [log_simps]:
  "unprotected (klog (kdo K c s)) = unprotected (klog s) @ unprotected_at (klog s) c"
  by (simp add: kdo_klog unprotected_snoc)

lemma unprotected_at_other [log_simps]:
  "unprotected_at h (Chrdev a) = []" "unprotected_at h (Port b) = []" "unprotected_at h (Mem m) = []"
  "unprotected_at h (Sync c) = []" "unprotected_at h (Time d) = []" "unprotected_at h (Print e) = []"
  "unprotected_at h (Net n1) = []" "unprotected_at h (Entry n2) = []" "unprotected_at h (Page n3) = []"
  "unprotected_at h (Task (Find_task i)) = []"
  by (simp_all add: unprotected_at_def)

lemma unprotected_at_held: "task_touched c = Some t \<Longrightarrow> RTask t \<in> set (held_tasks h) \<Longrightarrow> unprotected_at h c = []"
  by (simp add: unprotected_at_def)

lemma rcu_depth_kdo [log_simps]: "rcu_depth (klog (kdo K c s)) = rcu_step (rcu_depth (klog s)) (c, kret K (klog s) c)"
  by (simp add: rcu_depth_def kdo_klog)

text \<open>
  The monitored processes are \<open>xs\<close>: they are the list, their memory is the memory the driver holds, and each of them
  owns exactly one reference to its task.
\<close>

definition refs_ok :: "(ptr \<times> monitor_process) list \<Rightarrow> timer_module \<Rightarrow> bool" where
  "refs_ok xs s \<longleftrightarrow> store_ok (list_addr 0) xs [] s \<and>
     mset (held_tasks (klog s)) = mset (map (RTask \<circ> task \<circ> snd) xs)"

definition timer_ok :: "(ptr \<times> monitor_process) list \<Rightarrow> timer_module \<Rightarrow> bool" where
  "timer_ok xs s \<longleftrightarrow> refs_ok xs s \<and> locks (klog s) = Some []"

lemma kdo_flag [simp]: "flag (kdo K c s) = flag s"
  by (simp add: kdo_eq)

lemma refs_ok_kdo [simp]:
  "refs_ok xs (kdo K (Sync a) s) = refs_ok xs s" "refs_ok xs (kdo K (Time b) s) = refs_ok xs s"
  "refs_ok xs (kdo K (Print c) s) = refs_ok xs s" "refs_ok xs (kdo K (Chrdev d) s) = refs_ok xs s"
  "refs_ok xs (kdo K (Task (Task_state q)) s) = refs_ok xs s" "refs_ok xs (kdo K (Task (Task_pid q)) s) = refs_ok xs s"
  "refs_ok xs (kdo K (Task (Task_comm q)) s) = refs_ok xs s" "refs_ok xs (kdo K (Task (Find_task n)) s) = refs_ok xs s"
  by (simp_all add: refs_ok_def store_ok_def log_simps)

lemma refs_ok_flag [simp]: "refs_ok xs (s\<lparr>flag := f\<rparr>) = refs_ok xs s"
  by (simp add: refs_ok_def store_ok_def)

lemma refs_ok_task: "refs_ok (xs @ (p, n) # ys) s \<Longrightarrow> RTask (task n) \<in> set (held_tasks (klog s))"
  using mset_eq_setD [of "held_tasks (klog s)" "map (RTask \<circ> task \<circ> snd) (xs @ (p, n) # ys)"]
  by (auto simp: refs_ok_def)

lemma unlink_and_free_flag: "unlink_and_free L K p s = Some s' \<Longrightarrow> flag s' = flag s"
  by (auto simp: unlink_and_free_def kfree_node_def kdo_eq bind_Some_conv)

text \<open>The processes that are still there, when the state of the \<open>n\<close>-th one read as the \<open>n\<close>-th of \<open>js\<close>.\<close>

definition alive :: "(ptr \<times> monitor_process) list \<Rightarrow> int list \<Rightarrow> (ptr \<times> monitor_process) list" where
  "alive xs js = map fst (filter (\<lambda>(x, j). j \<noteq> TASK_DEAD) (zip xs js))"

lemma alive_append:
  "length js = length ds \<Longrightarrow> alive (ds @ [x]) (js @ [j]) = alive ds js @ (if j = TASK_DEAD then [] else [x])"
  by (simp add: alive_def)

text \<open>The loop of the handler under way: \<open>ds\<close> are checked, their states read as \<open>js\<close>, and \<open>ys\<close> are to come.\<close>

definition reaping :: "timer_module \<Rightarrow> (ptr \<times> monitor_process) list \<Rightarrow> (ptr \<times> monitor_process) list \<Rightarrow> int list
    \<Rightarrow> timer_module \<Rightarrow> bool" where
  "reaping s0 ds ys js s \<longleftrightarrow> length js = length ds \<and> refs_ok (alive ds js @ ys) s \<and>
     locks (klog s) = locks (klog s0) \<and> state_reads (klog s) = state_reads (klog s0) @ js \<and>
     armings (klog s) = armings (klog s0) \<and> unprotected (klog s) = unprotected (klog s0) \<and> flag s = flag s0"

text \<open>A file opened on the device, and the events of the driver while it is loaded.\<close>

definition opened_file :: kfile where "opened_file = \<lparr>private_data = dev_addr 0\<rparr>"

datatype timer_event = Opened | Released | Ioctl u32 ulong | Fired | Worked

fun timer_exec ::
    "list_api \<Rightarrow> kernel \<Rightarrow> tasks \<Rightarrow> timer_event \<Rightarrow> timer_module \<Rightarrow> timer_module option" where
  "timer_exec L K T Opened s = Some (snd (snd (timer_open K \<lparr>i_cdev = dev_addr 0\<rparr> \<lparr>private_data = Null\<rparr> s)))"
| "timer_exec L K T Released s = Some (snd (timer_release K s))"
| "timer_exec L K T (Ioctl cmd arg) s = map_option snd (timer_ioctl L K T opened_file cmd arg s)"
| "timer_exec L K T Fired s = timer_handler L K 0 s"
| "timer_exec L K T Worked s = Some (work_handler K T s)"

inductive timer_reach :: "list_api \<Rightarrow> kernel \<Rightarrow> tasks \<Rightarrow> timer_module \<Rightarrow> bool" for L K T where
  loaded: "deferred_init L K timer_module0 = Some (0, s) \<Longrightarrow> timer_reach L K T s"
| event: "timer_reach L K T s \<Longrightarrow> timer_exec L K T e s = Some s' \<Longrightarrow> timer_reach L K T s'"

lemma ioctl_numbers:
  "MY_IOCTL_TIMER_SET = 0x40086b01" "MY_IOCTL_TIMER_CANCEL = 0x6b02" "MY_IOCTL_TIMER_ALLOC = 0x6b03"
  "MY_IOCTL_TIMER_MONITOR = 0x40086b04"
  by (simp_all add: MY_IOCTL_TIMER_SET_def MY_IOCTL_TIMER_CANCEL_def MY_IOCTL_TIMER_ALLOC_def
      MY_IOCTL_TIMER_MONITOR_def IOC_def push_bit_eq_mult)

lemma dev_of_opened [simp]: "dev_of (private_data opened_file) = Some 0"
  by (simp add: opened_file_def dev_addr_def NUM_MINORS_def)

lemmas ioctl_simps = timer_ioctl_def ioctl_numbers kcall_eq Let_def

context list_h
begin

text \<open>Dropping one process: its reference, its place in the list and its memory go.\<close>

lemma drop_one:
  assumes "refs_ok (xs @ (p, n) # ys) s"
  shows "\<exists>s'. unlink_and_free L K p (kdo K (Task (Put_task_struct (task n))) s) = Some s' \<and> refs_ok (xs @ ys) s' \<and>
    locks (klog s') = locks (klog s) \<and> state_reads (klog s') = state_reads (klog s) \<and>
    armings (klog s') = armings (klog s) \<and> unprotected (klog s') = unprotected (klog s) \<and> flag s' = flag s \<and>
    time_calls (klog s') = time_calls (klog s)"
proof -
  have h: "RTask (task n) \<in> set (held_tasks (klog s))" by (rule refs_ok_task [OF assms])
  let ?s = "kdo K (Task (Put_task_struct (task n))) s"
  have "store_ok (list_addr 0) (xs @ (p, n) # ys) [] ?s"
    using assms by (simp add: refs_ok_def store_ok_def log_simps)
  then obtain s' where s': "unlink_and_free L K p ?s = Some s'" "store_ok (list_addr 0) (xs @ ys) [] s'"
      "klog s' = klog (kdo K (Mem (Kfree p)) ?s)"
    using store_ok_unlink_and_free [of "list_addr 0" xs p n ys "[]" ?s K] by blast
  then show ?thesis
    using assms unlink_and_free_flag [OF s'(1)] unprotected_at_held [OF _ h]
    by (auto simp: refs_ok_def log_simps)
qed

lemma reap_step:
  assumes "reaping s0 ds ((p, n) # ys) js s"
  shows "\<exists>s' j. reap_if_dead L K p s = Some (None, s') \<and> reaping s0 (ds @ [(p, n)]) ys (js @ [j]) s'"
proof -
  let ?q = "Task (Task_state (task n))" and ?k = "alive ds js"
  let ?s = "kdo K ?q s"
  have r: "refs_ok (?k @ (p, n) # ys) s" "length js = length ds" using assms by (simp_all add: reaping_def)
  have h: "heap s p = Some n" using r(1) store_ok_heap by (fastforce simp: refs_ok_def)
  have t: "RTask (task n) \<in> set (held_tasks (klog s))" by (rule refs_ok_task [OF r(1)])
  show ?thesis
  proof (cases "kret K (klog s) ?q = TASK_DEAD")
    case False
    then have "reaping s0 (ds @ [(p, n)]) ys (js @ [kret K (klog s) ?q]) ?s"
      using assms r unprotected_at_held [OF _ t] by (simp add: reaping_def alive_append log_simps)
    then show ?thesis using h False by (intro exI [of _ ?s] exI [of _ "kret K (klog s) ?q"]) (simp add: reap_if_dead_def kcall_eq)
  next
    case True
    define t where "t = kdo K (Task (Task_pid (task n))) (kdo K (Task (Task_comm (task n))) ?s)"
    define u where "u = kdo K (Print (Pr_info ''task %s (%d) is dead''
      [PInt (kret K (klog ?s) (Task (Task_comm (task n)))),
       PInt (kret K (klog (kdo K (Task (Task_comm (task n))) ?s)) (Task (Task_pid (task n))))])) t"
    have "refs_ok (?k @ (p, n) # ys) u" using r(1) by (simp add: u_def t_def)
    then obtain s' where s': "unlink_and_free L K p (kdo K (Task (Put_task_struct (task n))) u) = Some s'"
        "refs_ok (?k @ ys) s'" "locks (klog s') = locks (klog u)" "state_reads (klog s') = state_reads (klog u)"
        "armings (klog s') = armings (klog u)" "unprotected (klog s') = unprotected (klog u)" "flag s' = flag u"
      using drop_one by blast
    have "unprotected (klog u) = unprotected (klog s)"
      using unprotected_at_held [OF _ t] t by (simp add: u_def t_def log_simps unprotected_at_def)
    then have "reaping s0 (ds @ [(p, n)]) ys (js @ [TASK_DEAD]) s'"
      using assms r True s' by (simp add: reaping_def alive_append u_def t_def log_simps)
    moreover have "reap_if_dead L K p s = Some (None, s')"
      using h True s'(1) by (simp add: reap_if_dead_def kcall_eq u_def t_def)
    ultimately show ?thesis by blast
  qed
qed

lemma reap_loop:
  assumes "refs_ok xs s"
  shows "\<exists>s' js. list_for_each_safe links (list_addr 0) (reap_if_dead L K) s = Some (None, s') \<and> reaping s xs [] js s'"
proof -
  let ?I = "\<lambda>ps s'. \<exists>ds ys js. xs = ds @ ys \<and> ps = map fst ys \<and> reaping s ds ys js s'"
  have "\<exists>r s'. list_for_each_safe links (list_addr 0) (reap_if_dead L K) s = Some (r, s') \<and>
      (case r of Some x \<Rightarrow> False | None \<Rightarrow> ?I [] s')"
  proof (rule list_for_each_safe_rule)
    show "is_list (links s) (list_addr 0) (map fst xs)" using assms store_ok_list by (fastforce simp: refs_ok_def)
    show "?I (map fst xs) s"
      using assms by (intro exI [of _ "[]"] exI [of _ xs]) (simp add: reaping_def alive_def)
    fix q ps s1 assume "?I (q # ps) s1"
    then obtain ds n ys js where xs: "xs = ds @ (q, n) # ys" "ps = map fst ys" and r: "reaping s ds ((q, n) # ys) js s1"
      by (auto simp: Cons_eq_map_conv)
    obtain s2 j where s2: "reap_if_dead L K q s1 = Some (None, s2)" "reaping s (ds @ [(q, n)]) ys (js @ [j]) s2"
      using reap_step [OF r] by blast
    then have "?I ps s2" using xs by (intro exI [of _ "ds @ [(q, n)]"] exI [of _ ys] exI [of _ "js @ [j]"]) simp
    moreover have "\<exists>us. is_list (links s2) (list_addr 0) (us @ ps)"
      using s2(2) xs(2) store_ok_list [of "list_addr 0" "alive (ds @ [(q, n)]) (js @ [j]) @ ys" "[]" s2]
      unfolding reaping_def refs_ok_def by (metis map_append)
    ultimately show "\<exists>r s'. reap_if_dead L K q s1 = Some (r, s') \<and>
        (case r of Some x \<Rightarrow> False | None \<Rightarrow> ?I ps s' \<and> (\<exists>us. is_list (links s') (list_addr 0) (us @ ps)))"
      using s2(1) by (intro exI [of _ None] exI [of _ s2]) simp
  qed
  then obtain r s' where f: "list_for_each_safe links (list_addr 0) (reap_if_dead L K) s = Some (r, s')"
    "case r of Some x \<Rightarrow> False | None \<Rightarrow> ?I [] s'" by (elim exE conjE)
  then show ?thesis by (cases r) auto
qed

lemma drop_loop:
  assumes "refs_ok xs s"
  shows "\<exists>s'. list_for_each_safe links (list_addr 0) (drop_process L K) s = Some (None, s') \<and> refs_ok [] s' \<and>
    locks (klog s') = locks (klog s) \<and> unprotected (klog s') = unprotected (klog s) \<and> time_calls (klog s') = time_calls (klog s)"
proof -
  let ?I = "\<lambda>ps s'. \<exists>ys. ps = map fst ys \<and> refs_ok ys s' \<and> locks (klog s') = locks (klog s) \<and>
    unprotected (klog s') = unprotected (klog s) \<and> time_calls (klog s') = time_calls (klog s)"
  have "\<exists>r s'. list_for_each_safe links (list_addr 0) (drop_process L K) s = Some (r, s') \<and>
      (case r of Some x \<Rightarrow> False | None \<Rightarrow> ?I [] s')"
  proof (rule list_for_each_safe_rule)
    show "is_list (links s) (list_addr 0) (map fst xs)" using assms store_ok_list by (fastforce simp: refs_ok_def)
    show "?I (map fst xs) s" using assms by blast
    fix q ps s1 assume "?I (q # ps) s1"
    then obtain n ys where ys: "ps = map fst ys" "refs_ok ([] @ (q, n) # ys) s1" "locks (klog s1) = locks (klog s)"
      "unprotected (klog s1) = unprotected (klog s)" "time_calls (klog s1) = time_calls (klog s)"
      by (auto simp: Cons_eq_map_conv)
    then obtain s2 where s2: "unlink_and_free L K q (kdo K (Task (Put_task_struct (task n))) s1) = Some s2"
        "refs_ok ys s2" "locks (klog s2) = locks (klog s1)" "unprotected (klog s2) = unprotected (klog s1)"
        "time_calls (klog s2) = time_calls (klog s1)"
      using drop_one [of "[]" q n ys s1] by auto
    moreover have "heap s1 q = Some n"
      using ys(2) store_ok_heap [of "list_addr 0" "[]" q n ys "[]" s1] by (simp add: refs_ok_def)
    ultimately have "drop_process L K q s1 = Some (None, s2)" by (simp add: drop_process_def)
    then show "\<exists>r s'. drop_process L K q s1 = Some (r, s') \<and>
        (case r of Some x \<Rightarrow> False | None \<Rightarrow> ?I ps s' \<and> (\<exists>us. is_list (links s') (list_addr 0) (us @ ps)))"
      using s2 ys store_ok_list [of "list_addr 0" ys "[]" s2]
      by (intro exI [of _ None] exI [of _ s2]) (auto simp: refs_ok_def intro: exI [of _ "[]"])
  qed
  then obtain r s' where f: "list_for_each_safe links (list_addr 0) (drop_process L K) s = Some (r, s')"
    "case r of Some x \<Rightarrow> False | None \<Rightarrow> ?I [] s'" by (elim exE conjE)
  then show ?thesis by (cases r) auto
qed

lemma handler_ok:
  assumes "timer_ok xs s"
  shows "\<exists>s' js. timer_handler L K 0 s = Some s' \<and> timer_ok (if flag s 0 = TIMER_TYPE_MONITOR then alive xs js else xs) s' \<and>
    (flag s 0 = TIMER_TYPE_MONITOR \<longrightarrow> length js = length xs \<and> state_reads (klog s') = state_reads (klog s) @ js) \<and>
    armings (klog s') = armings (klog s) \<and> unprotected (klog s') = unprotected (klog s) \<and> flag s' = flag s"
proof (cases "flag s 0 = TIMER_TYPE_MONITOR")
  case True
  let ?s = "kdo K (Sync (Spin_lock_irqsave (lock_addr 0))) (kdo K (Print (Pr_info ''[timer_handler]'' [])) s)"
  have s: "refs_ok xs ?s" "locks (klog ?s) = Some [(lock_addr 0, Irqsave)]"
    using assms by (simp_all add: timer_ok_def log_simps)
  obtain s1 js where s1: "list_for_each_safe links (list_addr 0) (reap_if_dead L K) ?s = Some (None, s1)"
    "reaping ?s xs [] js s1" using reap_loop [OF s(1)] by blast
  then have "timer_handler L K 0 s = Some (kdo K (Sync (Spin_unlock_irqrestore (lock_addr 0))) s1)"
    using True by (simp add: timer_handler_def TIMER_TYPE_MONITOR_def TIMER_TYPE_SET_def TIMER_TYPE_ALLOC_def)
  then show ?thesis
    using s1(2) s(2) True by (intro exI exI [of _ js]) (auto simp: reaping_def timer_ok_def log_simps)
next
  case False
  then show ?thesis using assms by (auto simp: timer_handler_def Let_def timer_ok_def log_simps)
qed

lemma get_proc_ok:
  assumes "timer_ok xs s" and "kmalloc_fresh K"
  shows "\<exists>r s'. get_proc K pid s = (r, s') \<and> locks (klog s') = Some [] \<and> flag s' = flag s \<and>
    armings (klog s') = armings (klog s) \<and>
    (case r of Inl e \<Rightarrow> timer_ok xs s' \<and> (e = - ESRCH \<or> e = - ENOMEM)
     | Inr p \<Rightarrow> \<exists>n. store_ok (list_addr 0) xs [(p, n)] s' \<and>
         mset (held_tasks (klog s')) = mset (map (RTask \<circ> task \<circ> snd) ((p, n) # xs)))"
proof -
  let ?f = "Task (Find_task pid)" and ?m = "Mem (Kmalloc sizeof_monitor_process ''GFP_ATOMIC'')"
  let ?s0 = "kdo K (Sync Rcu_read_lock) s"
  let ?t = "ptr_of (kret K (klog ?s0) ?f)" and ?s1 = "kdo K (Sync Rcu_read_unlock) (kdo K ?f ?s0)"
  let ?r = "kret K (klog ?s1) ?m"
  have 1: "timer_ok xs ?s1" using assms(1) by (simp add: timer_ok_def log_simps)
  consider (none) "?t = Null" | (nomem) "?t \<noteq> Null" "?r = 0" | (ok) "?t \<noteq> Null" "?r \<noteq> 0" by blast
  then show ?thesis
  proof cases
    case none
    then show ?thesis using 1 by (auto simp: get_proc_def kcall_eq Let_def timer_ok_def log_simps)
  next
    case nomem
    then have "timer_ok xs (kdo K ?m ?s1)" using 1 by (simp add: timer_ok_def refs_ok_def store_ok_def log_simps)
    then show ?thesis using nomem by (auto simp: get_proc_def kcall_eq Let_def timer_ok_def log_simps)
  next
    case ok
    let ?n = "\<lparr>task = ?t\<rparr>" and ?p = "Heap ?r"
    let ?s2 = "new_node ?p ?n (kdo K (Task (Get_task_struct ?t)) (kdo K ?m ?s1))"
    have "store_ok (list_addr 0) xs [(?p, ?n)] (new_node ?p ?n (kdo K ?m ?s1))"
      using 1 assms(2) ok by (intro store_ok_alloc) (auto simp: timer_ok_def refs_ok_def list_addr_def)
    then have "store_ok (list_addr 0) xs [(?p, ?n)] ?s2" by (rule store_ok_same) (simp_all add: new_node_def log_simps)
    moreover have "get_proc K pid s = (Inr ?p, ?s2)" using ok by (simp add: get_proc_def kcall_eq Let_def)
    moreover have "locks (klog ?s2) = Some []" "flag ?s2 = flag s" "armings (klog ?s2) = armings (klog s)"
        "mset (held_tasks (klog ?s2)) = mset (map (RTask \<circ> task \<circ> snd) ((?p, ?n) # xs))"
      using 1 by (simp_all add: new_node_def timer_ok_def refs_ok_def log_simps)
    ultimately show ?thesis by (intro exI [of _ "Inr ?p"] exI [of _ ?s2]) auto
  qed
qed

lemma monitor_ok:
  assumes "timer_ok xs s" and "kmalloc_fresh K"
  shows "\<exists>e s'. timer_ioctl L K T opened_file MY_IOCTL_TIMER_MONITOR arg s = Some (e, s') \<and>
    (if e = 0 then (\<exists>x. timer_ok (x # xs) s') \<and> flag s' = (flag s)(0 := TIMER_TYPE_MONITOR) \<and>
       (\<exists>j. armings (klog s') = armings (klog s) @ [(timer_addr 0, j + of_nat (HZ T))])
     else (e = - ESRCH \<or> e = - ENOMEM) \<and> timer_ok xs s' \<and> flag s' = flag s \<and> armings (klog s') = armings (klog s))"
proof -
  let ?s0 = "kdo K (Print (Pr_info ''[TIMER MONITOR]'' [])) s"
  have 0: "timer_ok xs ?s0" using assms(1) by (simp add: timer_ok_def log_simps)
  obtain r s1 where g: "get_proc K (sint (ucast arg :: u32)) ?s0 = (r, s1)" "locks (klog s1) = Some []" "flag s1 = flag ?s0"
      "armings (klog s1) = armings (klog ?s0)"
    and r: "case r of Inl e \<Rightarrow> timer_ok xs s1 \<and> (e = - ESRCH \<or> e = - ENOMEM)
     | Inr p \<Rightarrow> \<exists>n. store_ok (list_addr 0) xs [(p, n)] s1 \<and>
         mset (held_tasks (klog s1)) = mset (map (RTask \<circ> task \<circ> snd) ((p, n) # xs))"
    using get_proc_ok [OF 0 assms(2), of "sint (ucast arg :: u32)"] by (elim exE conjE) (rule that)
  show ?thesis
  proof (cases r)
    case (Inl e)
    then show ?thesis using g r by (auto simp: ioctl_simps log_simps errno_defs)
  next
    case (Inr p)
    then obtain n where n: "store_ok (list_addr 0) xs [(p, n)] s1"
      "mset (held_tasks (klog s1)) = mset (map (RTask \<circ> task \<circ> snd) ((p, n) # xs))" using r by auto
    let ?s2 = "kdo K (Sync (Spin_lock_bh (lock_addr 0))) s1"
    have "store_ok (list_addr 0) xs [(p, n)] ?s2" using n(1) by simp
    then obtain l where l: "list_add L p (list_addr 0) (links ?s2) = Some l"
      "store_ok (list_addr 0) ((p, n) # xs) [] (?s2\<lparr>links := l\<rparr>)"
      using store_ok_add [of "list_addr 0" xs p n "[]" ?s2] by blast
    have "refs_ok ((p, n) # xs) (?s2\<lparr>links := l\<rparr>)" using l(2) n(2) by (simp add: refs_ok_def log_simps)
    then have "timer_ok ((p, n) # xs) (kdo K (Sync (Spin_unlock_bh (lock_addr 0))) (?s2\<lparr>links := l\<rparr>))"
      using g(2) by (simp add: timer_ok_def log_simps)
    then show ?thesis
      using g l(1) Inr by (auto simp: ioctl_simps log_simps timer_ok_def)
  qed
qed

lemma ioctl_ok:
  assumes "timer_ok xs s" and "kmalloc_fresh K"
  shows "\<exists>e s' ys. timer_ioctl L K T opened_file cmd arg s = Some (e, s') \<and> timer_ok ys s'"
proof (cases "cmd = MY_IOCTL_TIMER_MONITOR")
  case True
  then show ?thesis using monitor_ok [OF assms, of T arg] by (auto split: if_splits)
next
  case False
  have "\<exists>e s'. timer_ioctl L K T opened_file cmd arg s = Some (e, s') \<and> timer_ok xs s'"
    using assms(1) False by (auto simp: timer_ioctl_def kcall_eq Let_def timer_ok_def log_simps)
  then show ?thesis by blast
qed

lemma exec_ok:
  assumes "timer_ok xs s" and "kmalloc_fresh K"
  shows "\<exists>s' ys. timer_exec L K T e s = Some s' \<and> timer_ok ys s'"
proof (cases e)
  case (Ioctl cmd arg)
  then show ?thesis using ioctl_ok [OF assms, of T cmd arg] by auto
next
  case Fired
  then show ?thesis using handler_ok [OF assms(1), of K] by auto
qed (use assms(1) in \<open>auto simp: timer_open_def timer_release_def work_handler_def alloc_io_def Let_def timer_ok_def log_simps
      intro!: exI [of _ xs]\<close>)

lemma deferred_init_ok:
  shows "\<exists>r s. deferred_init L K timer_module0 = Some (r, s) \<and> (r = 0 \<longrightarrow> timer_ok [] s \<and> flag s 0 = TIMER_TYPE_NONE)"
proof -
  let ?r = "Chrdev (Register_chrdev_region (MKDEV MAJOR_NUMBER MINOR_NUMBER) NUM_MINORS MODULE_NAME)"
  let ?s = "kdo K (Sync (Spin_lock_init (lock_addr 0))) (kdo K (Time (Init_work (work_addr 0) ''work_handler''))
    (kdo K (Time (Timer_setup (timer_addr 0) ''timer_handler'')) (kdo K (Chrdev (Cdev_add (dev_addr 0) (MKDEV MAJOR_NUMBER 0) 1))
    (kdo K (Chrdev (Cdev_init (dev_addr 0) ''timer_fops'')) (kdo K ?r timer_module0)))))"
  have 0: "held_mem (klog timer_module0) = []" "held_tasks (klog timer_module0) = []" "locks (klog timer_module0) = Some []"
    by (simp_all add: timer_module0_def held_mem_def held_tasks_def held_def log_simps)
  then have s: "held_mem (klog ?s) = []" "held_tasks (klog ?s) = []" "locks (klog ?s) = Some []"
    by (simp_all add: log_simps)
  have "list_addr 0 \<in> dom (links ?s)" "heap ?s = Map.empty" by (simp_all add: timer_module0_def)
  then obtain l where l: "INIT_LIST_HEAD L (list_addr 0) (links ?s) = Some l" "store_ok (list_addr 0) [] [] (?s\<lparr>links := l\<rparr>)"
    using store_ok_start [OF _ _ s(1)] by blast
  then have "timer_ok [] (?s\<lparr>links := l\<rparr>)" using s by (simp add: timer_ok_def refs_ok_def)
  then show ?thesis
    using l(1) by (auto simp: deferred_init_def NUM_MINORS_def kcall_eq Let_def timer_ok_def log_simps)
qed

lemma reach_ok:
  assumes "timer_reach L K T s" and "kmalloc_fresh K"
  shows "\<exists>xs. timer_ok xs s"
  using assms(1)
proof (induction rule: timer_reach.induct)
  case (loaded s)
  then show ?case using deferred_init_ok [of K] by auto
next
  case (event s e s')
  then show ?case using exec_ok [OF _ assms(2), of _ s T e] by auto
qed

lemma deferred_exit_ok:
  assumes "timer_ok xs s"
  shows "\<exists>s'. deferred_exit L K s = Some s' \<and> timer_ok [] s' \<and> unprotected (klog s') = unprotected (klog s) \<and>
    time_calls (klog s') = time_calls (klog s) @ [Del_timer (timer_addr 0), Cancel_work_sync (work_addr 0)]"
proof -
  let ?s = "kdo K (Time (Cancel_work_sync (work_addr 0))) (kdo K (Time (Del_timer (timer_addr 0)))
    (kdo K (Chrdev (Cdev_del (dev_addr 0))) (kdo K (Print (Pr_info ''[LOG] Unregistered %s from kernel space'' [PStr MODULE_NAME])) s)))"
  have s: "refs_ok xs ?s" "locks (klog ?s) = Some []" using assms by (simp_all add: timer_ok_def log_simps)
  obtain s' where "list_for_each_safe links (list_addr 0) (drop_process L K) ?s = Some (None, s')" "refs_ok [] s'"
    "locks (klog s') = locks (klog ?s)" "unprotected (klog s') = unprotected (klog ?s)" "time_calls (klog s') = time_calls (klog ?s)"
    using drop_loop [OF s(1)] by blast
  then show ?thesis using s(2) by (simp add: deferred_exit_def NUM_MINORS_def timer_ok_def log_simps)
qed

end

section \<open>Theorems\<close>

text \<open>
  C9: Whatever files do, whenever the timer fires and the work runs, the driver never faults, its list stays well
  formed, its memory is exactly that of the listed processes, and it holds exactly one reference to the task of
  each of them.
\<close>

theorem timer_references_match_list:
  assumes "kmalloc_fresh K" and "timer_reach dll K T s"
  shows "\<exists>xs. is_list (links s) (list_addr 0) (map fst xs) \<and> heap s = map_of xs \<and>
    mset (held_mem (klog s)) = mset (map (RMem \<circ> fst) xs) \<and>
    mset (held_tasks (klog s)) = mset (map (RTask \<circ> task \<circ> snd) xs) \<and>
    locks (klog s) = Some [] \<and> (\<forall>e. \<exists>s'. timer_exec dll K T e s = Some s')"
proof -
  obtain xs where xs: "timer_ok xs s" using header.reach_ok [OF assms(2,1)] by blast
  have "\<exists>s'. timer_exec dll K T e s = Some s'" for e using header.exec_ok [OF xs assms(1), of T e] by blast
  then show ?thesis using xs by (intro exI [of _ xs]) (simp add: timer_ok_def refs_ok_def store_ok_def)
qed


text \<open>
  C36: A monitoring request either succeeds, with one entry more at the front of the list and the timer armed for one second
  from now, or reports that there is no such process or no memory and leaves the list, the references, the mode and the
  timer as they were.
\<close>

theorem timer_monitor_all_or_nothing:
  assumes "timer_ok xs s" and "kmalloc_fresh K"
  shows "\<exists>e s'. timer_ioctl dll K T opened_file MY_IOCTL_TIMER_MONITOR arg s = Some (e, s') \<and>
    (e = 0 \<and> (\<exists>x. timer_ok (x # xs) s') \<and> flag s' 0 = TIMER_TYPE_MONITOR \<and>
       (\<exists>j. armings (klog s') = armings (klog s) @ [(timer_addr 0, j + of_nat (HZ T))]) \<or>
     (e = - ESRCH \<or> e = - ENOMEM) \<and> timer_ok xs s' \<and> flag s' = flag s \<and> armings (klog s') = armings (klog s))"
proof -
  obtain e s' where "timer_ioctl dll K T opened_file MY_IOCTL_TIMER_MONITOR arg s = Some (e, s')"
    "if e = 0 then (\<exists>x. timer_ok (x # xs) s') \<and> flag s' = (flag s)(0 := TIMER_TYPE_MONITOR) \<and>
       (\<exists>j. armings (klog s') = armings (klog s) @ [(timer_addr 0, j + of_nat (HZ T))])
     else (e = - ESRCH \<or> e = - ENOMEM) \<and> timer_ok xs s' \<and> flag s' = flag s \<and> armings (klog s') = armings (klog s)"
    using header.monitor_ok [OF assms, of T arg] by blast
  then show ?thesis by (intro exI [of _ e] exI [of _ s']) (cases "e = 0"; simp)
qed

text \<open>
  The two timed requests arm the timer \<open>arg\<close> seconds after the tick count they read. The product of the seconds and the
  tick rate is computed modulo \<open>2 ^ 64\<close>, so the delay is the requested one only when it does not overflow.
\<close>

theorem timer_ioctl_delay:
  assumes "(cmd, fl) \<in> {(MY_IOCTL_TIMER_SET, TIMER_TYPE_SET), (MY_IOCTL_TIMER_ALLOC, TIMER_TYPE_ALLOC)}"
  shows "\<exists>s' j t. timer_ioctl dll K T opened_file cmd arg s = Some (0, s') \<and> flag s' 0 = fl \<and>
    jiffies_reads (klog s') = jiffies_reads (klog s) @ [j] \<and> armings (klog s') = armings (klog s) @ [(timer_addr 0, t)] \<and>
    unat (t - j) = unat arg * HZ T mod 2 ^ 64"
proof -
  have d: "unat (arg * of_nat (HZ T)) = unat arg * HZ T mod 2 ^ 64"
    by (simp add: unat_word_ariths unat_of_nat mod_mult_right_eq take_bit_nat_def)
  show ?thesis
    using assms d by (auto simp: ioctl_simps log_simps)
qed

text \<open>
  C37: Unloading empties the list, gives back every task reference and every entry's memory, and never faults, whatever
  happened before.
\<close>

theorem timer_exit_gives_all_back:
  assumes "kmalloc_fresh K" and "timer_reach dll K T s"
  shows "\<exists>s'. deferred_exit dll K s = Some s' \<and> is_list (links s') (list_addr 0) [] \<and>
    held_mem (klog s') = [] \<and> held_tasks (klog s') = [] \<and> heap s' = Map.empty"
proof -
  obtain xs where xs: "timer_ok xs s" using header.reach_ok [OF assms(2,1)] by blast
  then obtain s' where "deferred_exit dll K s = Some s'" "timer_ok [] s'" using header.deferred_exit_ok by blast
  then show ?thesis by (auto simp: timer_ok_def refs_ok_def store_ok_def)
qed

section \<open>Witnesses\<close>

definition wit_tasks :: tasks where
  "wit_tasks = \<lparr>current = Null, parent = (\<lambda>p. p), next_task = (\<lambda>p. p), task_pid = (\<lambda>p. 0), HZ = 250\<rparr>"

lemma timer_reach_bump: "\<exists>s. timer_reach dll bump_kernel T s"
proof -
  obtain r s where s: "deferred_init dll bump_kernel timer_module0 = Some (r, s)"
    using header.deferred_init_ok [of bump_kernel] by blast
  have "held [] = []" by (simp add: held_def log_simps)
  then have "r = 0"
    using s by (auto simp: deferred_init_def kcall_eq timer_module0_def bind_Some_conv split: if_splits)
  then show ?thesis using s timer_reach.loaded by blast
qed

lemma timer_ok_bump: "\<exists>s. timer_ok [] s \<and> flag s 0 = TIMER_TYPE_MONITOR"
proof -
  obtain s where "timer_ok [] s"
    using timer_reach_bump header.reach_ok [OF _ bump_kmalloc_fresh] header.deferred_exit_ok by meson
  then have "timer_ok [] (s\<lparr>flag := (\<lambda>i. TIMER_TYPE_MONITOR)\<rparr>)" by (simp add: timer_ok_def)
  then show ?thesis by fastforce
qed

text \<open>A loaded driver that monitors one process, the task at 7, with the entry at 1.\<close>

definition one_monitored :: timer_module where
  "one_monitored = \<lparr>klog = [(Mem (Kmalloc 24 ''GFP_ATOMIC''), 1), (Task (Get_task_struct (Heap 7)), 0)],
     links = [list_addr 0 \<mapsto> \<lparr>lnext = Heap 1, lprev = Heap 1\<rparr>, Heap 1 \<mapsto> \<lparr>lnext = list_addr 0, lprev = list_addr 0\<rparr>],
     heap = [Heap 1 \<mapsto> \<lparr>task = Heap 7\<rparr>], flag = (\<lambda>i. TIMER_TYPE_MONITOR)\<rparr>"

lemma one_monitored_ok: "timer_ok [(Heap 1, \<lparr>task = Heap 7\<rparr>)] one_monitored"
  by (simp add: one_monitored_def timer_ok_def refs_ok_def store_ok_def is_list_def linked_def nx_def pv_def list_addr_def
      held_mem_def held_tasks_def held_def acct_def acct_step_def locks_def locks_next_def locks_step_def)

theorem timer_references_match_list_witness:
  "kmalloc_fresh bump_kernel \<and> (\<exists>s. timer_reach dll bump_kernel wit_tasks s \<and>
     (\<exists>s'. timer_exec dll bump_kernel wit_tasks Fired s = Some s'))"
  using timer_references_match_list [OF bump_kmalloc_fresh] timer_reach_bump [of wit_tasks] bump_kmalloc_fresh by meson


theorem timer_monitor_all_or_nothing_witness:
  "\<exists>s. timer_ok [] s \<and> kmalloc_fresh bump_kernel \<and>
     (\<exists>e s'. timer_ioctl dll bump_kernel wit_tasks opened_file MY_IOCTL_TIMER_MONITOR 7 s = Some (e, s'))"
proof -
  obtain s where s: "timer_ok [] s" using timer_ok_bump by blast
  then show ?thesis
    using timer_monitor_all_or_nothing [OF s bump_kmalloc_fresh, of wit_tasks 7] bump_kmalloc_fresh by blast
qed

theorem timer_ioctl_delay_witness:
  "\<exists>s' j t. timer_ioctl dll bump_kernel wit_tasks opened_file MY_IOCTL_TIMER_SET 3 timer_module0 = Some (0, s') \<and>
     armings (klog s') = [(timer_addr 0, t)] \<and> unat (t - j) = 750"
  using timer_ioctl_delay [of MY_IOCTL_TIMER_SET TIMER_TYPE_SET bump_kernel wit_tasks 3 timer_module0]
  by (auto simp: wit_tasks_def timer_module0_def armings_def)

theorem timer_exit_gives_all_back_witness:
  "\<exists>s s'. timer_reach dll bump_kernel wit_tasks s \<and> deferred_exit dll bump_kernel s = Some s' \<and> held_tasks (klog s') = []"
  using timer_exit_gives_all_back [OF bump_kmalloc_fresh] timer_reach_bump [of wit_tasks] by meson

end
