(* ===== verification/Timer_race.thy ===== *)
theory Timer_race
  imports Timer
begin

text \<open>
  The timer driver at a finer grain: the handler of \<open>timer.c\<close> runs on another processor while the module is unloaded, and
  what protects the task structures it looks at. The handler is cut where it enters its loop; \<open>timer_handler_split\<close> says
  that the two parts make up the handler.
\<close>

section \<open>A handler that is still running\<close>

text \<open>The handler in monitoring mode up to its loop: it holds the lock, and its two cursors are set.\<close>

definition handler_enter :: "kernel \<Rightarrow> nat \<Rightarrow> timer_module \<Rightarrow> ((ptr \<times> ptr) \<times> timer_module) option" where
  "handler_enter K i s = do {
     let s = kdo K (Print (Pr_info ''[timer_handler]'' [])) s;
     let s = kdo K (Sync (Spin_lock_irqsave (lock_addr i))) s;
     p \<leftarrow> nx (links s) (list_addr i);
     n \<leftarrow> nx (links s) p;
     Some ((p, n), s)
   }"

definition handler_rest :: "list_api \<Rightarrow> kernel \<Rightarrow> nat \<Rightarrow> ptr \<times> ptr \<Rightarrow> timer_module \<Rightarrow> timer_module option" where
  "handler_rest L K i c s = do {
     (_, s) \<leftarrow> for_each_safe links (list_addr i) (reap_if_dead L K) (fst c) (snd c) s;
     Some (kdo K (Sync (Spin_unlock_irqrestore (lock_addr i))) s)
   }"

lemma timer_handler_split:
  assumes "flag s i = TIMER_TYPE_MONITOR"
  shows "timer_handler L K i s = do { (c, s) \<leftarrow> handler_enter K i s; handler_rest L K i c s }"
  using assms
  by (simp add: timer_handler_def handler_enter_def handler_rest_def list_for_each_safe_def Let_def TIMER_TYPE_MONITOR_def
      TIMER_TYPE_SET_def TIMER_TYPE_ALLOC_def split: option.split)

lemma handler_enter_ok:
  assumes "timer_ok ((p, m) # xs) s"
  shows "\<exists>n s1. handler_enter K 0 s = Some ((p, n), s1) \<and> refs_ok ((p, m) # xs) s1"
proof -
  let ?s = "kdo K (Sync (Spin_lock_irqsave (lock_addr 0))) (kdo K (Print (Pr_info ''[timer_handler]'' [])) s)"
  have r: "refs_ok ((p, m) # xs) ?s" using assms by (simp add: timer_ok_def)
  then have l: "is_list (links ?s) (list_addr 0) (p # map fst xs)"
    using store_ok_list [of "list_addr 0" "(p, m) # xs" "[]" ?s] by (simp add: refs_ok_def)
  have "nx (links ?s) (list_addr 0) = Some p" using is_list_head(1) [OF l] by simp
  moreover obtain n where "nx (links ?s) p = Some n" using is_list_next [of "links ?s" "list_addr 0" "[]" p "map fst xs"] l by auto
  ultimately show ?thesis using r by (auto simp: handler_enter_def)
qed

context list_h
begin

text \<open>Unloading needs only the list and the references, not the lock, so it runs also while a handler holds it.\<close>

lemma deferred_exit_refs:
  assumes "refs_ok xs s"
  shows "\<exists>s'. deferred_exit L K s = Some s' \<and> refs_ok [] s'"
proof -
  let ?s = "kdo K (Time (Cancel_work_sync (work_addr 0))) (kdo K (Time (Del_timer (timer_addr 0)))
    (kdo K (Chrdev (Cdev_del (dev_addr 0))) (kdo K (Print (Pr_info ''[LOG] Unregistered %s from kernel space'' [PStr MODULE_NAME])) s)))"
  have "refs_ok xs ?s" using assms by simp
  then obtain s' where "list_for_each_safe links (list_addr 0) (drop_process L K) ?s = Some (None, s')" "refs_ok [] s'"
    using drop_loop by blast
  then show ?thesis by (simp add: deferred_exit_def NUM_MINORS_def)
qed

end


section \<open>What is left to run after unloading\<close>

text \<open>
  What the calls of a log leave behind: whether the timer is armed, that is, due to fire later, and whether the work item
  is queued. \<open>del_timer\<close> and \<open>del_timer_sync\<close> both take back an arming. Only the second also waits for a handler that
  has been started already; such a handler is no longer armed, and what it does after \<open>del_timer\<close> is \<open>exit_around\<close> below.
\<close>

fun arm_step :: "ptr \<Rightarrow> bool \<Rightarrow> time_call \<Rightarrow> bool" where
  "arm_step p b (Mod_timer q t) = (b \<or> q = p)"
| "arm_step p b (Del_timer q) = (b \<and> q \<noteq> p)"
| "arm_step p b (Del_timer_sync q) = (b \<and> q \<noteq> p)"
| "arm_step p b c = b"

fun queue_step :: "ptr \<Rightarrow> bool \<Rightarrow> time_call \<Rightarrow> bool" where
  "queue_step p b (Schedule_work q) = (b \<or> q = p)"
| "queue_step p b (Cancel_work_sync q) = (b \<and> q \<noteq> p)"
| "queue_step p b c = b"

definition due :: "ptr \<Rightarrow> klog \<Rightarrow> bool" where "due p h = foldl (arm_step p) False (time_calls h)"
definition queued :: "ptr \<Rightarrow> klog \<Rightarrow> bool" where "queued p h = foldl (queue_step p) False (time_calls h)"

text \<open>The handler in allocation mode, cut before the call that schedules the work.\<close>

definition alloc_enter :: "kernel \<Rightarrow> timer_module \<Rightarrow> timer_module" where
  "alloc_enter K s = kdo K (Print (Pr_info ''[timer_handler]'' [])) s"

definition alloc_rest :: "kernel \<Rightarrow> nat \<Rightarrow> timer_module \<Rightarrow> timer_module" where
  "alloc_rest K i s = kdo K (Time (Schedule_work (work_addr i))) s"

lemma timer_handler_alloc:
  "flag s i = TIMER_TYPE_ALLOC \<Longrightarrow> timer_handler L K i s = Some (alloc_rest K i (alloc_enter K s))"
  by (simp add: timer_handler_def alloc_enter_def alloc_rest_def TIMER_TYPE_ALLOC_def TIMER_TYPE_SET_def)

text \<open>
  \<open>deferred_exit\<close> of the one device, cut after \<open>del_timer\<close> and after \<open>cancel_work_sync\<close>; \<open>deferred_exit_split\<close> says
  that the parts make up the function.
\<close>

definition exit_stop :: "kernel \<Rightarrow> timer_module \<Rightarrow> timer_module" where
  "exit_stop K s =
     (let s = kdo K (Print (Pr_info ''[LOG] Unregistered %s from kernel space'' [PStr MODULE_NAME])) s;
          s = kdo K (Chrdev (Cdev_del (dev_addr 0))) s
      in kdo K (Time (Del_timer (timer_addr 0))) s)"

definition exit_cancel :: "kernel \<Rightarrow> timer_module \<Rightarrow> timer_module" where
  "exit_cancel K s = kdo K (Time (Cancel_work_sync (work_addr 0))) s"

definition exit_purge :: "list_api \<Rightarrow> kernel \<Rightarrow> timer_module \<Rightarrow> timer_module option" where
  "exit_purge L K s = do {
     (_, s) \<leftarrow> list_for_each_safe links (list_addr 0) (drop_process L K) s;
     Some (kdo K (Chrdev (Unregister_chrdev_region (MKDEV MAJOR_NUMBER MINOR_NUMBER) NUM_MINORS)) s)
   }"

lemma deferred_exit_split: "deferred_exit L K s = exit_purge L K (exit_cancel K (exit_stop K s))"
  by (simp add: deferred_exit_def exit_purge_def exit_cancel_def exit_stop_def NUM_MINORS_def Let_def split_def)

text \<open>
  Unloading, with a handler that another processor has started before: the moment at which this handler gets to its call
  of \<open>schedule_work\<close>, or that there is no such handler.
\<close>

datatype moment = Before_exit | After_del_timer | After_cancel | After_exit | No_handler

definition exit_around :: "list_api \<Rightarrow> kernel \<Rightarrow> moment \<Rightarrow> timer_module \<Rightarrow> timer_module option" where
  "exit_around L K w s = do {
     let sched = (\<lambda>v s. if w = v then alloc_rest K 0 s else s);
     let s = (if w = No_handler then s else alloc_enter K s);
     let s = sched After_del_timer (exit_stop K (sched Before_exit s));
     let s = sched After_cancel (exit_cancel K s);
     s \<leftarrow> exit_purge L K s;
     Some (sched After_exit s)
   }"

context list_h
begin

lemma exit_purge_ok:
  assumes "refs_ok xs s"
  shows "\<exists>s'. exit_purge L K s = Some s' \<and> time_calls (klog s') = time_calls (klog s)"
  using drop_loop [OF assms, of K] by (auto simp: exit_purge_def log_simps)

end

text \<open>
  C22: What unloading stops, and what it does not. If no handler is running when \<open>deferred_exit\<close> starts, it ends with
  \<open>del_timer\<close> and \<open>cancel_work_sync\<close>, the timer is not armed and the work item is not queued. \<open>del_timer\<close> does not wait for a
  handler that is running: in allocation mode such a handler schedules the work at any moment. The timer is never left armed; the
  work is left queued, to run in a module that is gone, exactly if the handler gets to its \<open>schedule_work\<close>
  after \<open>cancel_work_sync\<close>.
\<close>

theorem timer_exit_leaves_work_iff:
  assumes "timer_ok xs s" and "w = No_handler \<or> flag s 0 = TIMER_TYPE_ALLOC"
  shows "exit_around dll K No_handler s = deferred_exit dll K s \<and>
    (w \<noteq> No_handler \<longrightarrow> timer_handler dll K 0 s = Some (alloc_rest K 0 (alloc_enter K s))) \<and>
    (\<exists>s'. exit_around dll K w s = Some s' \<and> \<not> due (timer_addr 0) (klog s') \<and>
      (queued (work_addr 0) (klog s') \<longleftrightarrow> w \<in> {After_cancel, After_exit}) \<and>
      (w = No_handler \<longrightarrow>
        time_calls (klog s') = time_calls (klog s) @ [Del_timer (timer_addr 0), Cancel_work_sync (work_addr 0)]))"
proof (intro conjI)
  show "exit_around dll K No_handler s = deferred_exit dll K s"
    by (simp add: exit_around_def deferred_exit_split)
  show "w \<noteq> No_handler \<longrightarrow> timer_handler dll K 0 s = Some (alloc_rest K 0 (alloc_enter K s))"
    using assms(2) timer_handler_alloc by blast
  define sched where "sched = (\<lambda>v s. if w = v then alloc_rest K 0 s else s)"
  define t where "t = sched After_cancel (exit_cancel K (sched After_del_timer (exit_stop K (sched Before_exit
    (if w = No_handler then s else alloc_enter K s)))))"
  have "refs_ok xs t"
    using assms(1) by (simp add: t_def sched_def timer_ok_def alloc_rest_def alloc_enter_def exit_stop_def exit_cancel_def Let_def)
  then obtain u where u: "exit_purge dll K t = Some u" "time_calls (klog u) = time_calls (klog t)"
    using header.exit_purge_ok by blast
  then have "exit_around dll K w s = Some (sched After_exit u)" by (simp add: exit_around_def t_def sched_def)
  moreover have "time_calls (klog (sched After_exit u)) = time_calls (klog s) @
      (case w of Before_exit \<Rightarrow> [Schedule_work (work_addr 0), Del_timer (timer_addr 0), Cancel_work_sync (work_addr 0)]
       | After_del_timer \<Rightarrow> [Del_timer (timer_addr 0), Schedule_work (work_addr 0), Cancel_work_sync (work_addr 0)]
       | No_handler \<Rightarrow> [Del_timer (timer_addr 0), Cancel_work_sync (work_addr 0)]
       | _ \<Rightarrow> [Del_timer (timer_addr 0), Cancel_work_sync (work_addr 0), Schedule_work (work_addr 0)])"
    using u(2) by (cases w)
      (simp_all add: sched_def t_def alloc_rest_def alloc_enter_def exit_stop_def exit_cancel_def Let_def log_simps)
  ultimately show "\<exists>s'. exit_around dll K w s = Some s' \<and> \<not> due (timer_addr 0) (klog s') \<and>
      (queued (work_addr 0) (klog s') \<longleftrightarrow> w \<in> {After_cancel, After_exit}) \<and>
      (w = No_handler \<longrightarrow>
        time_calls (klog s') = time_calls (klog s) @ [Del_timer (timer_addr 0), Cancel_work_sync (work_addr 0)])"
    by (cases w) (simp_all add: due_def queued_def)
qed

section \<open>A device that is open before it is ready\<close>

text \<open>
  \<open>deferred_init\<close> cut after \<open>cdev_add\<close>, from which on the device can be opened: the timer, the work item, the lock and
  the list are set up only afterwards. This is the path on which the device number was free.
\<close>

definition init_live :: "kernel \<Rightarrow> timer_module \<Rightarrow> timer_module" where
  "init_live K s =
     (let s = kdo K (Chrdev (Register_chrdev_region (MKDEV MAJOR_NUMBER MINOR_NUMBER) NUM_MINORS MODULE_NAME)) s;
          s = kdo K (Chrdev (Cdev_init (dev_addr 0) ''timer_fops'')) s
      in kdo K (Chrdev (Cdev_add (dev_addr 0) (MKDEV MAJOR_NUMBER 0) 1)) s)"

definition init_rest :: "list_api \<Rightarrow> kernel \<Rightarrow> timer_module \<Rightarrow> (int \<times> timer_module) option" where
  "init_rest L K s = do {
     let s = kdo K (Time (Timer_setup (timer_addr 0) ''timer_handler'')) s;
     let s = kdo K (Time (Init_work (work_addr 0) ''work_handler'')) s;
     let s = kdo K (Sync (Spin_lock_init (lock_addr 0))) s;
     l \<leftarrow> INIT_LIST_HEAD L (list_addr 0) (links s);
     let s = s\<lparr>links := l\<rparr>;
     let s = s\<lparr>flag := (flag s)(0 := TIMER_TYPE_NONE)\<rparr>;
     Some (0, kdo K (Print (Pr_info ''[LOG] registered %s char device in memory success'' [PStr MODULE_NAME])) s)
   }"

lemma deferred_init_split:
  assumes "kret K (klog s) (Chrdev (Register_chrdev_region (MKDEV MAJOR_NUMBER MINOR_NUMBER) NUM_MINORS MODULE_NAME)) = 0"
  shows "deferred_init L K s = init_rest L K (init_live K s)"
  using assms by (simp add: deferred_init_def init_rest_def init_live_def NUM_MINORS_def kcall_eq Let_def)

text \<open>
  C24: The device can be opened before its list exists. A monitoring request that finds its process and gets its memory
  between \<open>cdev_add\<close> and \<open>INIT_LIST_HEAD\<close> inserts into a list whose head is all zero, and faults. The same request after
  the load has finished succeeds.
\<close>

theorem timer_open_before_ready:
  assumes "kret K [] (Chrdev (Register_chrdev_region (MKDEV MAJOR_NUMBER MINOR_NUMBER) NUM_MINORS MODULE_NAME)) = 0"
    and "kmalloc_fresh K" and "kmalloc_succeeds K" and "\<And>h i. kret K h (Task (Find_task i)) \<noteq> 0"
  shows "timer_ioctl dll K T opened_file MY_IOCTL_TIMER_MONITOR arg (init_live K timer_module0) = None \<and>
    (\<exists>s. init_rest dll K (init_live K timer_module0) = Some (0, s) \<and>
      (\<exists>s'. timer_ioctl dll K T opened_file MY_IOCTL_TIMER_MONITOR arg s = Some (0, s')))"
proof
  have head: "links (init_live K timer_module0) = [list_addr 0 \<mapsto> \<lparr>lnext = Null, lprev = Null\<rparr>]"
    by (simp add: init_live_def timer_module0_def Let_def)
  have get: "\<exists>p s'. get_proc K pid s = (Inr p, s') \<and> p \<noteq> Null \<and> links s' = (links s)(p \<mapsto> \<lparr>lnext = Null, lprev = Null\<rparr>)" for pid s
    using assms(3,4) by (simp add: get_proc_def kcall_eq Let_def new_node_def ptr_of_def kmalloc_succeeds_def)
  show "timer_ioctl dll K T opened_file MY_IOCTL_TIMER_MONITOR arg (init_live K timer_module0) = None"
    using get [of "sint (ucast arg :: u32)" "kdo K (Print (Pr_info ''[TIMER MONITOR]'' [])) (init_live K timer_module0)"] head
    by (auto simp: ioctl_simps dll_def nx_def set_prev_def list_addr_def)
  obtain r s where s: "deferred_init dll K timer_module0 = Some (r, s)" "r = 0 \<longrightarrow> timer_ok [] s"
    using header.deferred_init_ok [of K] by blast
  then have r: "init_rest dll K (init_live K timer_module0) = Some (r, s)" 
    using deferred_init_split [of K timer_module0 dll] assms(1) by (simp add: timer_module0_def)
  then have "r = 0" by (auto simp: init_rest_def bind_Some_conv)
  obtain e s' where e: "timer_ioctl dll K T opened_file MY_IOCTL_TIMER_MONITOR arg s = Some (e, s')"
    using header.monitor_ok [OF _ assms(2), of "[]" s T arg] s(2) \<open>r = 0\<close> by blast
  have "e = 0"
    using e get [of "sint (ucast arg :: u32)" "kdo K (Print (Pr_info ''[TIMER MONITOR]'' [])) s"]
    by (auto simp: ioctl_simps bind_Some_conv)
  then show "\<exists>s. init_rest dll K (init_live K timer_module0) = Some (0, s) \<and>
      (\<exists>s'. timer_ioctl dll K T opened_file MY_IOCTL_TIMER_MONITOR arg s = Some (0, s'))"
    using r e \<open>r = 0\<close> by blast
qed

section \<open>What protects the tasks\<close>

text \<open>
  C14: The handler and the exit function touch only tasks the driver holds a reference to: neither of them ever looks at, or
  drops a reference to, a task structure that may already be gone.
\<close>

theorem timer_touches_only_held_tasks:
  assumes "timer_ok xs s"
  shows "(\<exists>s'. timer_handler dll K 0 s = Some s' \<and> unprotected (klog s') = unprotected (klog s)) \<and>
    (\<exists>s'. deferred_exit dll K s = Some s' \<and> unprotected (klog s') = unprotected (klog s))"
  using header.handler_ok [OF assms, of K] header.deferred_exit_ok [OF assms, of K] by blast

text \<open>
  A monitoring request does touch such a task: \<open>get_proc\<close> leaves the RCU read section before it takes its reference, so
  the task it found is unprotected at that moment, unless it was being monitored already.
\<close>

theorem timer_task_pinned_too_late:
  assumes "rcu_depth (klog s) = 0" and "get_proc K pid s = (Inr p, s')"
    and "heap s' p = Some m" and "RTask (task m) \<notin> set (held_tasks (klog s))"
  shows "unprotected (klog s') = unprotected (klog s) @ [task m]"
  using assms
  by (auto simp: get_proc_def kcall_eq Let_def new_node_def log_simps unprotected_at_def split: if_splits)

section \<open>Witnesses\<close>


theorem timer_touches_only_held_tasks_witness:
  "timer_ok [(Heap 1, \<lparr>task = Heap 7\<rparr>)] one_monitored \<and>
   (\<exists>s'. timer_handler dll bump_kernel 0 one_monitored = Some s' \<and> unprotected (klog s') = unprotected (klog one_monitored))"
  using timer_touches_only_held_tasks [OF one_monitored_ok, of bump_kernel] one_monitored_ok by blast

theorem timer_task_pinned_too_late_witness:
  "let K = \<lparr>kret = (\<lambda>h c. 9), kbytes = (\<lambda>h c. [])\<rparr> in unprotected (klog (snd (get_proc K 3 timer_module0))) = [Heap 9]"
proof -
  let ?K = "\<lparr>kret = (\<lambda>h c. 9), kbytes = (\<lambda>h c. [])\<rparr> :: kernel"
  have "fst (get_proc ?K 3 timer_module0) = Inr (Heap 9)"
    "heap (snd (get_proc ?K 3 timer_module0)) (Heap 9) = Some \<lparr>task = Heap 9\<rparr>"
    by (simp_all add: get_proc_def kcall_eq Let_def new_node_def)
  moreover have "rcu_depth (klog timer_module0) = 0" "RTask (Heap 9) \<notin> set (held_tasks (klog timer_module0))"
      "unprotected (klog timer_module0) = []"
    by (simp_all add: timer_module0_def rcu_depth_def held_tasks_def held_def log_simps unprotected_def)
  ultimately show ?thesis
    using timer_task_pinned_too_late [of timer_module0 ?K 3 "Heap 9" "snd (get_proc ?K 3 timer_module0)" "\<lparr>task = Heap 9\<rparr>"]
    by (simp add: prod_eq_iff)
qed

theorem timer_exit_leaves_work_iff_witness:
  "let s = one_monitored\<lparr>flag := (\<lambda>i. TIMER_TYPE_ALLOC)\<rparr> in
     (\<exists>s'. exit_around dll bump_kernel After_cancel s = Some s' \<and> queued (work_addr 0) (klog s')) \<and>
     (\<exists>s'. exit_around dll bump_kernel After_del_timer s = Some s' \<and> \<not> queued (work_addr 0) (klog s')) \<and>
     (\<exists>s'. exit_around dll bump_kernel No_handler s = Some s' \<and> \<not> queued (work_addr 0) (klog s'))"
proof -
  let ?s = "one_monitored\<lparr>flag := (\<lambda>i. TIMER_TYPE_ALLOC)\<rparr>"
  have ok: "timer_ok [(Heap 1, \<lparr>task = Heap 7\<rparr>)] ?s" using one_monitored_ok by (simp add: timer_ok_def)
  note l = timer_exit_leaves_work_iff [OF ok, of _ bump_kernel]
  have "\<exists>s'. exit_around dll bump_kernel After_cancel ?s = Some s' \<and> queued (work_addr 0) (klog s')"
    using l [of After_cancel] by auto
  moreover have "\<exists>s'. exit_around dll bump_kernel After_del_timer ?s = Some s' \<and> \<not> queued (work_addr 0) (klog s')"
    using l [of After_del_timer] by auto
  moreover have "\<exists>s'. exit_around dll bump_kernel No_handler ?s = Some s' \<and> \<not> queued (work_addr 0) (klog s')"
    using conjunct2 [OF conjunct2 [OF l [of No_handler]]] by auto
  ultimately show ?thesis by (simp add: Let_def)
qed

text \<open>A kernel that behaves as documented and knows every process.\<close>

definition found_kernel :: kernel where
  "found_kernel = bump_kernel\<lparr>kret := (\<lambda>h c. case c of Task (Find_task i) \<Rightarrow> 7 | _ \<Rightarrow> bump_ret h c)\<rparr>"

theorem timer_open_before_ready_witness:
  "kmalloc_fresh found_kernel \<and> kmalloc_succeeds found_kernel \<and>
   timer_ioctl dll found_kernel wit_tasks opened_file MY_IOCTL_TIMER_MONITOR 3 (init_live found_kernel timer_module0) = None"
proof -
  have "kmalloc_fresh found_kernel" "kmalloc_succeeds found_kernel"
    using bump_kmalloc_fresh bump_kmalloc_succeeds
    by (simp_all add: kmalloc_fresh_def kmalloc_succeeds_def found_kernel_def)
  moreover have "kret found_kernel h (Task (Find_task i)) \<noteq> 0" for h i by (simp add: found_kernel_def)
  moreover have "kret found_kernel [] (Chrdev (Register_chrdev_region d n nm)) = 0" for d n nm
    by (simp add: found_kernel_def held_def log_simps)
  ultimately show ?thesis using timer_open_before_ready [of found_kernel wit_tasks 3] by blast
qed

end
