(* ===== verification/Timer_user.thy ===== *)
theory Timer_user
  imports User_space Timer
begin

unbundle bit_operations_syntax

text \<open>
  The command-line program of the timer driver, \<open>Drivers/deferredTimer/user/user.cpp\<close>, with the class \<open>TimerDriver\<close> it is
  written over (\<open>TimerDriver/timerDriver.h\<close> and \<open>timerDriver.cpp\<close>). \<open>ioctl\<close> takes its third argument through an ellipsis
  and reads it as a 64-bit word: of an \<open>int\<close> passed there only the lower half is defined, and of an argument that is not
  passed nothing is. Both are parameters (\<open>abi\<close>). The locale \<open>timer_node\<close> says what the system does between the program and
  the driver; over it the program and the driver are composed.
\<close>

section \<open>Definitions\<close>

definition DRIVERPATH :: string where "DRIVERPATH = ''/dev/timerDriver''"

record abi =
  high_half :: u32
  no_argument :: ulong

definition vararg_int :: "abi \<Rightarrow> int \<Rightarrow> ulong" where
  "vararg_int A x = push_bit 32 (ucast (high_half A)) OR ucast (word_of_int x :: u32)"

text \<open>The constructor; the object is its member \<open>m_fd\<close>.\<close>

definition TimerDriver :: "'w os \<Rightarrow> 'w process \<Rightarrow> int \<times> 'w process" where
  "TimerDriver os p = sys_call os (Sys_open DRIVERPATH ''O_RDONLY'') p"

definition setTimer :: "'w os \<Rightarrow> abi \<Rightarrow> int \<Rightarrow> int \<Rightarrow> 'w process \<Rightarrow> 'w process" where
  "setTimer os A m_fd time p =
     (let (r, p) = sys_call os (Sys_ioctl m_fd MY_IOCTL_TIMER_SET (vararg_int A time)) p in
      if r < 0 then
        let p = put_line ''[ERROR] Failed to set timer'' p
        in snd (sys_call os (Sys_close m_fd) p)
      else p)"

definition cancelTimer :: "'w os \<Rightarrow> abi \<Rightarrow> int \<Rightarrow> 'w process \<Rightarrow> 'w process" where
  "cancelTimer os A m_fd p =
     (let (r, p) = sys_call os (Sys_ioctl m_fd MY_IOCTL_TIMER_CANCEL (no_argument A)) p in
      if r < 0 then
        let p = put_line ''[ERROR] timer failed to cancel'' p
        in snd (sys_call os (Sys_close m_fd) p)
      else p)"

definition allocTimer :: "'w os \<Rightarrow> abi \<Rightarrow> int \<Rightarrow> 'w process \<Rightarrow> 'w process" where
  "allocTimer os A m_fd p =
     (let (r, p) = sys_call os (Sys_ioctl m_fd MY_IOCTL_TIMER_ALLOC (no_argument A)) p in
      if r < 0 then
        let p = put_line ''[ERROR] timer failed to alloc'' p
        in snd (sys_call os (Sys_close m_fd) p)
      else p)"

definition monitorTimer :: "'w os \<Rightarrow> int \<Rightarrow> ulong \<Rightarrow> 'w process \<Rightarrow> 'w process" where
  "monitorTimer os m_fd pid p =
     (let (r, p) = sys_call os (Sys_ioctl m_fd MY_IOCTL_TIMER_MONITOR pid) p in
      if r < 0 then
        let p = put_line ''[ERROR] timer failed to alloc'' p
        in snd (sys_call os (Sys_close m_fd) p)
      else p)"

text \<open>The first character of a C string, its terminator when it is empty.\<close>

fun first_char :: "string \<Rightarrow> char" where
  "first_char [] = CHR 0x00"
| "first_char (c # cs) = c"

definition timer_main :: "'w os \<Rightarrow> abi \<Rightarrow> string list \<Rightarrow> 'w process \<Rightarrow> outcome \<times> 'w process" where
  "timer_main os A argv p =
     (let argc = length argv in
      if argc < 2 then (Exit 1, put_line ''[ERROR] zero args were passed'' p)
      else
        let (timer, p) = TimerDriver os p;
            cmd = first_char (argv ! 1) in
        if cmd = CHR ''s'' then
          if argc \<noteq> 3 then (Exit 1, put_line ''[ERROR] argc not met'' p)
          else (case stoi (argv ! 2) of
                  Inl e \<Rightarrow> (Terminate e, p)
                | Inr duration \<Rightarrow> (Exit 0, setTimer os A timer duration p))
        else if cmd = CHR ''c'' then
          if argc \<noteq> 2 then (Exit 1, put_line ''[ERROR] argc not met'' p)
          else (Exit 0, cancelTimer os A timer p)
        else if cmd = CHR ''a'' then
          if argc \<noteq> 2 then (Exit 1, put_line ''[ERROR] argc not met'' p)
          else (Exit 0, allocTimer os A timer p)
        else if cmd = CHR ''p'' then
          if argc \<noteq> 3 then (Exit 1, put_line ''[ERROR] argc not met'' p)
          else (case stoi (argv ! 2) of
                  Inl e \<Rightarrow> (Terminate e, p)
                | Inr n \<Rightarrow> (Exit 0, monitorTimer os timer (word_of_int n) p))
        else (Exit 0, put_line (''[ERROR] unknown cmd'' @ [cmd]) p))"

section \<open>The driver behind the file\<close>

text \<open>
  What the system promises: a device node that is present opens, which runs \<open>timer_open\<close>; an \<open>ioctl\<close> on the descriptor runs
  the driver's, a negative result of which reaches the program as \<open>-1\<close>; a call on a descriptor that is not open, or an \<open>open\<close> of
  a node that is absent, fails and does not reach the driver; the last \<open>close\<close> runs \<open>timer_release\<close>.
\<close>

locale timer_node =
  fixes os :: "'w os" and node :: "'w \<Rightarrow> bool" and opened :: "int \<Rightarrow> 'w \<Rightarrow> bool" and drv :: "'w \<Rightarrow> timer_module"
    and K :: kernel and T :: tasks
  assumes open_law: "node w \<Longrightarrow> \<exists>fd w'. os (Sys_open DRIVERPATH ''O_RDONLY'') w = (fd, w') \<and> 0 \<le> fd \<and> opened fd w' \<and>
      drv w' = snd (snd (timer_open K \<lparr>i_cdev = dev_addr 0\<rparr> \<lparr>private_data = Null\<rparr> (drv w)))"
    and open_missing: "\<not> node w \<Longrightarrow> \<exists>w'. os (Sys_open DRIVERPATH ''O_RDONLY'') w = (- 1, w') \<and> drv w' = drv w"
    and ioctl_law: "opened fd w \<Longrightarrow> timer_ioctl dll K T opened_file cmd arg (drv w) = Some (r, m) \<Longrightarrow>
      \<exists>w'. os (Sys_ioctl fd cmd arg) w = (if r < 0 then - 1 else r, w') \<and> drv w' = m \<and> opened fd w'"
    and ioctl_bad: "fd < 0 \<Longrightarrow> os (Sys_ioctl fd cmd arg) w = (- 1, w)"
    and close_law: "opened fd w \<Longrightarrow> \<exists>w'. os (Sys_close fd) w = (0, w') \<and> drv w' = snd (timer_release K (drv w))"
    and close_bad: "fd < 0 \<Longrightarrow> os (Sys_close fd) w = (- 1, w)"

text \<open>The identifiers of the processes that were looked up.\<close>

fun looked_up :: "kcall \<times> int \<Rightarrow> int list" where
  "looked_up (Task (Find_task n), r) = [n]"
| "looked_up e = []"

definition lookups :: "klog \<Rightarrow> int list" where "lookups h = concat (map looked_up h)"

lemma lookups_kdo [log_simps]: "lookups (klog (kdo K c s)) = lookups (klog s) @ looked_up (c, kret K (klog s) c)"
  by (simp add: lookups_def kdo_klog)

lemma get_proc_lookups: "get_proc K n s = (r, s') \<Longrightarrow> lookups (klog s') = lookups (klog s) @ [n]"
  by (auto simp: get_proc_def kcall_eq Let_def new_node_def log_simps split: if_splits)

lemma monitor_lookups:
  assumes "timer_ioctl L K T f MY_IOCTL_TIMER_MONITOR arg s = Some (r, s')"
  shows "lookups (klog s') = lookups (klog s) @ [sint (ucast arg :: u32)]"
  using assms
  by (auto simp: ioctl_simps bind_Some_conv log_simps dest!: get_proc_lookups split: prod.splits sum.splits)

lemma timed_ioctl:
  assumes "(cmd, fl) \<in> {(MY_IOCTL_TIMER_SET, TIMER_TYPE_SET), (MY_IOCTL_TIMER_ALLOC, TIMER_TYPE_ALLOC)}"
    and "timer_ioctl L K T opened_file cmd arg s = Some (r, s')"
  shows "flag s' 0 = fl \<and> (\<exists>j. jiffies_reads (klog s') = jiffies_reads (klog s) @ [j] \<and>
    armings (klog s') = armings (klog s) @ [(timer_addr 0, j + arg * of_nat (HZ T))])"
  using assms by (auto simp: ioctl_simps log_simps)

text \<open>The arguments as the driver gets them.\<close>

lemma vararg_int_zero:
  assumes "high_half A = 0" and "0 \<le> n" and "n \<le> INT_MAX"
  shows "unat (vararg_int A n) = nat n"
  using assms by (simp add: vararg_int_def INT_MAX_def unsigned_ucast_eq unat_eq_nat_uint uint_word_of_int take_bit_int_eq_self)

lemma pid_through_ulong:
  assumes "INT_MIN \<le> n" and "n \<le> INT_MAX"
  shows "sint (ucast (word_of_int n :: ulong) :: u32) = n"
proof -
  have "(ucast (word_of_int n :: ulong) :: u32) = word_of_int n"
    by (rule bit_word_eqI) (auto simp: bit_simps)
  moreover have "sint (word_of_int n :: u32) = n"
    using assms by (subst signed_of_int) (simp add: INT_MIN_def INT_MAX_def signed_take_bit_int_eq_self)
  ultimately show ?thesis by simp
qed

lemma stoi_plain: "INT_MIN \<le> n \<Longrightarrow> n \<le> INT_MAX \<Longrightarrow> stoi (decimal n) = Inr n"
  using stoi_decimal [of "[]" "[]" n] by simp

context timer_node
begin

text \<open>A run that gets as far as one \<open>ioctl\<close>, from the program's arguments to the driver's state.\<close>

lemma ioctl_reaches_driver:
  assumes "node w"
    and "\<exists>r s'. timer_ioctl dll K T opened_file cmd arg (kdo K (Print (Pr_info ''[deferred_open]'' [])) (drv w)) = Some (r, s')"
  shows "\<exists>fd p1 p2 r. TimerDriver os (start w) = (fd, p1) \<and> 0 \<le> fd \<and> cout p2 = [] \<and> opened fd (world p2) \<and>
    sys_call os (Sys_ioctl fd cmd arg) p1 = (if r < 0 then - 1 else r, p2) \<and>
    timer_ioctl dll K T opened_file cmd arg (kdo K (Print (Pr_info ''[deferred_open]'' [])) (drv w)) = Some (r, drv (world p2))"
proof -
  obtain fd w1 where 1: "os (Sys_open DRIVERPATH ''O_RDONLY'') w = (fd, w1)" "0 \<le> fd" "opened fd w1"
    "drv w1 = kdo K (Print (Pr_info ''[deferred_open]'' [])) (drv w)"
    using open_law [OF assms(1)] by (auto simp: timer_open_def Let_def)
  obtain r m where m: "timer_ioctl dll K T opened_file cmd arg (drv w1) = Some (r, m)" using assms(2) 1(4) by metis
  then obtain w2 where "os (Sys_ioctl fd cmd arg) w1 = (if r < 0 then - 1 else r, w2)" "drv w2 = m" "opened fd w2"
    using ioctl_law [OF 1(3) m] by blast
  then show ?thesis using 1 m by (simp add: TimerDriver_def sys_call_eq)
qed

lemma set_reaches_driver:
  assumes "node w" and "INT_MIN \<le> n" and "n \<le> INT_MAX"
  shows "\<exists>p. timer_main os A [prog, CHR ''s'' # opt, decimal n] (start w) = (Exit 0, p) \<and> cout p = [] \<and>
    timer_ioctl dll K T opened_file MY_IOCTL_TIMER_SET (vararg_int A n)
      (kdo K (Print (Pr_info ''[deferred_open]'' [])) (drv w)) = Some (0, drv (world p))"
proof -
  have ok: "\<exists>s'. timer_ioctl dll K T opened_file MY_IOCTL_TIMER_SET (vararg_int A n) s = Some (0, s')" for s
    by (simp add: ioctl_simps)
  obtain fd p1 p2 r where 1: "TimerDriver os (start w) = (fd, p1)" "cout p2 = []"
    "sys_call os (Sys_ioctl fd MY_IOCTL_TIMER_SET (vararg_int A n)) p1 = (if r < 0 then - 1 else r, p2)"
    "timer_ioctl dll K T opened_file MY_IOCTL_TIMER_SET (vararg_int A n)
       (kdo K (Print (Pr_info ''[deferred_open]'' [])) (drv w)) = Some (r, drv (world p2))"
    using ioctl_reaches_driver [OF assms(1)] ok by metis
  then have "r = 0" using ok by (metis option.inject prod.inject)
  then show ?thesis using 1 stoi_plain [OF assms(2,3)] by (simp add: timer_main_def setTimer_def)
qed

lemma alloc_reaches_driver:
  assumes "node w"
  shows "\<exists>p. timer_main os A [prog, CHR ''a'' # opt] (start w) = (Exit 0, p) \<and> cout p = [] \<and>
    timer_ioctl dll K T opened_file MY_IOCTL_TIMER_ALLOC (no_argument A)
      (kdo K (Print (Pr_info ''[deferred_open]'' [])) (drv w)) = Some (0, drv (world p))"
proof -
  have ok: "\<exists>s'. timer_ioctl dll K T opened_file MY_IOCTL_TIMER_ALLOC (no_argument A) s = Some (0, s')" for s
    by (simp add: ioctl_simps)
  obtain fd p1 p2 r where 1: "TimerDriver os (start w) = (fd, p1)" "cout p2 = []"
    "sys_call os (Sys_ioctl fd MY_IOCTL_TIMER_ALLOC (no_argument A)) p1 = (if r < 0 then - 1 else r, p2)"
    "timer_ioctl dll K T opened_file MY_IOCTL_TIMER_ALLOC (no_argument A)
       (kdo K (Print (Pr_info ''[deferred_open]'' [])) (drv w)) = Some (r, drv (world p2))"
    using ioctl_reaches_driver [OF assms(1)] ok by metis
  then have "r = 0" using ok by (metis option.inject prod.inject)
  then show ?thesis using 1 by (simp add: timer_main_def allocTimer_def)
qed

lemma monitor_reaches_driver:
  assumes "node w" and "INT_MIN \<le> n" and "n \<le> INT_MAX" and "timer_ok xs (drv w)" and "kmalloc_fresh K"
  shows "\<exists>p. timer_main os A [prog, CHR ''p'' # opt, decimal n] (start w) = (Exit 0, p) \<and>
    lookups (klog (drv (world p))) = lookups (klog (drv w)) @ [n] \<and>
    (cout p = [] \<and> (\<exists>x. timer_ok (x # xs) (drv (world p))) \<and> flag (drv (world p)) 0 = TIMER_TYPE_MONITOR \<or>
     cout p = ''[ERROR] timer failed to alloc'' @ [CHR 0x0A] \<and> timer_ok xs (drv (world p)) \<and> flag (drv (world p)) = flag (drv w))"
proof -
  let ?a = "word_of_int n :: ulong" and ?s = "kdo K (Print (Pr_info ''[deferred_open]'' [])) (drv w)"
  have "timer_ok xs ?s" using assms(4) by (simp add: timer_ok_def log_simps)
  then obtain e s' where e: "timer_ioctl dll K T opened_file MY_IOCTL_TIMER_MONITOR ?a ?s = Some (e, s')"
    "if e = 0 then (\<exists>x. timer_ok (x # xs) s') \<and> flag s' = (flag ?s)(0 := TIMER_TYPE_MONITOR)
     else (e = - ESRCH \<or> e = - ENOMEM) \<and> timer_ok xs s' \<and> flag s' = flag ?s"
    using header.monitor_ok [OF _ assms(5), of xs ?s T ?a] by (fastforce split: if_splits)
  obtain fd p1 p2 r where 1: "TimerDriver os (start w) = (fd, p1)" "0 \<le> fd" "cout p2 = []" "opened fd (world p2)"
    "sys_call os (Sys_ioctl fd MY_IOCTL_TIMER_MONITOR ?a) p1 = (if r < 0 then - 1 else r, p2)"
    "timer_ioctl dll K T opened_file MY_IOCTL_TIMER_MONITOR ?a ?s = Some (r, drv (world p2))"
    using ioctl_reaches_driver [OF assms(1)] e(1) by metis
  have r: "r = e" "drv (world p2) = s'" using 1(6) e(1) by simp_all
  have lk: "lookups (klog s') = lookups (klog (drv w)) @ [n]"
    using monitor_lookups [OF e(1)] pid_through_ulong [OF assms(2,3)] by (simp add: log_simps)
  obtain w3 where w3: "os (Sys_close fd) (world p2) = (0, w3)" "drv w3 = kdo K (Print (Pr_info ''[deferred_release]'' [])) s'"
    using close_law [OF 1(4)] r(2) by (auto simp: timer_release_def)
  note main = timer_main_def monitorTimer_def 1(1,5) stoi_plain [OF assms(2,3)]
  show ?thesis
  proof (cases "e = 0")
    case True
    then show ?thesis using e(2) r lk 1(3) by (simp add: main)
  next
    case False
    then have "e < 0" using e(2) by (auto simp: errno_defs)
    then show ?thesis
      using e(2) False r lk 1(3) w3 by (auto simp: main sys_call_eq [of os "Sys_close fd"] timer_ok_def log_simps)
  qed
qed

text \<open>Without the device node nothing reaches the driver, and the program says so on its output only.\<close>

lemma no_node_no_effect:
  assumes "\<not> node w" and "timer_main os A argv (start w) = (st, p)"
  shows "drv (world p) = drv w \<and> (cout p \<noteq> [] \<or> (\<exists>e. st = Terminate e))"
proof -
  obtain w1 where "os (Sys_open DRIVERPATH ''O_RDONLY'') w = (- 1, w1)" "drv w1 = drv w"
    using open_missing [OF assms(1)] by blast
  then show ?thesis
    using assms(2)
    by (auto simp: timer_main_def TimerDriver_def setTimer_def cancelTimer_def allocTimer_def monitorTimer_def sys_call_eq
        ioctl_bad close_bad Let_def split: if_splits sum.splits)
qed

end

section \<open>A system\<close>

text \<open>
  The calls on the device file as the kernel carries them out: \<open>node_there\<close> says whether the device node exists, \<open>in_use\<close> whether
  it is open.
\<close>

record timer_world =
  module :: timer_module
  node_there :: bool
  in_use :: bool

fun timer_os :: "kernel \<Rightarrow> tasks \<Rightarrow> timer_world os" where
  "timer_os K T (Sys_open path fl) w =
     (if path = DRIVERPATH \<and> node_there w then
        (3, w\<lparr>module := snd (snd (timer_open K \<lparr>i_cdev = dev_addr 0\<rparr> \<lparr>private_data = Null\<rparr> (module w))), in_use := True\<rparr>)
      else (- 1, w))"
| "timer_os K T (Sys_ioctl fd cmd arg) w =
     (if fd = 3 \<and> in_use w then
        (case timer_ioctl dll K T opened_file cmd arg (module w) of
           Some (r, m) \<Rightarrow> (if r < 0 then - 1 else r, w\<lparr>module := m\<rparr>)
         | None \<Rightarrow> (- 1, w))
      else (- 1, w))"
| "timer_os K T (Sys_close fd) w =
     (if fd = 3 \<and> in_use w then (0, w\<lparr>module := snd (timer_release K (module w)), in_use := False\<rparr>) else (- 1, w))"
| "timer_os K T c w = (- 1, w)"

interpretation vfs: timer_node "timer_os K T" node_there "\<lambda>fd w. fd = 3 \<and> in_use w" module K T for K T
  by unfold_locales (auto simp: Let_def)

section \<open>Theorems\<close>

text \<open>
  C19: \<open>user s n\<close> from the command line to the timer: the number is parsed, passed through \<open>ioctl\<close> and converted to ticks, and the
  timer is armed exactly \<open>n\<close> seconds after the tick count the driver reads, for every \<open>n\<close> that is an \<open>int\<close> and not
  negative, provided the compiler clears the upper half of the argument.
\<close>

theorem timer_user_sets_delay:
  assumes "timer_node os node opened drv K T" and "node w" and "high_half A = 0"
    and "0 \<le> n" and "n \<le> INT_MAX" and "HZ T < 2 ^ 32"
  shows "\<exists>p j t. timer_main os A [prog, CHR ''s'' # opt, decimal n] (start w) = (Exit 0, p) \<and> cout p = [] \<and>
    flag (drv (world p)) 0 = TIMER_TYPE_SET \<and>
    jiffies_reads (klog (drv (world p))) = jiffies_reads (klog (drv w)) @ [j] \<and>
    armings (klog (drv (world p))) = armings (klog (drv w)) @ [(timer_addr 0, t)] \<and> unat (t - j) = nat n * HZ T"
proof -
  have "INT_MIN \<le> n" using assms(4) by (simp add: INT_MIN_def)
  then obtain p where p: "timer_main os A [prog, CHR ''s'' # opt, decimal n] (start w) = (Exit 0, p)" "cout p = []"
    "timer_ioctl dll K T opened_file MY_IOCTL_TIMER_SET (vararg_int A n)
       (kdo K (Print (Pr_info ''[deferred_open]'' [])) (drv w)) = Some (0, drv (world p))"
    using timer_node.set_reaches_driver [OF assms(1,2) _ assms(5)] by blast
  have "nat n * HZ T < 2 ^ 32 * 2 ^ 32" using assms(5,6) by (intro mult_strict_mono) (auto simp: INT_MAX_def)
  then have "unat (vararg_int A n * of_nat (HZ T)) = nat n * HZ T"
    using vararg_int_zero [OF assms(3-5)] by (simp add: unat_word_ariths unat_of_nat mod_mult_right_eq take_bit_nat_def)
  moreover obtain j where "flag (drv (world p)) 0 = TIMER_TYPE_SET"
    "jiffies_reads (klog (drv (world p))) = jiffies_reads (klog (drv w)) @ [j]"
    "armings (klog (drv (world p))) = armings (klog (drv w)) @ [(timer_addr 0, j + vararg_int A n * of_nat (HZ T))]"
    using timed_ioctl [OF _ p(3)] by (auto simp: log_simps)
  ultimately show ?thesis using p(1,2) by simp
qed


text \<open>
  When the device cannot be opened, no command reaches the driver and every run prints an error or dies of an exception; yet a
  cancellation, for one, reports success to the shell.
\<close>

theorem timer_user_without_device:
  assumes "timer_node os node opened drv K T" and "\<not> node w"
  shows "(case timer_main os A argv (start w) of (st, p) \<Rightarrow> drv (world p) = drv w \<and> (cout p \<noteq> [] \<or> (\<exists>e. st = Terminate e))) \<and>
    fst (timer_main os A [prog, ''c''] (start w)) = Exit 0"
proof
  show "case timer_main os A argv (start w) of (st, p) \<Rightarrow> drv (world p) = drv w \<and> (cout p \<noteq> [] \<or> (\<exists>e. st = Terminate e))"
    using timer_node.no_node_no_effect [OF assms, of A argv] by (auto split: prod.split)
  show "fst (timer_main os A [prog, ''c''] (start w)) = Exit 0" by (simp add: timer_main_def case_prod_beta Let_def)
qed

text \<open>
  \<open>user a\<close> passes no delay: the timer of the blocking work is armed after as many seconds as the register that should hold the argument
  happens to contain.
\<close>

theorem timer_user_alloc_delay_undefined:
  assumes "timer_node os node opened drv K T" and "node w"
  shows "\<exists>p j t. timer_main os A [prog, CHR ''a'' # opt] (start w) = (Exit 0, p) \<and>
    jiffies_reads (klog (drv (world p))) = jiffies_reads (klog (drv w)) @ [j] \<and>
    armings (klog (drv (world p))) = armings (klog (drv w)) @ [(timer_addr 0, t)] \<and>
    t - j = no_argument A * of_nat (HZ T)"
proof -
  obtain p where p: "timer_main os A [prog, CHR ''a'' # opt] (start w) = (Exit 0, p)"
    "timer_ioctl dll K T opened_file MY_IOCTL_TIMER_ALLOC (no_argument A)
       (kdo K (Print (Pr_info ''[deferred_open]'' [])) (drv w)) = Some (0, drv (world p))"
    using timer_node.alloc_reaches_driver [OF assms] by blast
  then show ?thesis using timed_ioctl [OF _ p(2)] by (fastforce simp: log_simps)
qed

section \<open>Witnesses\<close>

definition fresh_world :: timer_world where
  "fresh_world = \<lparr>module = timer_module0, node_there = True, in_use = False\<rparr>"

definition zero_abi :: abi where "zero_abi = \<lparr>high_half = 0, no_argument = 0\<rparr>"

theorem timer_user_sets_delay_witness:
  "\<exists>p j t. timer_main (timer_os bump_kernel wit_tasks) zero_abi [''user'', ''s'', decimal 5] (start fresh_world) = (Exit 0, p) \<and>
     armings (klog (module (world p))) = [(timer_addr 0, t)] \<and> unat (t - j) = 1250"
proof -
  have "armings (klog timer_module0) = []" by (simp add: timer_module0_def armings_def)
  then show ?thesis
    using timer_user_sets_delay [OF vfs.timer_node_axioms, of fresh_world zero_abi 5 wit_tasks bump_kernel "''user''" "[]"]
    by (auto simp: fresh_world_def zero_abi_def INT_MAX_def wit_tasks_def)
qed


theorem timer_user_without_device_witness:
  "cout (snd (timer_main (timer_os bump_kernel wit_tasks) zero_abi [''user'', ''a''] (start (fresh_world\<lparr>node_there := False\<rparr>)))) \<noteq> [] \<and>
   fst (timer_main (timer_os bump_kernel wit_tasks) zero_abi [''user'', ''c''] (start (fresh_world\<lparr>node_there := False\<rparr>))) = Exit 0"
proof -
  let ?w = "fresh_world\<lparr>node_there := False\<rparr>"
  have "\<not> node_there ?w" by simp
  note * = timer_user_without_device [OF vfs.timer_node_axioms this, of bump_kernel wit_tasks zero_abi]
  have "fst (timer_main (timer_os bump_kernel wit_tasks) zero_abi [''user'', ''a''] (start ?w)) = Exit 0"
    by (simp add: timer_main_def case_prod_beta Let_def)
  then show ?thesis using *(1) [of "[''user'', ''a'']" "''user''"] by (auto split: prod.splits)
qed

theorem timer_user_alloc_delay_undefined_witness:
  "\<exists>p j t. timer_main (timer_os bump_kernel wit_tasks) \<lparr>high_half = 0, no_argument = 77\<rparr> [''user'', ''a''] (start fresh_world) = (Exit 0, p) \<and>
     armings (klog (module (world p))) = [(timer_addr 0, t)] \<and> t - j = 77 * 250"
proof -
  have "armings (klog timer_module0) = []" by (simp add: timer_module0_def armings_def)
  then show ?thesis
    using timer_user_alloc_delay_undefined [OF vfs.timer_node_axioms, of fresh_world bump_kernel wit_tasks "\<lparr>high_half = 0, no_argument = 77\<rparr>" "''user''" "[]"]
    by (auto simp: fresh_world_def wit_tasks_def)
qed

end
