(* ===== verification/Sleeping.thy ===== *)
theory Sleeping
  imports Klist
begin

text \<open>
  The rule that code which holds a spinlock, and an interrupt handler, must not sleep. \<open>sleeps_atomic h\<close> says that the
  calls of \<open>h\<close> break it. \<open>quiet s s'\<close> says that between two states only calls were made that never sleep; it is kept by
  every call that does not sleep and, by induction on the loops, by the list macros.
\<close>

fun sleeps :: "kcall \<Rightarrow> bool" where
  "sleeps (Mem (Kmalloc n f)) = (f = ''GFP_KERNEL'')"
| "sleeps (Mem (Put_user p off ch)) = True"
| "sleeps (Mem (Copy_to_user p bs)) = True"
| "sleeps (Mem (Copy_from_user p n)) = True"
| "sleeps (Time (Schedule_timeout t)) = True"
| "sleeps (Time (Schedule_timeout_interruptible t)) = True"
| "sleeps (Time (Cancel_work_sync w)) = True"
| "sleeps (Sync (Mmap_read_lock l)) = True"
| "sleeps (Page (Vmalloc n)) = True"
| "sleeps c = False"

text \<open>A spinlock, or a read-write lock, is held after \<open>h\<close>.\<close>

definition in_atomic :: "klog \<Rightarrow> bool" where
  "in_atomic h \<longleftrightarrow> (case locks h of Some ls \<Rightarrow> list_ex (\<lambda>x. snd x \<noteq> Sem) ls | None \<Rightarrow> False)"

definition sleeps_atomic :: "klog \<Rightarrow> bool" where
  "sleeps_atomic h \<longleftrightarrow> (\<exists>i<length h. sleeps (fst (h ! i)) \<and> in_atomic (take i h))"

lemma sleeps_atomic_snoc: "sleeps_atomic (h @ [e]) \<longleftrightarrow> sleeps_atomic h \<or> sleeps (fst e) \<and> in_atomic h"
  by (simp add: sleeps_atomic_def Ex_less_Suc nth_append cong: conj_cong) blast

lemma sleeps_atomic_kdo [log_simps]:
  "sleeps_atomic (klog (kdo K c s)) \<longleftrightarrow> sleeps_atomic (klog s) \<or> sleeps c \<and> in_atomic (klog s)"
  by (simp add: kdo_klog sleeps_atomic_snoc)

lemma sleeps_atomic_append: "sleeps_atomic h \<Longrightarrow> sleeps_atomic (h @ es)"
  by (fastforce simp: sleeps_atomic_def nth_append)

lemma sleeps_atomic_at: "sleeps c \<Longrightarrow> in_atomic (klog s) \<Longrightarrow> sleeps_atomic (klog (kdo K c s) @ es)"
  by (rule sleeps_atomic_append) (simp add: log_simps)

lemma in_atomic_free [simp]: "locks h = Some [] \<Longrightarrow> \<not> in_atomic h"
  by (simp add: in_atomic_def)

definition quiet :: "'a kstate_scheme \<Rightarrow> 'b kstate_scheme \<Rightarrow> bool" where
  "quiet s s' \<longleftrightarrow> (\<exists>es. klog s' = klog s @ es \<and> (\<forall>e\<in>set es. \<not> sleeps (fst e)))"

lemma quiet_refl [simp]: "quiet s s"
  by (simp add: quiet_def)

lemma quiet_trans [trans]: "quiet s t \<Longrightarrow> quiet t u \<Longrightarrow> quiet s u"
  by (fastforce simp: quiet_def)

lemma quiet_kdo [simp]: "quiet s t \<Longrightarrow> \<not> sleeps c \<Longrightarrow> quiet s (kdo K c t)"
  by (fastforce simp: quiet_def kdo_klog)

lemma quiet_step: "quiet (kdo K c s) t \<Longrightarrow> \<not> sleeps c \<Longrightarrow> quiet s t"
  by (rule quiet_trans [of s "kdo K c s"]) simp_all

lemma quiet_cong: "klog t' = klog t \<Longrightarrow> quiet s t' \<longleftrightarrow> quiet s t"
  by (simp add: quiet_def)

lemma quiet_sleeps_atomic:
  assumes "quiet s s'"
  shows "sleeps_atomic (klog s') \<longleftrightarrow> sleeps_atomic (klog s)"
proof -
  obtain es where es: "klog s' = klog s @ es" "\<forall>e\<in>set es. \<not> sleeps (fst e)" using assms by (auto simp: quiet_def)
  have "sleeps_atomic (klog s @ es) \<longleftrightarrow> sleeps_atomic (klog s)"
    using es(2)
  proof (induction es rule: rev_induct)
    case (snoc e es)
    then show ?case using sleeps_atomic_snoc [of "klog s @ es" e] by simp
  qed simp
  then show ?thesis using es(1) by simp
qed

section \<open>The list macros\<close>

definition quiet_body :: "(ptr \<Rightarrow> 'a kstate_scheme \<Rightarrow> ('r option \<times> 'a kstate_scheme) option) \<Rightarrow> bool" where
  "quiet_body body \<longleftrightarrow> (\<forall>p s r s'. body p s = Some (r, s') \<longrightarrow> quiet s s')"

lemma quiet_bodyI: "(\<And>p s r s'. body p s = Some (r, s') \<Longrightarrow> quiet s s') \<Longrightarrow> quiet_body body"
  by (auto simp: quiet_body_def)

lemma for_each_quiet:
  fixes lk :: "'a kstate_scheme \<Rightarrow> links" and body :: "ptr \<Rightarrow> 'a kstate_scheme \<Rightarrow> ('b option \<times> 'a kstate_scheme) option"
  assumes "for_each lk h body p s = Some y"
  shows "quiet_body body \<longrightarrow> quiet s (snd y)"
proof (rule for_each.raw_induct [OF _ assms, of "\<lambda>lk h body p s y. quiet_body body \<longrightarrow> quiet s (snd y)"], intro impI)
  fix f :: "('a kstate_scheme \<Rightarrow> links) \<Rightarrow> ptr \<Rightarrow> (ptr \<Rightarrow> 'a kstate_scheme \<Rightarrow> ('b option \<times> 'a kstate_scheme) option) \<Rightarrow> ptr
      \<Rightarrow> 'a kstate_scheme \<Rightarrow> ('b option \<times> 'a kstate_scheme) option"
    and lk h body p s y
  assume IH: "\<And>lk h body p s y. f lk h body p s = Some y \<Longrightarrow> quiet_body body \<longrightarrow> quiet s (snd y)"
    and f: "(if p = h then Some (None, s)
      else Option.bind (body p s) (\<lambda>rs. case fst rs of Some x \<Rightarrow> Some (Some x, snd rs)
        | None \<Rightarrow> Option.bind (nx (lk (snd rs)) p) (\<lambda>n. f lk h body n (snd rs)))) = Some y"
    and b: "quiet_body body"
  show "quiet s (snd y)"
  proof (cases "p = h")
    case False
    then obtain r s1 where s1: "body p s = Some (r, s1)" using f by (auto simp: bind_Some_conv)
    then have q: "quiet s s1" using b by (auto simp: quiet_body_def)
    show ?thesis
    proof (cases r)
      case None
      then obtain n where "f lk h body n s1 = Some y" using f False s1 by (auto simp: bind_Some_conv)
      then show ?thesis using IH b quiet_trans [OF q] by blast
    qed (use f False s1 q in auto)
  qed (use f in auto)
qed

lemma for_each_safe_quiet:
  fixes lk :: "'a kstate_scheme \<Rightarrow> links" and body :: "ptr \<Rightarrow> 'a kstate_scheme \<Rightarrow> ('b option \<times> 'a kstate_scheme) option"
  assumes "for_each_safe lk h body p n s = Some y"
  shows "quiet_body body \<longrightarrow> quiet s (snd y)"
proof (rule for_each_safe.raw_induct [OF _ assms, of "\<lambda>lk h body p n s y. quiet_body body \<longrightarrow> quiet s (snd y)"], intro impI)
  fix f :: "('a kstate_scheme \<Rightarrow> links) \<Rightarrow> ptr \<Rightarrow> (ptr \<Rightarrow> 'a kstate_scheme \<Rightarrow> ('b option \<times> 'a kstate_scheme) option) \<Rightarrow> ptr \<Rightarrow> ptr
      \<Rightarrow> 'a kstate_scheme \<Rightarrow> ('b option \<times> 'a kstate_scheme) option"
    and lk h body p n s y
  assume IH: "\<And>lk h body p n s y. f lk h body p n s = Some y \<Longrightarrow> quiet_body body \<longrightarrow> quiet s (snd y)"
    and f: "(if p = h then Some (None, s)
      else Option.bind (body p s) (\<lambda>rs. case fst rs of Some x \<Rightarrow> Some (Some x, snd rs)
        | None \<Rightarrow> Option.bind (nx (lk (snd rs)) n) (\<lambda>m. f lk h body n m (snd rs)))) = Some y"
    and b: "quiet_body body"
  show "quiet s (snd y)"
  proof (cases "p = h")
    case False
    then obtain r s1 where s1: "body p s = Some (r, s1)" using f by (auto simp: bind_Some_conv)
    then have q: "quiet s s1" using b by (auto simp: quiet_body_def)
    show ?thesis
    proof (cases r)
      case None
      then obtain m where "f lk h body n m s1 = Some y" using f False s1 by (auto simp: bind_Some_conv)
      then show ?thesis using IH b quiet_trans [OF q] by blast
    qed (use f False s1 q in auto)
  qed (use f in auto)
qed

lemma list_for_each_quiet:
  "list_for_each lk h body s = Some (r, s') \<Longrightarrow> quiet_body body \<Longrightarrow> quiet s s'"
  by (auto simp: list_for_each_def bind_Some_conv dest: for_each_quiet)

lemma list_for_each_safe_quiet:
  "list_for_each_safe lk h body s = Some (r, s') \<Longrightarrow> quiet_body body \<Longrightarrow> quiet s s'"
  by (auto simp: list_for_each_safe_def bind_Some_conv dest: for_each_safe_quiet)

end
