(* ===== verification/Discipline.thy ===== *)
theory Discipline
  imports Sleeping Kbd List_sync Timer
begin

text \<open>
  The rules of atomic context over the modules that take locks: the interrupt handler of \<open>kbd.c\<close> and the timer handler of
  \<open>timer.c\<close> make no call that can sleep, and the functions that run in process context make such calls only where they
  hold no lock.
\<close>

section \<open>What is quiet\<close>

lemma quiet_updates [simp]:
  "quiet s (s1\<lparr>devs := d\<rparr>) = quiet s s1" "quiet s (s2\<lparr>links := l\<rparr>) = quiet s s2"
  "quiet s (s3\<lparr>heap := h\<rparr>) = quiet s s3" "quiet s (s4\<lparr>flag := f\<rparr>) = quiet s s4"
  "quiet s (s5\<lparr>links := l, heap := h\<rparr>) = quiet s s5"
  by (simp_all add: quiet_def)

lemma unlink_and_free_quiet: "unlink_and_free L K p s = Some s' \<Longrightarrow> quiet s s'"
  by (auto simp: unlink_and_free_def kfree_node_def bind_Some_conv)

lemma reap_quiet: "quiet_body (reap_if_dead L K)"
proof (rule quiet_bodyI)
  fix p s r s' assume "reap_if_dead L K p s = Some (r, s')"
  then show "quiet s s'"
    by (auto simp: reap_if_dead_def kcall_eq Let_def bind_Some_conv dest!: unlink_and_free_quiet
        split: if_splits elim: quiet_trans [rotated])
qed


lemma timer_handler_quiet:
  assumes "timer_handler L K i s = Some s'"
  shows "quiet s s'"
proof -
  let ?s = "kdo K (Sync (Spin_lock_irqsave (lock_addr i))) (kdo K (Print (Pr_info ''[timer_handler]'' [])) s)"
  have "quiet s s2" if "list_for_each_safe links (list_addr i) (reap_if_dead L K) ?s = Some (r, s2)" for r s2
    using list_for_each_safe_quiet [OF that reap_quiet] by (auto dest!: quiet_step)
  then show ?thesis
    using assms by (auto simp: timer_handler_def Let_def bind_Some_conv split: if_splits)
qed

lemma irq_handler_quiet: "kbd_irq_handler K irq_no d s = Some (r, s') \<Longrightarrow> quiet s s'"
  by (auto simp: kbd_irq_handler_def i8042_read_data_def kcall_eq Let_def bind_Some_conv split: if_splits)

lemma find_pid_quiet: "task_info_find_pid p s = Some (q, s') \<Longrightarrow> quiet s s'"
  by (auto simp: task_info_find_pid_def bind_Some_conv elim!: list_for_each_quiet intro!: quiet_bodyI)

lemma add_lookup_quiet: "add_lookup K p s = Some (b, s') \<Longrightarrow> quiet s s'"
  by (auto simp: add_lookup_def kcall_eq Let_def bind_Some_conv split: if_splits
      dest!: find_pid_quiet quiet_step)

lemma add_insert_quiet: "add_insert L K q s = Some s' \<Longrightarrow> quiet s s'"
  by (auto simp: add_insert_def Let_def bind_Some_conv split: if_splits)

lemma print_list_quiet:
  assumes "task_info_print_list K msg s = Some s'"
  shows "quiet s s'"
proof -
  let ?s = "kdo K (Sync (Read_lock sync_lock)) (kdo K (Print (Pr_info ''%s: [ '' [PStr msg])) s)"
  let ?body = "\<lambda>q (s :: list_sync). do {
        ti \<leftarrow> heap s q;
        Some (None :: unit option, kdo K (Print (Pr_info ''(%d, %lu) '' [PInt (pid ti), PUlong (timestamp ti)])) s)
      }"
  have b: "quiet_body ?body" by (rule quiet_bodyI) (auto simp: bind_Some_conv)
  have "quiet s s2" if "list_for_each links sync_head ?body ?s = Some (r, s2)" for r s2
    using list_for_each_quiet [OF that b] by (auto dest!: quiet_step)
  then show ?thesis using assms by (auto simp: task_info_print_list_def Let_def bind_Some_conv)
qed

lemma remove_expired_quiet:
  assumes "task_info_remove_expired L K T s = Some s'"
  shows "quiet s s'"
proof -
  let ?s = "kdo K (Sync (Write_lock sync_lock)) s"
  let ?body = "\<lambda>p (s :: list_sync). do {
        let (j, s) = kcall K (Time Jiffies) s;
        ti \<leftarrow> heap s p;
        if expired (HZ T) (word_of_int j) ti then do {
          s \<leftarrow> unlink_and_free L K p s;
          Some (None :: unit option, s)
        } else Some (None, s)
      }"
  have b: "quiet_body ?body"
    by (rule quiet_bodyI) (auto simp: bind_Some_conv kcall_eq dest!: unlink_and_free_quiet
        split: if_splits elim: quiet_trans [rotated])
  have "quiet s s2" if "list_for_each_safe links sync_head ?body ?s = Some (r, s2)" for r s2
    using list_for_each_safe_quiet [OF that b] by (auto dest!: quiet_step)
  then show ?thesis using assms by (auto simp: task_info_remove_expired_def Let_def bind_Some_conv)
qed

section \<open>Process context\<close>

text \<open>The allocation of \<open>task_info_add_to_list\<close> may sleep; it stands between the two critical sections.\<close>

lemma alloc_not_atomic:
  assumes "locks (klog s) = Some []" and "task_info_alloc K p s = (q, s')"
  shows "sleeps_atomic (klog s') = sleeps_atomic (klog s)"
proof -
  let ?s = "kdo K (Mem (Kmalloc sizeof_task_info ''GFP_KERNEL'')) s"
  have "klog s' = klog ?s \<or> klog s' = klog (kdo K (Time Jiffies) ?s)"
    using assms(2) by (auto simp: task_info_alloc_def kcall_eq Let_def new_node_def split: if_splits)
  then show ?thesis using assms(1) by (auto simp: log_simps)
qed

lemma sync_step_not_atomic:
  assumes "sync_step L K T x y" and "locks (klog (snd x)) = Some []"
  shows "sleeps_atomic (klog (snd y)) = sleeps_atomic (klog (snd x))"
  using assms
  by (cases rule: sync_step.cases)
    (auto dest!: add_lookup_quiet add_insert_quiet remove_expired_quiet print_list_quiet
      simp: quiet_sleeps_atomic alloc_not_atomic)

text \<open>A read of the keyboard device copies to the user, which may sleep, after it has dropped the lock of the buffer.\<close>

lemma read_iter_not_atomic:
  assumes "locks (klog s) = Some []" and "kbd_read_iter K data ub rd s = Some (x, s')"
  shows "locks (klog s') = Some [] \<and> sleeps_atomic (klog s') = sleeps_atomic (klog s)"
  using assms
  by (auto simp: kbd_read_iter_def kcall_eq Let_def bind_Some_conv log_simps split: option.splits if_splits)

lemma read_loop_not_atomic:
  "locks (klog s) = Some [] \<Longrightarrow> kbd_read_loop K n data ub rd s = Some (r, s') \<Longrightarrow>
    sleeps_atomic (klog s') = sleeps_atomic (klog s)"
proof (induction n arbitrary: rd s)
  case (Suc n)
  then obtain x s1 where s1: "kbd_read_iter K data ub rd s = Some (x, s1)" by (auto simp: bind_Some_conv)
  then show ?case
    using read_iter_not_atomic [OF Suc.prems(1) s1] Suc.IH [of s1] Suc.prems(2) by (auto split: sum.splits)
qed simp

lemma kbd_step_not_atomic:
  assumes "kbd_step K s s'" and "locks (klog s) = Some []"
  shows "locks (klog s') = Some [] \<and> sleeps_atomic (klog s') = sleeps_atomic (klog s)"
  using assms(1)
proof (cases rule: kbd_step.cases)
  case irq
  then show ?thesis using assms(2) irq_handler_quiet quiet_sleeps_atomic
    by (force simp: kbd_irq_handler_def i8042_read_data_def kcall_eq Let_def bind_Some_conv log_simps split: if_splits)
next
  case rd_turn
  then show ?thesis using read_iter_not_atomic [OF assms(2)] by blast
next
  case wr
  then show ?thesis using assms(2) by (auto simp: kbd_write_def bind_Some_conv log_simps)
qed

lemma kbd_reach_not_atomic: "kbd_reach K n s \<Longrightarrow> locks (klog s) = Some [] \<and> \<not> sleeps_atomic (klog s)"
proof (induction rule: kbd_reach.induct)
  case start
  then show ?case by (simp add: kbd_module0_def log_simps sleeps_atomic_def)
next
  case (step n s s')
  then show ?case using kbd_step_not_atomic [OF step(2)] by simp
qed

lemma get_proc_quiet: "get_proc K p s = (r, s') \<Longrightarrow> quiet s s'"
  by (auto simp: get_proc_def new_node_def kcall_eq Let_def split: if_splits)

lemma timer_ioctl_quiet: "timer_ioctl L K T f cmd arg s = Some (r, s') \<Longrightarrow> quiet s s'"
  by (auto simp: timer_ioctl_def kcall_eq Let_def bind_Some_conv dest!: get_proc_quiet quiet_step
      split: if_splits prod.splits sum.splits)

lemma timer_exec_not_atomic:
  assumes "timer_exec L K T e s = Some s'" and "locks (klog s) = Some []"
  shows "sleeps_atomic (klog s') = sleeps_atomic (klog s)"
proof (cases e)
  case (Ioctl cmd arg)
  then show ?thesis using assms(1) by (auto dest!: timer_ioctl_quiet simp: quiet_sleeps_atomic)
next
  case Fired
  then show ?thesis using assms(1) by (auto dest!: timer_handler_quiet simp: quiet_sleeps_atomic)
qed (use assms in \<open>auto simp: timer_open_def timer_release_def work_handler_def alloc_io_def Let_def log_simps\<close>)

lemma drop_quiet: "quiet_body (drop_process L K)"
proof (rule quiet_bodyI)
  fix p s r s' assume "drop_process L K p s = Some (r, s')"
  then show "quiet s s'" by (auto simp: drop_process_def bind_Some_conv dest!: unlink_and_free_quiet quiet_step)
qed

context list_h
begin

lemma sync_reach_not_atomic:
  assumes "sync_reach L K T x" and "kmalloc_fresh K"
  shows "\<not> sleeps_atomic (klog (snd x))"
  using assms(1)
proof (induction rule: sync_reach.induct)
  case (start l)
  then show ?case by (simp add: list_sync0_def sleeps_atomic_def)
next
  case (step x y)
  then have "locks (klog (snd x)) = Some []"
    using sync_reach_ok [OF step(1) assms(2)] by (auto simp: system_ok_def sync_ok_def)
  then show ?case using step sync_step_not_atomic by blast
qed

lemma timer_reach_not_atomic:
  assumes "timer_reach L K T s" and "kmalloc_fresh K"
  shows "\<not> sleeps_atomic (klog s)"
  using assms(1)
proof (induction rule: timer_reach.induct)
  case (loaded s)
  have "quiet timer_module0 s"
    using loaded by (auto simp: deferred_init_def NUM_MINORS_def kcall_eq Let_def bind_Some_conv split: if_splits)
  then show ?case using quiet_sleeps_atomic by (fastforce simp: timer_module0_def sleeps_atomic_def)
next
  case (event s e s')
  then have "locks (klog s) = Some []" using reach_ok [OF event(1) assms(2)] by (auto simp: timer_ok_def)
  then show ?case using event timer_exec_not_atomic by blast
qed

lemma deferred_exit_not_atomic:
  assumes "deferred_exit L K s = Some s'" and "locks (klog s) = Some []"
  shows "sleeps_atomic (klog s') = sleeps_atomic (klog s)"
proof -
  let ?s = "kdo K (Time (Cancel_work_sync (work_addr 0))) (kdo K (Time (Del_timer (timer_addr 0)))
    (kdo K (Chrdev (Cdev_del (dev_addr 0))) (kdo K (Print (Pr_info ''[LOG] Unregistered %s from kernel space'' [PStr MODULE_NAME])) s)))"
  obtain r s1 where s1: "list_for_each_safe links (list_addr 0) (drop_process L K) ?s = Some (r, s1)"
    "s' = kdo K (Chrdev (Unregister_chrdev_region (MKDEV MAJOR_NUMBER MINOR_NUMBER) NUM_MINORS)) s1"
    using assms(1) by (auto simp: deferred_exit_def NUM_MINORS_def bind_Some_conv)
  then have "quiet ?s s'" using list_for_each_safe_quiet [OF s1(1) drop_quiet] by simp
  then show ?thesis using assms(2) by (simp add: quiet_sleeps_atomic log_simps)
qed

end

section \<open>Theorems\<close>

text \<open>
  C18: The two functions that run in interrupt context, the keyboard's interrupt handler and the timer's handler, always return and
  make no call that may sleep, whatever the hardware and the kernel answer.
\<close>

theorem interrupt_handlers_never_sleep:
  assumes "kbd_ok s" and "i < KBD_NUM_MINORS" and "timer_ok xs t"
  shows "\<exists>s' t'. kbd_irq_handler K irq_no (kbd_dev_addr i) s = Some (IRQ_NONE, s') \<and> timer_handler dll K 0 t = Some t' \<and>
    (\<exists>es. klog s' = klog s @ es \<and> (\<forall>e\<in>set es. \<not> sleeps (fst e))) \<and>
    (\<exists>es. klog t' = klog t @ es \<and> (\<forall>e\<in>set es. \<not> sleeps (fst e)))"
proof -
  obtain s' where s': "kbd_irq_handler K irq_no (kbd_dev_addr i) s = Some (IRQ_NONE, s')"
    using kbd_irq_ok [OF assms(1) kbd_ok_index [OF assms(1,2)]] by blast
  obtain t' where t': "timer_handler dll K 0 t = Some t'" using header.handler_ok [OF assms(3)] by blast
  show ?thesis using s' t' irq_handler_quiet [OF s'] timer_handler_quiet [OF t'] unfolding quiet_def by blast
qed

text \<open>
  C13: No module that takes locks makes a call that may sleep while it holds one: not the keyboard driver, however its
  interrupts, reads and writes are interleaved, not the synchronised list, however its callers are, and not the
  timer driver, up to and including its unloading. This includes the paths on which an allocation or a copy to the user fails.
\<close>

theorem locks_never_held_across_sleep:
  assumes "kmalloc_fresh K"
    and "kbd_reach K n s1" and "sync_reach dll K T s2" and "timer_reach dll K T s3"
  shows "\<not> sleeps_atomic (klog s1) \<and> \<not> sleeps_atomic (klog (snd s2)) \<and> \<not> sleeps_atomic (klog s3) \<and>
    (\<exists>s'. deferred_exit dll K s3 = Some s' \<and> \<not> sleeps_atomic (klog s'))"
proof -
  obtain xs where xs: "timer_ok xs s3" using header.reach_ok [OF assms(4,1)] by blast
  then obtain s' where s': "deferred_exit dll K s3 = Some s'" using header.deferred_exit_ok by blast
  have "\<not> sleeps_atomic (klog s')"
    using header.deferred_exit_not_atomic [OF s'] header.timer_reach_not_atomic [OF assms(4,1)] xs
    by (simp add: timer_ok_def)
  then show ?thesis
    using s' kbd_reach_not_atomic [OF assms(2)] header.sync_reach_not_atomic [OF assms(3,1)]
      header.timer_reach_not_atomic [OF assms(4,1)] by blast
qed

section \<open>Witnesses\<close>

theorem interrupt_handlers_never_sleep_witness:
  "\<exists>t s' t'. kbd_irq_handler (key_kernel 30) 1 (kbd_dev_addr 0) kbd_module0 = Some (IRQ_NONE, s') \<and>
     timer_handler dll (key_kernel 30) 0 t = Some t'"
proof -
  have n: "0 < KBD_NUM_MINORS" by (simp add: KBD_NUM_MINORS_def)
  obtain t where "timer_ok [] t" using timer_ok_bump by blast
  then show ?thesis using interrupt_handlers_never_sleep [OF kbd_module0_ok n, of "[]" t "key_kernel 30" 1] by blast
qed

text \<open>
  A keyboard that has taken a key under its lock, a list into which two threads are about to insert what they have allocated,
  and a timer driver that has been loaded.
\<close>

theorem locks_never_held_across_sleep_witness:
  "\<exists>s1 c s2 s3. kbd_reach bump_kernel 1 s1 \<and> (Sync (Spin_lock (kbd_lock_addr 0)), 0) \<in> set (klog s1) \<and>
     sync_reach dll bump_kernel wit_tasks (c, s2) \<and> c 1 \<noteq> Idle \<and> timer_reach dll bump_kernel wit_tasks s3 \<and>
     \<not> sleeps_atomic (klog s1) \<and> \<not> sleeps_atomic (klog s2) \<and> \<not> sleeps_atomic (klog s3)"
proof -
  obtain s3 where s3: "timer_reach dll bump_kernel wit_tasks s3" using timer_reach_bump by blast
  obtain q1 j1 q2 j2 s2 where s2: "sync_reach dll bump_kernel wit_tasks ((\<lambda>i. Idle)(0 := Inserting q1, 1 := Inserting q2), s2)"
    using both_inserting [OF header.list_h_axioms bump_kmalloc_fresh bump_kmalloc_succeeds] by blast
  obtain s1 where s1: "kbd_reach bump_kernel 1 s1" "(Sync (Spin_lock (kbd_lock_addr 0)), 0) \<in> set (klog s1)"
    using kbd_reach_pressed by blast
  show ?thesis
    using locks_never_held_across_sleep [OF bump_kmalloc_fresh s1(1) s2 s3] s1 s2 s3
    by (intro exI [of _ s1] exI [of _ "(\<lambda>i. Idle)(0 := Inserting q1, 1 := Inserting q2)"] exI [of _ s2] exI [of _ s3]) simp
qed

end
