(* ===== verification/Kernel_memory.thy ===== *)
theory Kernel_memory
  imports Store
begin

text \<open>
  The two allocation exercises: \<open>KernelModules/kernelMemory-mod/kernelMemory.c\<close>, which records the processes above the
  current one, and \<open>KernelModules/kernelAlloc-mod/kernelAlloc-mod.c\<close>, which fills a buffer with a string.
\<close>

section \<open>kernelMemory.c\<close>

record taskInfo =
  pid :: int
  timestamp :: ulong

record kmem_module = kstate +
  kheap :: "ptr \<rightharpoonup> taskInfo"

definition kmem_module0 :: kmem_module where "kmem_module0 = \<lparr>klog = [], kheap = Map.empty\<rparr>"

definition sizeof_taskInfo :: nat where "sizeof_taskInfo = 16"

definition alloc_task_info :: "kernel \<Rightarrow> int \<Rightarrow> kmem_module \<Rightarrow> ptr \<times> kmem_module" where
  "alloc_task_info K p s =
     (let (r, s) = kcall K (Mem (Kmalloc sizeof_taskInfo ''GFP_KERNEL'')) s; t = ptr_of r in
      if t = Null then (Null, kdo K (Print (Pr_debug ''[ERROR] Failed to allocate memory for taskInfo'' [])) s)
      else let (j, s) = kcall K (Time Jiffies) s in
        (t, s\<lparr>kheap := (kheap s)(t \<mapsto> \<lparr>pid = p, timestamp = word_of_int j\<rparr>)\<rparr>))"

definition print_task_info :: "kernel \<Rightarrow> ptr \<Rightarrow> kmem_module \<Rightarrow> kmem_module option" where
  "print_task_info K tsk s = do {
     t \<leftarrow> kheap s tsk;
     let s = kdo K (Print (Pr_info ''tsk->id: %d'' [PInt (pid t)])) s;
     Some (kdo K (Print (Pr_info ''tsk->timestamp: %lx'' [PUlong (timestamp t)])) s)
   }"

definition kfree_info :: "kernel \<Rightarrow> ptr \<Rightarrow> kmem_module \<Rightarrow> kmem_module" where
  "kfree_info K p s = (let s = kdo K (Mem (Kfree p)) s in s\<lparr>kheap := (kheap s)(p := None)\<rparr>)"

definition memoryInit :: "kernel \<Rightarrow> tasks \<Rightarrow> kmem_module \<Rightarrow> (int \<times> kmem_module) option" where
  "memoryInit K T s = do {
     let (currProcess, s) = alloc_task_info K (task_pid T (current T)) s;
     let (parentProcess, s) = alloc_task_info K (task_pid T (parent T (current T))) s;
     let (nextParentProcess, s) = alloc_task_info K (task_pid T (parent T (parent T (current T)))) s;
     let (nextNextParentProcess, s) = alloc_task_info K (task_pid T (parent T (parent T (parent T (current T))))) s;
     s \<leftarrow> print_task_info K currProcess s;
     s \<leftarrow> print_task_info K parentProcess s;
     s \<leftarrow> print_task_info K nextParentProcess s;
     s \<leftarrow> print_task_info K nextNextParentProcess s;
     let s = (if currProcess \<noteq> Null \<and> parentProcess \<noteq> Null \<and> nextNextParentProcess \<noteq> Null \<and> nextParentProcess \<noteq> Null
        then kfree_info K nextNextParentProcess (kfree_info K nextParentProcess
               (kfree_info K parentProcess (kfree_info K currProcess s)))
        else s);
     Some (0, s)
   }"

definition memoryExit :: "kernel \<Rightarrow> kmem_module \<Rightarrow> kmem_module" where
  "memoryExit K s = kdo K (Print (Pr_info ''[LOG] kernemMemory Module has been unloaded'' [])) s"

section \<open>kernelAlloc-mod.c\<close>

record kalloc_module = kstate +
  kMemBuff :: ptr
  buff :: "byte list"   \<comment> \<open>what the buffer holds\<close>

definition kalloc_module0 :: kalloc_module where "kalloc_module0 = \<lparr>klog = [], kMemBuff = Null, buff = []\<rparr>"

definition strToCpy :: "byte list" where
  "strToCpy = map of_char ''The Dog is Black'' @ [10]"

text \<open>The contents of a fresh buffer are what the memory held.\<close>

definition fresh_buffer :: "kernel \<Rightarrow> klog \<Rightarrow> byte list" where
  "fresh_buffer K h = take 4096 (kbytes K h (Mem (Kmalloc 4096 ''GFP_KERNEL'')) @ replicate 4096 0)"

text \<open>A copy of \<open>src\<close> to the start of the buffer. It is an oops if it does not fit.\<close>

definition copy_to_buff :: "byte list \<Rightarrow> kalloc_module \<Rightarrow> kalloc_module option" where
  "copy_to_buff src s =
     (if length src \<le> length (buff s) then Some (s\<lparr>buff := src @ drop (length src) (buff s)\<rparr>) else None)"

fun print_chars :: "kernel \<Rightarrow> nat list \<Rightarrow> kalloc_module \<Rightarrow> kalloc_module option" where
  "print_chars K [] s = Some s"
| "print_chars K (i # is) s =
     (if i < length (buff s) then print_chars K is (kdo K (Print (Pr_info ''%c'' [PInt (uint (buff s ! i))])) s) else None)"

definition allocBuff :: "kernel \<Rightarrow> kalloc_module \<Rightarrow> (int \<times> kalloc_module) option" where
  "allocBuff K s = do {
     let b = fresh_buffer K (klog s);
     let (r, s) = kcall K (Mem (Kmalloc 4096 ''GFP_KERNEL'')) s;
     let s = s\<lparr>kMemBuff := ptr_of r, buff := (if r = 0 then [] else b)\<rparr>;
     let len = length strToCpy;
     let s = kdo K (Print (Pr_info ''[LOG] loaded module and allocating a buffer of 4096 bytes'' [])) s;
     if kMemBuff s = Null then Some (- ENOMEM, kdo K (Print (Pr_debug ''[ERROR] Failed to allocate buffer'' [])) s)
     else do {
       s \<leftarrow> copy_to_buff strToCpy s;
       let s = kdo K (Print (Pr_info ''[LOG] The string is: '' [])) s;
       s \<leftarrow> print_chars K [0..<len] s;
       Some (0, s)
     }
   }"

definition exitKernelAlloc :: "kernel \<Rightarrow> kalloc_module \<Rightarrow> kalloc_module" where
  "exitKernelAlloc K s =
     (let s = (if kMemBuff s \<noteq> Null then kdo K (Mem (Kfree (kMemBuff s))) s else s)
      in kdo K (Print (Pr_info ''[LOG] Unloading Module'' [])) s)"

section \<open>The records of the process hierarchy\<close>

lemma kheap_kdo [simp]: "kheap (kdo K c s) = kheap s"
  by (simp add: kdo_eq)

text \<open>\<open>holds xs s\<close>: the records \<open>xs\<close> are allocated, nothing else is.\<close>

definition holds :: "(ptr \<times> taskInfo) list \<Rightarrow> kmem_module \<Rightarrow> bool" where
  "holds xs s \<longleftrightarrow> kheap s = map_of xs \<and> distinct (map fst xs) \<and> Null \<notin> set (map fst xs) \<and>
     held_mem (klog s) = map (RMem \<circ> fst) xs"

lemma alloc_holds:
  assumes "holds xs s" and "kmalloc_fresh K" and "kmalloc_succeeds K"
  shows "\<exists>q t s'. alloc_task_info K p s = (q, s') \<and> pid t = p \<and> holds ((q, t) # xs) s' \<and> printed (klog s') = printed (klog s)"
proof -
  let ?c = "Mem (Kmalloc sizeof_taskInfo ''GFP_KERNEL'')"
  let ?r = "kret K (klog s) ?c"
  have r: "?r \<noteq> 0" using assms(3) by (simp add: kmalloc_succeeds_def)
  have "RMem (Heap ?r) \<notin> set (held_mem (klog s))"
    using assms(2) by (simp add: kmalloc_fresh_def held_mem_mem [symmetric])
  then have "Heap ?r \<notin> set (map fst xs)" using assms(1) by (auto simp: holds_def)
  moreover define t where "t = \<lparr>pid = p, timestamp = word_of_int (kret K (klog (kdo K ?c s)) (Time Jiffies))\<rparr>"
  moreover define s' where "s' = (kdo K (Time Jiffies) (kdo K ?c s))\<lparr>kheap := (kheap s)(Heap ?r \<mapsto> t)\<rparr>"
  ultimately have "holds ((Heap ?r, t) # xs) s'" "printed (klog s') = printed (klog s)" "alloc_task_info K p s = (Heap ?r, s')"
    using assms(1) r by (simp_all add: alloc_task_info_def kcall_eq Let_def holds_def log_simps)
  then show ?thesis by (intro exI [of _ "Heap ?r"] exI [of _ t] exI [of _ s']) (simp add: t_def)
qed

lemma print_holds:
  assumes "holds xs s" and "(q, t) \<in> set xs"
  shows "\<exists>s'. print_task_info K q s = Some s' \<and> holds xs s' \<and>
    printed (klog s') = printed (klog s) @ [(''tsk->id: %d'', [PInt (pid t)]), (''tsk->timestamp: %lx'', [PUlong (timestamp t)])]"
  using assms by (simp add: print_task_info_def holds_def log_simps)

lemma kfree_holds:
  assumes "holds (xs @ [(q, t)]) s"
  shows "holds xs (kfree_info K q s)"
proof -
  have q: "q \<notin> fst ` set xs" "q \<noteq> Null" using assms by (auto simp: holds_def)
  then have "remove1 (RMem q) (map (RMem \<circ> fst) xs @ [RMem q]) = map (RMem \<circ> fst) xs"
    by (induction xs) auto
  moreover have "(map_of (xs @ [(q, t)]))(q := None) = map_of xs" using map_of_middle_delete [of q xs "[]" t] q(1) by simp
  ultimately show ?thesis using assms q by (auto simp: kfree_info_def holds_def Let_def log_simps)
qed

text \<open>
  With memory available, loading records the current process and its three ancestors, prints the four records in that
  order and frees them: nothing stays allocated.
\<close>

theorem kernel_memory_balanced:
  assumes "kmalloc_fresh K" and "kmalloc_succeeds K"
  shows "\<exists>s (ts :: taskInfo list). memoryInit K T kmem_module0 = Some (0, s) \<and> held_mem (klog s) = [] \<and>
    map pid ts = map (\<lambda>n. task_pid T ((parent T ^^ n) (current T))) [0..<4] \<and>
    printed (klog s) = concat (map (\<lambda>t. [(''tsk->id: %d'', [PInt (pid t)]), (''tsk->timestamp: %lx'', [PUlong (timestamp t)])]) ts)"
proof -
  note alloc = alloc_holds [OF _ assms]
  let ?p = "\<lambda>n. task_pid T ((parent T ^^ n) (current T))"
  have 0: "holds [] kmem_module0" "printed (klog kmem_module0) = []"
    by (simp_all add: holds_def kmem_module0_def held_mem_def held_def log_simps printed_def)
  obtain q1 t1 s1 where 1: "alloc_task_info K (?p 0) kmem_module0 = (q1, s1)" "pid t1 = ?p 0" "holds [(q1, t1)] s1"
    "printed (klog s1) = []" using alloc [OF 0(1), of "?p 0"] 0(2) by auto
  obtain q2 t2 s2 where 2: "alloc_task_info K (?p 1) s1 = (q2, s2)" "pid t2 = ?p 1" "holds [(q2, t2), (q1, t1)] s2"
    "printed (klog s2) = []" using alloc [OF 1(3), of "?p 1"] 1(4) by auto
  obtain q3 t3 s3 where 3: "alloc_task_info K (?p 2) s2 = (q3, s3)" "pid t3 = ?p 2" "holds [(q3, t3), (q2, t2), (q1, t1)] s3"
    "printed (klog s3) = []" using alloc [OF 2(3), of "?p 2"] 2(4) by auto
  obtain q4 t4 s4 where 4: "alloc_task_info K (?p 3) s3 = (q4, s4)" "pid t4 = ?p 3"
    "holds [(q4, t4), (q3, t3), (q2, t2), (q1, t1)] s4" "printed (klog s4) = []" using alloc [OF 3(3), of "?p 3"] 3(4) by auto
  let ?out = "\<lambda>t. [(''tsk->id: %d'', [PInt (pid t)]), (''tsk->timestamp: %lx'', [PUlong (timestamp t)])]"
  note pr = print_holds [where K = K]
  obtain s5 where 5: "print_task_info K q1 s4 = Some s5" "holds [(q4, t4), (q3, t3), (q2, t2), (q1, t1)] s5"
    "printed (klog s5) = ?out t1" using pr [OF 4(3), of q1 t1] 4(4) by auto
  obtain s6 where 6: "print_task_info K q2 s5 = Some s6" "holds [(q4, t4), (q3, t3), (q2, t2), (q1, t1)] s6"
    "printed (klog s6) = ?out t1 @ ?out t2" using pr [OF 5(2), of q2 t2] 5(3) by auto
  obtain s7 where 7: "print_task_info K q3 s6 = Some s7" "holds [(q4, t4), (q3, t3), (q2, t2), (q1, t1)] s7"
    "printed (klog s7) = ?out t1 @ ?out t2 @ ?out t3" using pr [OF 6(2), of q3 t3] 6(3) by auto
  obtain s8 where 8: "print_task_info K q4 s7 = Some s8" "holds [(q4, t4), (q3, t3), (q2, t2), (q1, t1)] s8"
    "printed (klog s8) = ?out t1 @ ?out t2 @ ?out t3 @ ?out t4" using pr [OF 7(2), of q4 t4] 7(3) by auto
  let ?s = "kfree_info K q4 (kfree_info K q3 (kfree_info K q2 (kfree_info K q1 s8)))"
  have "holds [] ?s"
    using 8(2) kfree_holds [of "[(q4, t4), (q3, t3), (q2, t2)]" q1 t1] kfree_holds [of "[(q4, t4), (q3, t3)]" q2 t2]
      kfree_holds [of "[(q4, t4)]" q3 t3] kfree_holds [of "[]" q4 t4] by simp
  moreover have "memoryInit K T kmem_module0 = Some (0, ?s)"
  proof -
    have "q1 \<noteq> Null" "q2 \<noteq> Null" "q3 \<noteq> Null" "q4 \<noteq> Null" using 4(3) by (auto simp: holds_def)
    then show ?thesis
      using 1(1) 2(1) 3(1) 4(1) 5(1) 6(1) 7(1) 8(1) by (simp add: memoryInit_def numeral_2_eq_2 numeral_3_eq_3)
  qed
  moreover have "printed (klog ?s) = printed (klog s8)" by (simp add: kfree_info_def Let_def log_simps)
  moreover have "map pid [t1, t2, t3, t4] = map ?p [0..<4]" using 1(2) 2(2) 3(2) 4(2) by (simp add: numeral_eq_Suc)
  ultimately show ?thesis using 8(3) by (intro exI [of _ ?s] exI [of _ "[t1, t2, t3, t4]"]) (simp add: holds_def)
qed

text \<open>
  The four records are printed before any of them is checked: when no memory is to be had, loading
  faults on a NULL pointer, and the check that follows is never reached.
\<close>

theorem kernel_memory_faults_without_memory:
  assumes "\<forall>h n f. kret K h (Mem (Kmalloc n f)) = 0"
  shows "memoryInit K T kmem_module0 = None"
  using assms by (simp add: memoryInit_def alloc_task_info_def print_task_info_def kcall_eq Let_def kmem_module0_def)

section \<open>The buffer\<close>

lemma kalloc_sel [simp]:
  "kMemBuff (kdo K c s) = kMemBuff s" "buff (kdo K c s) = buff s"
  by (simp_all add: kdo_eq)

lemma print_chars_ok:
  "\<forall>i\<in>set is. i < length (buff s) \<Longrightarrow> \<exists>s'. print_chars K is s = Some s' \<and> kMemBuff s' = kMemBuff s \<and> buff s' = buff s \<and>
    printed (klog s') = printed (klog s) @ map (\<lambda>i. (''%c'', [PInt (uint (buff s ! i))])) is \<and>
    acct (klog s') = acct (klog s)"
proof (induction "is" arbitrary: s)
  case (Cons i "is")
  then show ?case
    using Cons.IH [of "kdo K (Print (Pr_info ''%c'' [PInt (uint (buff s ! i))])) s"] by (auto simp: log_simps)
qed simp

text \<open>
  Loading prints exactly the characters of the string, read back from the buffer, and unloading frees the buffer. When
  the allocation fails, loading reports \<open>ENOMEM\<close> and holds nothing.
\<close>

theorem kernel_alloc_copies_string:
  shows "\<exists>r s. allocBuff K kalloc_module0 = Some (r, s) \<and>
    (if r = 0 then take (length strToCpy) (buff s) = strToCpy \<and> length (buff s) = 4096 \<and>
       printed (klog s) = (''[LOG] loaded module and allocating a buffer of 4096 bytes'', []) #
         (''[LOG] The string is: '', []) # map (\<lambda>b. (''%c'', [PInt (uint b)])) strToCpy
     else r = - ENOMEM \<and> held (klog s) = []) \<and>
    held (klog (exitKernelAlloc K s)) = [] \<and> overreleased (klog (exitKernelAlloc K s)) = []"
proof -
  let ?c = "Mem (Kmalloc 4096 ''GFP_KERNEL'')"
  let ?p = "kdo K (Print (Pr_info ''[LOG] loaded module and allocating a buffer of 4096 bytes'' [])) (kdo K ?c kalloc_module0)"
  let ?r = "kret K (klog kalloc_module0) ?c"
  have 0: "acct (klog kalloc_module0) = ([], [])" "printed (klog kalloc_module0) = []"
    by (simp_all add: kalloc_module0_def log_simps printed_def)
  have len: "length strToCpy = 17" "length (fresh_buffer K h) = 4096" for h
    by (simp_all add: strToCpy_def fresh_buffer_def)
  show ?thesis
  proof (cases "?r = 0")
    case True
    then show ?thesis
      using 0 by (simp add: allocBuff_def exitKernelAlloc_def Let_def kcall_eq log_simps held_def overreleased_def errno_defs)
  next
    case False
    define s1 where "s1 = kdo K (Print (Pr_info ''[LOG] The string is: '' []))
      (?p\<lparr>kMemBuff := Heap ?r, buff := strToCpy @ drop 17 (fresh_buffer K (klog kalloc_module0))\<rparr>)"
    have s1: "buff s1 = strToCpy @ drop 17 (fresh_buffer K (klog kalloc_module0))" "kMemBuff s1 = Heap ?r"
        "acct (klog s1) = ([RMem (Heap ?r)], [])"
        "printed (klog s1) = [(''[LOG] loaded module and allocating a buffer of 4096 bytes'', []), (''[LOG] The string is: '', [])]"
      using False 0 by (simp_all add: s1_def log_simps)
    then have "\<forall>i\<in>set [0..<17]. i < length (buff s1)" using len by simp
    then obtain s where s: "print_chars K [0..<17] s1 = Some s" "kMemBuff s = kMemBuff s1" "buff s = buff s1"
        "printed (klog s) = printed (klog s1) @ map (\<lambda>i. (''%c'', [PInt (uint (buff s1 ! i))])) [0..<17]"
        "acct (klog s) = acct (klog s1)"
      using print_chars_ok by blast
    have "map (\<lambda>i. (''%c'', [PInt (uint (buff s1 ! i))])) [0..<17] = map (\<lambda>b. (''%c'', [PInt (uint b)])) strToCpy"
      using len(1) s1(1) by (intro nth_equalityI) (simp_all add: nth_append)
    moreover have "allocBuff K kalloc_module0 = Some (0, s)"
      using False s(1) len by (simp add: allocBuff_def kcall_eq Let_def copy_to_buff_def s1_def kdo_eq)
    moreover have "acct (klog (exitKernelAlloc K s)) = ([], [])"
      using s(2,5) s1(2,3) by (simp add: exitKernelAlloc_def Let_def log_simps)
    ultimately show ?thesis
      using s s1 len by (intro exI [of _ 0] exI [of _ s]) (simp add: held_def overreleased_def)
  qed
qed

section \<open>Witnesses\<close>

theorem kernel_memory_balanced_witness:
  "kmalloc_fresh bump_kernel \<and> kmalloc_succeeds bump_kernel \<and>
   (\<exists>s. memoryInit bump_kernel \<lparr>current = Null, parent = (\<lambda>p. p), next_task = (\<lambda>p. p), task_pid = (\<lambda>p. 7), HZ = 250\<rparr> kmem_module0
      = Some (0, s) \<and> held_mem (klog s) = [])"
  using kernel_memory_balanced [OF bump_kmalloc_fresh bump_kmalloc_succeeds,
      of "\<lparr>current = Null, parent = (\<lambda>p. p), next_task = (\<lambda>p. p), task_pid = (\<lambda>p. 7), HZ = 250\<rparr>"]
    bump_kmalloc_fresh bump_kmalloc_succeeds by auto

theorem kernel_memory_faults_without_memory_witness:
  "memoryInit \<lparr>kret = (\<lambda>h c. 0), kbytes = (\<lambda>h c. [])\<rparr>
     \<lparr>current = Null, parent = (\<lambda>p. p), next_task = (\<lambda>p. p), task_pid = (\<lambda>p. 7), HZ = 250\<rparr> kmem_module0 = None"
  by (rule kernel_memory_faults_without_memory) simp

end
