(* ===== verification/Demo_modules.thy ===== *)
theory Demo_modules
  imports Store Sleeping
begin

text \<open>
  The small modules: \<open>hello-1.c\<close>, \<open>cmd-mod.c\<close>, \<open>err_mod.c\<close>, \<open>mod1.c\<close> with \<open>mod2.c\<close>, \<open>kernel-oops-mod.c\<close>,
  \<open>proc-info-mod.c\<close>, \<open>sched-spin.c\<close> and the periodic timer of \<open>deferred-mod/deferred.c\<close>. Most of them only print; three
  have behaviour worth a theorem: the walk over all processes ends and visits each once, the periodic timer keeps
  itself armed until the module is unloaded, and the spinlock exercise sleeps with its lock held, as it says.
\<close>

section \<open>Modules that print\<close>

text \<open>\<open>FILE\<close> is the path the compiler puts for \<open>__FILE__\<close>.\<close>

definition hello_init :: "kernel \<Rightarrow> string \<Rightarrow> kstate \<Rightarrow> int \<times> kstate" where
  "hello_init K FILE s = (0, kdo K (Print (Printk ('' AM I alive'' @ [CHR 0x0A] @ '' %s'') [PStr FILE])) s)"

definition hello_exit :: "kernel \<Rightarrow> kstate \<Rightarrow> kstate" where
  "hello_exit K s = kdo K (Print (Printk ''Goodbye world '' [])) s"

text \<open>The string is a parameter of the module, with a default.\<close>

record cmd_module = kstate +
  str :: string

definition cmd_module0 :: cmd_module where "cmd_module0 = \<lparr>klog = [], str = ''the D:)''\<rparr>"

definition cmd_init :: "kernel \<Rightarrow> cmd_module \<Rightarrow> int \<times> cmd_module" where
  "cmd_init K s = (0, kdo K (Print (Printk ''Early bird gets %s'' [PStr (str s)])) s)"

definition cmd_exit :: "kernel \<Rightarrow> cmd_module \<Rightarrow> cmd_module" where
  "cmd_exit K s = kdo K (Print (Printk ''The Bird left the %s'' [PStr (str s)])) s"

record err_module = kstate +
  n1 :: u32
  n2 :: u32

definition err_module0 :: err_module where "err_module0 = \<lparr>klog = [], n1 = 0, n2 = 0\<rparr>"

definition err_init :: "kernel \<Rightarrow> err_module \<Rightarrow> int \<times> err_module" where
  "err_init K s =
     (let s = s\<lparr>n1 := 1\<rparr>; s = s\<lparr>n2 := 2\<rparr>
      in (0, kdo K (Print (Printk ''n1 is %d, n2 is %d'' [PInt (sint (n1 s)), PInt (sint (n2 s))])) s))"

definition err_exit :: "kernel \<Rightarrow> err_module \<Rightarrow> err_module" where
  "err_exit K s = kdo K (Print (Printk ''sum is %d'' [PInt (sint (n1 s + n2 s))])) s"

text \<open>\<open>mod2.c\<close> and \<open>mod1.c\<close>. An \<open>int\<close> wraps: the kernel is built with \<open>-fno-strict-overflow\<close>.\<close>

definition add :: "u32 \<Rightarrow> u32 \<Rightarrow> u32" where "add x y = x + y"

record multi_module = kstate +
  num1 :: u32
  num2 :: u32

definition multi_module0 :: multi_module where "multi_module0 = \<lparr>klog = [], num1 = 5, num2 = 5\<rparr>"

definition printNums :: "kernel \<Rightarrow> multi_module \<Rightarrow> int \<times> multi_module" where
  "printNums K s =
     (0, kdo K (Print (Printk (''The Paramerter 1 is: %d'' @ [CHR 0x0A] @ '' The Parameter 2 is: %d'')
        [PInt (sint (num1 s)), PInt (sint (num2 s))])) s)"

definition exitModule :: "kernel \<Rightarrow> multi_module \<Rightarrow> multi_module" where
  "exitModule K s = (let total = add (num1 s) (num2 s) in kdo K (Print (Printk ''The sum is: %d'' [PInt (sint total)])) s)"

section \<open>kernel-oops-mod.c\<close>

text \<open>A store through a pointer that points to nothing is an oops.\<close>

definition store_through :: "ptr \<Rightarrow> char \<Rightarrow> kstate \<Rightarrow> kstate option" where
  "store_through p c s = (if p = Null then None else Some s)"

definition my_oops_init :: "kernel \<Rightarrow> kstate \<Rightarrow> (int \<times> kstate) option" where
  "my_oops_init K s = do {
     let c = Null;
     let s = kdo K (Print (Printk ''Before Intialization'' [])) s;
     s \<leftarrow> store_through c CHR ''a'' s;
     let s = kdo K (Print (Printk ''After Intialization'' [])) s;
     Some (0, s)
   }"

definition my_oops_exit :: "kernel \<Rightarrow> kstate \<Rightarrow> kstate" where
  "my_oops_exit K s = kdo K (Print (Printk ''Module is exiting'' [])) s"

section \<open>proc-info-mod.c\<close>

text \<open>The names of the processes and the address of the first one are the kernel's.\<close>

definition print_proc :: "kernel \<Rightarrow> tasks \<Rightarrow> (ptr \<Rightarrow> string) \<Rightarrow> ptr \<Rightarrow> kstate \<Rightarrow> kstate" where
  "print_proc K T comm p s =
     (let s = kdo K (Print (Printk ''The Process ID is: %d'' [PInt (task_pid T p)])) s
      in kdo K (Print (Printk ''The Process name is: %s'' [PStr (comm p)])) s)"

text \<open>\<open>for (p = &init_task; (p = next_task(p)) != &init_task;) body\<close>\<close>

partial_function (option) for_each_process ::
    "tasks \<Rightarrow> ptr \<Rightarrow> (ptr \<Rightarrow> kstate \<Rightarrow> kstate) \<Rightarrow> ptr \<Rightarrow> kstate \<Rightarrow> kstate option" where
  "for_each_process T init_task body p s =
     (let p = next_task T p in
      if p = init_task then Some s else for_each_process T init_task body p (body p s))"

definition proc_print_process ::
    "kernel \<Rightarrow> tasks \<Rightarrow> (ptr \<Rightarrow> string) \<Rightarrow> ptr \<Rightarrow> kstate \<Rightarrow> (int \<times> kstate) option" where
  "proc_print_process K T comm init_task s = do {
     let s = print_proc K T comm (current T) s;
     s \<leftarrow> for_each_process T init_task (print_proc K T comm) init_task s;
     Some (0, s)
   }"

definition proc_exit :: "kernel \<Rightarrow> tasks \<Rightarrow> (ptr \<Rightarrow> string) \<Rightarrow> kstate \<Rightarrow> kstate" where
  "proc_exit K T comm s = print_proc K T comm (current T) s"

section \<open>sched-spin.c\<close>

definition spin_lock_var :: ptr where "spin_lock_var = Static ''sched_spin_init.lock'' 0 ''''"

definition sched_spin_init :: "kernel \<Rightarrow> tasks \<Rightarrow> kstate \<Rightarrow> int \<times> kstate" where
  "sched_spin_init K T s =
     (let s = kdo K (Print (Pr_info ''[LOG] Loading Module'' [])) s;
          s = kdo K (Sync (Spin_lock_init spin_lock_var)) s;
          s = kdo K (Sync (Spin_lock spin_lock_var)) s;
          s = kdo K (Print (Pr_info ''[LOG] Grabbing the lock'' [])) s;
          s = kdo K (Time (Set_current_state ''TASK_INTERRUPTIBLE'')) s;
          s = kdo K (Time (Schedule_timeout_interruptible (of_nat (5 * HZ T)))) s;
          s = kdo K (Sync (Spin_unlock spin_lock_var)) s
      in (0, kdo K (Print (Pr_info ''[LOG] Releasing the lock'' [])) s))"

definition sched_spin_exit :: "kernel \<Rightarrow> kstate \<Rightarrow> kstate" where
  "sched_spin_exit K s = kdo K (Print (Pr_info ''[LOG] Unloading sched_spin module'' [])) s"

section \<open>deferred-mod/deferred.c\<close>

definition TIMER_TIMEOUT :: nat where "TIMER_TIMEOUT = 2"
definition MSG :: string where "MSG = ''INCOMING INCOMING''"

definition timer :: ptr where "timer = Static ''deferred.timer'' 0 ''''"

definition timer_callback :: "kernel \<Rightarrow> tasks \<Rightarrow> ptr \<Rightarrow> kstate \<Rightarrow> kstate" where
  "timer_callback K T t s =
     (let s = kdo K (Print (Pr_info ''The message is: %s'' [PStr MSG])) s;
          (j, s) = kcall K (Time Jiffies) s
      in kdo K (Time (Mod_timer t (word_of_int j + of_nat (TIMER_TIMEOUT * HZ T)))) s)"

definition timer_init :: "kernel \<Rightarrow> tasks \<Rightarrow> kstate \<Rightarrow> int \<times> kstate" where
  "timer_init K T s =
     (let s = kdo K (Print (Pr_info ''[LOG] timer module loaded'' [])) s;
          s = kdo K (Time (Timer_setup timer ''timer_callback'')) s;
          (j, s) = kcall K (Time Jiffies) s
      in (0, kdo K (Time (Mod_timer timer (word_of_int j + of_nat (TIMER_TIMEOUT * HZ T)))) s))"

definition timer_exit :: "kernel \<Rightarrow> kstate \<Rightarrow> kstate" where
  "timer_exit K s =
     (let s = kdo K (Time (Del_timer_sync timer)) s
      in kdo K (Print (Pr_info ''[LOG] timer_exit module has exited'' [])) s)"

section \<open>The walk over the processes\<close>

text \<open>The tasks form a ring through \<open>init_task\<close> with \<open>n\<close> others.\<close>

definition task_ring :: "tasks \<Rightarrow> ptr \<Rightarrow> nat \<Rightarrow> bool" where
  "task_ring T i n \<longleftrightarrow> (next_task T ^^ Suc n) i = i \<and> (\<forall>k\<in>{1..n}. (next_task T ^^ k) i \<noteq> i)"

definition proc_out :: "tasks \<Rightarrow> (ptr \<Rightarrow> string) \<Rightarrow> ptr \<Rightarrow> (string \<times> parg list) list" where
  "proc_out T comm p = [(''The Process ID is: %d'', [PInt (task_pid T p)]), (''The Process name is: %s'', [PStr (comm p)])]"

lemma printed_print_proc: "printed (klog (print_proc K T comm p s)) = printed (klog s) @ proc_out T comm p"
  by (simp add: print_proc_def Let_def log_simps proc_out_def)

lemma for_each_process_ok:
  assumes "task_ring T i n" and "k \<le> n"
  shows "\<exists>s'. for_each_process T i (print_proc K T comm) ((next_task T ^^ k) i) s = Some s' \<and>
    printed (klog s') = printed (klog s) @ concat (map (\<lambda>m. proc_out T comm ((next_task T ^^ m) i)) [Suc k..<Suc n])"
  using assms(2)
proof (induction "n - k" arbitrary: k s)
  case 0
  then have "next_task T ((next_task T ^^ k) i) = i" using assms(1) by (simp add: task_ring_def)
  then show ?case using 0 by (subst for_each_process.simps) simp
next
  case (Suc d)
  then have "(next_task T ^^ Suc k) i \<noteq> i" using assms(1) by (auto simp: task_ring_def simp del: funpow.simps)
  moreover have "[Suc k..<Suc n] = Suc k # [Suc (Suc k)..<Suc n]" using Suc.hyps(2) by (simp add: upt_conv_Cons del: upt_Suc)
  ultimately show ?case
    using Suc.hyps(1) [of "Suc k" "print_proc K T comm ((next_task T ^^ Suc k) i) s"] Suc.hyps(2)
    by (subst for_each_process.simps) (simp add: Let_def printed_print_proc del: upt_Suc)
qed

text \<open>
  Loading the process lister returns, provided the task list is the ring the kernel keeps: it prints the current process
  and then every process of the ring but the first one, each once, in ring order.
\<close>

theorem proc_info_visits_each_once:
  assumes "task_ring T init_task n"
  shows "\<exists>s'. proc_print_process K T comm init_task s = Some (0, s') \<and>
    printed (klog s') = printed (klog s) @ proc_out T comm (current T) @
      concat (map (\<lambda>m. proc_out T comm ((next_task T ^^ m) init_task)) [1..<Suc n])"
  using for_each_process_ok [OF assms, of 0 K comm "print_proc K T comm (current T) s"]
  by (auto simp: proc_print_process_def printed_print_proc)

section \<open>The periodic timer\<close>

text \<open>Whether the timer at \<open>p\<close> is waiting to fire: it was armed after it was last stopped.\<close>

fun pending_step :: "ptr \<Rightarrow> bool \<Rightarrow> kcall \<times> int \<Rightarrow> bool" where
  "pending_step p b (Time (Mod_timer t e), r) = (b \<or> t = p)"
| "pending_step p b (Time (Del_timer t), r) = (b \<and> t \<noteq> p)"
| "pending_step p b (Time (Del_timer_sync t), r) = (b \<and> t \<noteq> p)"
| "pending_step p b e = b"

definition pending :: "ptr \<Rightarrow> klog \<Rightarrow> bool" where "pending p h = foldl (pending_step p) False h"

lemma pending_kdo [log_simps]: "pending p (klog (kdo K c s)) = pending_step p (pending p (klog s)) (c, kret K (klog s) c)"
  by (simp add: pending_def kdo_klog)

text \<open>
  C40: However often the timer has fired, it is armed again, each time \<open>2 * HZ\<close> ticks after the tick count read then, and it
  has printed its message once per firing. Unloading leaves it stopped.
\<close>

theorem deferred_timer_keeps_ticking:
  fixes K :: kernel and n :: nat
  shows "let s = (timer_callback K T timer ^^ n) (snd (timer_init K T \<lparr>klog = []\<rparr>)) in
    pending timer (klog s) \<and> length (jiffies_reads (klog s)) = Suc n \<and>
    armings (klog s) = map (\<lambda>j. (timer, j + of_nat (2 * HZ T))) (jiffies_reads (klog s)) \<and>
    printed (klog s) = (''[LOG] timer module loaded'', []) # replicate n (''The message is: %s'', [PStr MSG]) \<and>
    \<not> pending timer (klog (timer_exit K s))"
proof -
  define s where "s m = (timer_callback K T timer ^^ m) (snd (timer_init K T \<lparr>klog = []\<rparr>))" for m
  have "pending timer (klog (s n)) \<and> length (jiffies_reads (klog (s n))) = Suc n \<and>
    armings (klog (s n)) = map (\<lambda>j. (timer, j + of_nat (2 * HZ T))) (jiffies_reads (klog (s n))) \<and>
    printed (klog (s n)) = (''[LOG] timer module loaded'', []) # replicate n (''The message is: %s'', [PStr MSG])"
  proof (induction n)
    case 0
    have "jiffies_reads [] = []" "armings [] = []" "printed [] = []" by (simp_all add: jiffies_reads_def armings_def printed_def)
    then show ?case by (simp add: s_def timer_init_def Let_def kcall_eq log_simps TIMER_TIMEOUT_def)
  next
    case (Suc m)
    moreover have "s (Suc m) = timer_callback K T timer (s m)" by (simp add: s_def)
    ultimately show ?case
      by (simp add: timer_callback_def Let_def kcall_eq log_simps TIMER_TIMEOUT_def replicate_append_same)
  qed
  then show ?thesis by (simp add: Let_def s_def timer_exit_def log_simps)
qed

section \<open>Sleeping with a lock held\<close>

text \<open>
  The spinlock exercise does what its documentation says it does on purpose: it sleeps with the spinlock held. It
  releases the lock afterwards.
\<close>

theorem sched_spin_sleeps_with_lock:
  assumes "locks (klog s) = Some []"
  shows "sleeps_atomic (klog (snd (sched_spin_init K T s))) \<and> locks (klog (snd (sched_spin_init K T s))) = Some []"
proof
  let ?s = "kdo K (Time (Set_current_state ''TASK_INTERRUPTIBLE'')) (kdo K (Print (Pr_info ''[LOG] Grabbing the lock'' []))
    (kdo K (Sync (Spin_lock spin_lock_var)) (kdo K (Sync (Spin_lock_init spin_lock_var))
    (kdo K (Print (Pr_info ''[LOG] Loading Module'' [])) s))))"
  let ?c = "Time (Schedule_timeout_interruptible (of_nat (5 * HZ T)))"
  have "locks (klog ?s) = Some [(spin_lock_var, Plain)]" using assms by (simp add: log_simps)
  then have "sleeps_atomic (klog (kdo K ?c ?s) @ es)" for es by (intro sleeps_atomic_at) (simp_all add: in_atomic_def)
  moreover have "\<exists>es. klog (snd (sched_spin_init K T s)) = klog (kdo K ?c ?s) @ es"
    by (simp add: sched_spin_init_def Let_def kdo_klog [of _ "Print _"] kdo_klog [of _ "Sync (Spin_unlock _)"])
  ultimately show "sleeps_atomic (klog (snd (sched_spin_init K T s)))" by metis
  show "locks (klog (snd (sched_spin_init K T s))) = Some []"
    using assms by (simp add: sched_spin_init_def Let_def log_simps)
qed

text \<open>
  The oops exercise faults, and the summing modules print the sums of what their initialisation printed.
\<close>

theorem demo_results:
  "my_oops_init K s = None \<and>
   printed (klog (err_exit K (snd (err_init K err_module0)))) = [(''n1 is %d, n2 is %d'', [PInt 1, PInt 2]), (''sum is %d'', [PInt 3])] \<and>
   printed (klog (exitModule K (snd (printNums K multi_module0)))) =
     [(''The Paramerter 1 is: %d'' @ [CHR 0x0A] @ '' The Parameter 2 is: %d'', [PInt 5, PInt 5]), (''The sum is: %d'', [PInt 10])]"
proof -
  have "printed [] = []" by (simp add: printed_def)
  then show ?thesis
    by (simp add: my_oops_init_def store_through_def err_init_def err_exit_def err_module0_def printNums_def exitModule_def
        multi_module0_def add_def Let_def log_simps kdo_eq printed_def)
qed

section \<open>Witnesses\<close>

definition ring_tasks :: tasks where
  "ring_tasks = \<lparr>current = Heap 1, parent = (\<lambda>p. p),
     next_task = (\<lambda>p. if p = Heap 0 then Heap 1 else if p = Heap 1 then Heap 2 else Heap 0),
     task_pid = (\<lambda>p. case p of Heap a \<Rightarrow> a | _ \<Rightarrow> 0), HZ = 250\<rparr>"

theorem proc_info_visits_each_once_witness:
  "task_ring ring_tasks (Heap 0) 2 \<and>
   (\<exists>s'. proc_print_process bump_kernel ring_tasks (\<lambda>p. ''sh'') (Heap 0) \<lparr>klog = []\<rparr> = Some (0, s') \<and> length (printed (klog s')) = 6)"
proof -
  have "{1..2} = {1, 2 :: nat}" "[1..<Suc 2] = [1, 2]" by (auto simp: numeral_2_eq_2)
  moreover from this have r: "task_ring ring_tasks (Heap 0) 2" by (simp add: task_ring_def ring_tasks_def numeral_2_eq_2)
  ultimately show ?thesis
    using proc_info_visits_each_once [OF r, of bump_kernel "\<lambda>p. ''sh''" "\<lparr>klog = []\<rparr>"]
    by (auto simp: proc_out_def printed_def)
qed

theorem sched_spin_sleeps_with_lock_witness:
  "locks (klog \<lparr>klog = []\<rparr>) = Some [] \<and> sleeps_atomic (klog (snd (sched_spin_init bump_kernel ring_tasks \<lparr>klog = []\<rparr>)))"
  using sched_spin_sleeps_with_lock [of "\<lparr>klog = []\<rparr>" bump_kernel ring_tasks] by (simp add: log_simps)

end
