(* ===== verification/File_ops.thy ===== *)
theory File_ops
  imports Pages
begin

text \<open>
  The table of operations through which the kernel calls a driver, and a driver behind such a table. A process reaches
  the handlers of a driver only through files it has opened; the driver is also entered by its interrupt, timer or packet
  handler, and the administrator may unload it. \<open>dev_boot\<close> loads a driver and runs any sequence of such events. The
  locale \<open>file_driver\<close> states what a driver owes the kernel and \<open>owned_file_driver\<close> adds that its table names its
  module; what follows for every such driver is proved once.
\<close>

section \<open>The table\<close>

text \<open>
  \<open>struct file_operations\<close>, as far as the drivers fill it in: a member that the initialiser leaves out is NULL, here
  \<open>None\<close>. \<open>owner\<close> says whether the table names its module. The file position is an argument and a result.
\<close>

record 's file_operations =
  owner :: bool
  open_op :: "(inode \<Rightarrow> kfile \<Rightarrow> 's \<Rightarrow> (int \<times> kfile \<times> 's) option) option"
  release_op :: "(inode \<Rightarrow> kfile \<Rightarrow> 's \<Rightarrow> (int \<times> 's) option) option"
  read_op :: "(kfile \<Rightarrow> ptr \<Rightarrow> size_t \<Rightarrow> 64 word \<Rightarrow> 's \<Rightarrow> (int \<times> 64 word \<times> 's) option) option"
  write_op :: "(kfile \<Rightarrow> ptr \<Rightarrow> size_t \<Rightarrow> 64 word \<Rightarrow> 's \<Rightarrow> (int \<times> 64 word \<times> 's) option) option"
  unlocked_ioctl :: "(kfile \<Rightarrow> u32 \<Rightarrow> ulong \<Rightarrow> 's \<Rightarrow> (int \<times> 's) option) option"
  mmap_op :: "(kfile \<Rightarrow> vm_area_struct \<Rightarrow> 's \<Rightarrow> (int \<times> 's) option) option"

definition no_fops :: "'s file_operations" where
  "no_fops = \<lparr>owner = False, open_op = None, release_op = None, read_op = None, write_op = None,
     unlocked_ioctl = None, mmap_op = None\<rparr>"

text \<open>
  The kernel's side is a parameter: what it answers for an operation the table does not have, and whether it allows a
  module to be unloaded, which may depend on whether the table names its module and on the number of open files.
\<close>

datatype vfs_op =
    VRead ptr size_t "64 word"
  | VWrite ptr size_t "64 word"
  | VIoctl u32 ulong
  | VMmap vm_area_struct

record vfs =
  absent :: "vfs_op \<Rightarrow> int"
  unloadable :: "bool \<Rightarrow> nat \<Rightarrow> bool"

text \<open>
  The documented reference count: an open file holds a reference to the module its table names, and a module that is
  referenced is not unloaded; a file whose table names no module holds no reference.
\<close>

definition counts_owner :: "vfs \<Rightarrow> bool" where
  "counts_owner V \<longleftrightarrow> (\<forall>n. unloadable V True n = (n = 0)) \<and> (\<forall>n. unloadable V False n)"

fun call_op :: "vfs \<Rightarrow> 's file_operations \<Rightarrow> vfs_op \<Rightarrow> kfile \<Rightarrow> 's \<Rightarrow> (int \<times> 's) option" where
  "call_op V F (VRead ub sz off) f s =
     (case read_op F of None \<Rightarrow> Some (absent V (VRead ub sz off), s)
      | Some h \<Rightarrow> map_option (\<lambda>(r, off, s). (r, s)) (h f ub sz off s))"
| "call_op V F (VWrite ub sz off) f s =
     (case write_op F of None \<Rightarrow> Some (absent V (VWrite ub sz off), s)
      | Some h \<Rightarrow> map_option (\<lambda>(r, off, s). (r, s)) (h f ub sz off s))"
| "call_op V F (VIoctl cmd arg) f s =
     (case unlocked_ioctl F of None \<Rightarrow> Some (absent V (VIoctl cmd arg), s) | Some h \<Rightarrow> h f cmd arg s)"
| "call_op V F (VMmap vma) f s =
     (case mmap_op F of None \<Rightarrow> Some (absent V (VMmap vma), s) | Some h \<Rightarrow> h f vma s)"

text \<open>A table without \<open>open\<close> or \<open>release\<close>: the file is opened, or closed, without a call.\<close>

definition call_open :: "'s file_operations \<Rightarrow> inode \<Rightarrow> kfile \<Rightarrow> 's \<Rightarrow> (int \<times> kfile \<times> 's) option" where
  "call_open F ino f s = (case open_op F of None \<Rightarrow> Some (0, f, s) | Some h \<Rightarrow> h ino f s)"

definition call_release :: "'s file_operations \<Rightarrow> inode \<Rightarrow> kfile \<Rightarrow> 's \<Rightarrow> 's option" where
  "call_release F ino f s = (case release_op F of None \<Rightarrow> Some s | Some h \<Rightarrow> map_option snd (h ino f s))"

section \<open>A driver behind its table\<close>

text \<open>
  \<open>load\<close> is the init function run on the initial state, \<open>unload\<close> the exit function, \<open>intr\<close> the handlers that no file
  leads to, \<open>live\<close> whether what calls such a handler is registered with the kernel, \<open>minors\<close> the inodes of the driver's own devices.
\<close>

record ('s, 'e) driver =
  fops :: "'s file_operations"
  load :: "(int \<times> 's) option"
  unload :: "'s \<Rightarrow> 's option"
  intr :: "'e \<Rightarrow> 's \<Rightarrow> 's option"
  live :: "'e \<Rightarrow> 's \<Rightarrow> bool"
  minors :: "inode \<Rightarrow> bool"

record 's device =
  dstate :: 's
  files :: "kfile list"
  loaded :: bool

text \<open>What is registered after the calls of a log: \<open>on\<close> a call that registers it, \<open>off\<close> one that takes it back.\<close>

definition registered :: "(kcall \<Rightarrow> int \<Rightarrow> bool) \<Rightarrow> (kcall \<Rightarrow> bool) \<Rightarrow> klog \<Rightarrow> bool" where
  "registered on off h = foldl (\<lambda>b (c, r). on c r \<or> \<not> off c \<and> b) False h"

lemma registered_kdo [log_simps]:
  "registered on off (klog (kdo K c s)) = (on c (kret K (klog s) c) \<or> \<not> off c \<and> registered on off (klog s))"
  by (simp add: registered_def kdo_klog)

lemma registered_Nil [log_simps]: "registered on off [] = False"
  by (simp add: registered_def)

datatype 'e event = Open inode kfile | Op nat vfs_op | Close nat inode | Intr 'e | Unload

text \<open>
  One event. An operation on a file that is not open does not reach the driver. The table and the code of a driver that
  has been unloaded, or whose loading failed, are gone: going through them is an oops, be it by a file that is still open or by an
  interrupt, a timer or a hook that is still registered. So is a fault of a handler.
\<close>

fun dev_exec :: "vfs \<Rightarrow> ('s, 'e) driver \<Rightarrow> 'e event \<Rightarrow> 's device \<Rightarrow> 's device option" where
  "dev_exec V D (Open ino f) x =
     (if loaded x \<and> minors D ino then do {
        (r, f, s) \<leftarrow> call_open (fops D) ino f (dstate x);
        Some (x\<lparr>dstate := s, files := (if r = 0 then f # files x else files x)\<rparr>)
      } else Some x)"
| "dev_exec V D (Op n op) x =
     (if n < length (files x) then
        if loaded x then do {
          (r, s) \<leftarrow> call_op V (fops D) op (files x ! n) (dstate x);
          Some (x\<lparr>dstate := s\<rparr>)
        } else None
      else Some x)"
| "dev_exec V D (Close n ino) x =
     (if n < length (files x) then
        if loaded x then do {
          s \<leftarrow> call_release (fops D) ino (files x ! n) (dstate x);
          Some (x\<lparr>dstate := s, files := remove1 (files x ! n) (files x)\<rparr>)
        } else None
      else Some x)"
| "dev_exec V D (Intr e) x =
     (if loaded x then do { s \<leftarrow> intr D e (dstate x); Some (x\<lparr>dstate := s\<rparr>) }
      else if live D e (dstate x) then None else Some x)"
| "dev_exec V D Unload x =
     (if loaded x \<and> unloadable V (owner (fops D)) (length (files x)) then do {
        s \<leftarrow> unload D (dstate x);
        Some (x\<lparr>dstate := s, loaded := False\<rparr>)
      } else Some x)"

fun dev_run :: "vfs \<Rightarrow> ('s, 'e) driver \<Rightarrow> 'e event list \<Rightarrow> 's device \<Rightarrow> 's device option" where
  "dev_run V D [] x = Some x"
| "dev_run V D (e # es) x = do { x \<leftarrow> dev_exec V D e x; dev_run V D es x }"

definition dev_boot :: "vfs \<Rightarrow> ('s, 'e) driver \<Rightarrow> 'e event list \<Rightarrow> 's device option" where
  "dev_boot V D es = do {
     (r, s) \<leftarrow> load D;
     dev_run V D es \<lparr>dstate = s, files = [], loaded = (r = 0)\<rparr>
   }"

section \<open>The contract of a driver\<close>

text \<open>
  \<open>kernel_ok K\<close> is the documented behaviour of the kernel that the driver relies on; \<open>I K fs s\<close> its invariant while
  the files \<open>fs\<close> are open.
\<close>

locale file_driver =
  fixes D :: "kernel \<Rightarrow> ('s, 'e) driver"
    and kernel_ok :: "kernel \<Rightarrow> bool"
    and I :: "kernel \<Rightarrow> kfile list \<Rightarrow> 's \<Rightarrow> bool"
  assumes load_law: "kernel_ok K \<Longrightarrow> \<exists>r s. load (D K) = Some (r, s) \<and> (if r = 0 then I K [] s else \<forall>e. \<not> live (D K) e s)"
    and open_law: "kernel_ok K \<Longrightarrow> I K fs s \<Longrightarrow> minors (D K) ino \<Longrightarrow>
      \<exists>r f' s'. call_open (fops (D K)) ino f s = Some (r, f', s') \<and> I K (if r = 0 then f' # fs else fs) s'"
    and op_law: "kernel_ok K \<Longrightarrow> I K fs s \<Longrightarrow> f \<in> set fs \<Longrightarrow>
      \<exists>r s'. call_op V (fops (D K)) op f s = Some (r, s') \<and> I K fs s'"
    and release_law: "kernel_ok K \<Longrightarrow> I K fs s \<Longrightarrow> f \<in> set fs \<Longrightarrow>
      \<exists>s'. call_release (fops (D K)) ino f s = Some s' \<and> I K (remove1 f fs) s'"
    and intr_law: "kernel_ok K \<Longrightarrow> I K fs s \<Longrightarrow> \<exists>s'. intr (D K) e s = Some s' \<and> I K fs s'"
    and unload_law: "kernel_ok K \<Longrightarrow> I K fs s \<Longrightarrow> \<exists>s'. unload (D K) s = Some s' \<and> (\<forall>e. \<not> live (D K) e s')"
begin

text \<open>While the driver is loaded no event faults, and the invariant stays.\<close>

lemma exec_loaded:
  assumes K: "kernel_ok K" and x: "loaded x" "I K (files x) (dstate x)"
  shows "\<exists>y. dev_exec V (D K) e x = Some y \<and> (loaded y \<longrightarrow> I K (files y) (dstate y)) \<and>
    (\<not> loaded y \<longrightarrow> e = Unload \<and> files y = files x \<and> unloadable V (owner (fops (D K))) (length (files x)) \<and>
      (\<forall>i. \<not> live (D K) i (dstate y)))"
proof (cases e)
  case (Open ino f)
  then show ?thesis using open_law [OF K x(2), of ino f] x by (cases "minors (D K) ino") auto
next
  case (Op n op)
  then show ?thesis using op_law [OF K x(2), of "files x ! n" V op] x by (cases "n < length (files x)") auto
next
  case (Close n ino)
  then show ?thesis using release_law [OF K x(2), of "files x ! n" ino] x by (cases "n < length (files x)") auto
next
  case (Intr i)
  then show ?thesis using intr_law [OF K x(2), of i] x by auto
next
  case Unload
  then show ?thesis using unload_law [OF K x(2)] x by auto
qed

lemma run_loaded:
  assumes "kernel_ok K" and "Unload \<notin> set es" and "loaded x" and "I K (files x) (dstate x)"
  shows "\<exists>y. dev_run V (D K) es x = Some y \<and> loaded y \<and> I K (files y) (dstate y)"
  using assms(2-)
proof (induction es arbitrary: x)
  case (Cons e es)
  then show ?case using exec_loaded [OF assms(1) Cons.prems(2,3), of V e] by auto
qed simp

lemma run_absent: "\<not> loaded x \<Longrightarrow> files x = [] \<Longrightarrow> \<forall>i. \<not> live (D K) i (dstate x) \<Longrightarrow> dev_run V (D K) es x = Some x"
proof (induction es)
  case (Cons e es)
  then show ?case by (cases e) simp_all
qed simp

text \<open>A driver that is not unloaded never faults, whether its table names its module or not.\<close>

lemma boot_without_unload:
  assumes "kernel_ok K" and "Unload \<notin> set es"
  shows "\<exists>x. dev_boot V (D K) es = Some x"
proof -
  obtain r s where s: "load (D K) = Some (r, s)" "if r = 0 then I K [] s else \<forall>e. \<not> live (D K) e s"
    using load_law [OF assms(1)] by blast
  let ?x = "\<lparr>dstate = s, files = [], loaded = (r = 0)\<rparr>"
  have "\<exists>x. dev_run V (D K) es ?x = Some x"
    using s(2) run_loaded [OF assms, of ?x V] run_absent [of ?x K V es] by (cases "r = 0") auto
  then show ?thesis using s(1) by (simp add: dev_boot_def)
qed

end

locale owned_file_driver = file_driver +
  assumes owned: "owner (fops (D K))"
begin

lemma run_never_faults:
  assumes "kernel_ok K" and "counts_owner V"
    and "if loaded x then I K (files x) (dstate x) else files x = [] \<and> (\<forall>i. \<not> live (D K) i (dstate x))"
  shows "\<exists>y. dev_run V (D K) es x = Some y \<and>
    (if loaded y then I K (files y) (dstate y) else files y = [] \<and> (\<forall>i. \<not> live (D K) i (dstate y)))"
  using assms(3)
proof (induction es arbitrary: x)
  case (Cons e es)
  show ?case
  proof (cases "loaded x")
    case True
    then obtain y where "dev_exec V (D K) e x = Some y" "loaded y \<longrightarrow> I K (files y) (dstate y)"
        "\<not> loaded y \<longrightarrow> files y = files x \<and> unloadable V True (length (files x)) \<and> (\<forall>i. \<not> live (D K) i (dstate y))"
      using exec_loaded [OF assms(1) True, of V e] Cons.prems owned by auto
    then show ?thesis using Cons.IH [of y] assms(2) by (auto simp: counts_owner_def)
  next
    case False
    then show ?thesis using run_absent [of x K V "e # es"] Cons.prems by auto
  qed
qed simp

text \<open>
  A driver whose table names its module never faults, whatever happens and in whatever order, and it is there as long as
  one of its files is open.
\<close>

lemma boot_never_faults:
  assumes "kernel_ok K" and "counts_owner V"
  shows "\<exists>x. dev_boot V (D K) es = Some x \<and> (files x \<noteq> [] \<longrightarrow> loaded x)"
proof -
  obtain r s where s: "load (D K) = Some (r, s)" "if r = 0 then I K [] s else \<forall>e. \<not> live (D K) e s"
    using load_law [OF assms(1)] by blast
  then have "\<exists>y. dev_run V (D K) es \<lparr>dstate = s, files = [], loaded = (r = 0)\<rparr> = Some y \<and>
      (if loaded y then I K (files y) (dstate y) else files y = [] \<and> (\<forall>i. \<not> live (D K) i (dstate y)))"
    by (intro run_never_faults [OF assms]) simp
  then show ?thesis using s(1) by (auto simp: dev_boot_def split: if_splits)
qed

end

end
