(* ===== verification/Driver_tables.thy ===== *)
theory Driver_tables
  imports File_ops Kbd So2_cdev Timer_race Memory Nonmemory Packet
begin

text \<open>
  The operation tables of the six drivers, and each driver as the kernel sees it behind its table. Four tables name their
  module; those of \<open>memory.c\<close> and \<open>nonMemory.c\<close> do not.
\<close>

section \<open>The tables\<close>

definition kbd_fops :: "kernel \<Rightarrow> kbd_module file_operations" where
  "kbd_fops K = no_fops\<lparr>
     owner := True,
     open_op := Some (\<lambda>inode file s. let (r, file) = kbd_open inode file in Some (r, file, s)),
     release_op := Some (\<lambda>inode file s. Some (kbd_release inode file, s)),
     read_op := Some (\<lambda>file uBuff sz off s. map_option (\<lambda>(r, s). (r, off, s)) (kbd_read K file uBuff sz s)),
     write_op := Some (\<lambda>file uBuff sz off s. map_option (\<lambda>(r, s). (r, off, s)) (kbd_write K file uBuff sz s))\<rparr>"

definition so2_fops :: "kernel \<Rightarrow> so2_module file_operations" where
  "so2_fops K = no_fops\<lparr>
     owner := True,
     read_op := Some (so2_read K),
     open_op := Some (so2_open K),
     write_op := Some (so2_write K),
     release_op := Some (so2_release K)\<rparr>"

definition timer_fops :: "tasks \<Rightarrow> kernel \<Rightarrow> timer_module file_operations" where
  "timer_fops T K = no_fops\<lparr>
     owner := True,
     open_op := Some (\<lambda>inode file s. Some (timer_open K inode file s)),
     release_op := Some (\<lambda>inode file s. Some (timer_release K s)),
     unlocked_ioctl := Some (timer_ioctl dll K T)\<rparr>"

definition dev_fops :: "nat \<Rightarrow> kernel \<Rightarrow> mem_module file_operations" where
  "dev_fops psh K = no_fops\<lparr>
     mmap_op := Some (\<lambda>file vma s. Some (Memory.memory_mmap psh K vma s)),
     open_op := Some (\<lambda>inode file s. Some (Memory.memory_open K inode file s))\<rparr>"

definition nonmem_fops :: "nat \<Rightarrow> kernel \<Rightarrow> nonmem_module file_operations" where
  "nonmem_fops psh K = no_fops\<lparr>
     open_op := Some (\<lambda>inode file s. Some (Nonmemory.memory_open K inode file s)),
     release_op := Some (\<lambda>inode file s. Some (memory_release K s)),
     mmap_op := Some (\<lambda>file vma s. Nonmemory.memory_mmap psh K vma s)\<rparr>"

text \<open>The table of the \<open>/proc\<close> entry: three of its operations are the kernel's own and are named only.\<close>

record 's proc_ops =
  proc_open :: "'s \<Rightarrow> int \<times> 's"
  proc_read :: string
  proc_lseek :: string
  proc_release :: string

definition nonmem_proc_ops :: "kernel \<Rightarrow> nonmem_module proc_ops" where
  "nonmem_proc_ops K = \<lparr>proc_open = memory_seq_open K, proc_read = ''seq_read'', proc_lseek = ''seq_lseek'',
     proc_release = ''single_release''\<rparr>"

record 's nf_hook_ops =
  hook :: "sk_buff option \<Rightarrow> 's \<Rightarrow> u32 \<times> 's"
  pf :: string
  hooknum :: string
  priority :: string

definition packet_ops :: "kernel \<Rightarrow> packet_module nf_hook_ops" where
  "packet_ops K = \<lparr>hook = packet_hook K, pf = ''NFPROTO_IPV4'', hooknum = ''NF_INET_LOCAL_OUT'',
     priority = ''NF_IP_PRI_FIRST''\<rparr>"

text \<open>The argument of the ioctl is a number that the handler casts to a pointer.\<close>

definition packet_fops :: "kernel \<Rightarrow> packet_module file_operations" where
  "packet_fops K = no_fops\<lparr>
     owner := True,
     unlocked_ioctl := Some (\<lambda>f cmd arg s. Some (packet_ioctl K cmd (ptr_of (uint arg)) s))\<rparr>"

record 's miscdevice =
  minor :: string
  name :: string
  misc_fops :: "'s file_operations"

definition packet_dev :: "kernel \<Rightarrow> packet_module miscdevice" where
  "packet_dev K = \<lparr>minor = ''MISC_DYNAMIC_MINOR'', name = ''network_filter'', misc_fops = packet_fops K\<rparr>"

lemmas fops_defs = no_fops_def kbd_fops_def so2_fops_def timer_fops_def dev_fops_def nonmem_fops_def packet_fops_def

section \<open>The drivers\<close>

text \<open>
  Each driver with its init and exit function, and with what enters it otherwise: the keyboard interrupt, the timer and
  its work item, packets, and the reading of the \<open>/proc\<close> entry.
\<close>

text \<open>
  The registrations that let these in: the handler on the keyboard's interrupt line, the hook, the entry in \<open>/proc\<close>. The
  timer and the work item are those of \<open>Timer_race\<close>.
\<close>

definition irq_live :: "klog \<Rightarrow> bool" where
  "irq_live = registered
     (\<lambda>c r. case c of Port (Request_irq n h fl nm d) \<Rightarrow> n = I8042_KBD_IRQ \<and> d = kbd_dev_addr 0 \<and> r = 0 | _ \<Rightarrow> False)
     (\<lambda>c. c = Port (Free_irq I8042_KBD_IRQ (kbd_dev_addr 0)))"

definition hook_live :: "klog \<Rightarrow> bool" where
  "hook_live = registered (\<lambda>c r. c = Net (Nf_register_net_hook ''packet_ops'') \<and> 0 \<le> r)
     (\<lambda>c. c = Net (Nf_unregister_net_hook ''packet_ops''))"

definition proc_live :: "klog \<Rightarrow> bool" where
  "proc_live = registered (\<lambda>c r. c = Entry (Proc_create PROC_ENTRY_NAME) \<and> r \<noteq> 0)
     (\<lambda>c. c = Entry (Remove_proc_entry PROC_ENTRY_NAME))"

datatype timer_wake = Timer_fires | Work_runs
datatype proc_access = Proc_open | Proc_show "vm_area_struct list"

definition kbd_driver :: "kernel \<Rightarrow> (kbd_module, nat) driver" where
  "kbd_driver K = \<lparr>fops = kbd_fops K, load = Some (kbd_init K kbd_module0), unload = (\<lambda>s. Some (kbd_exit K s)),
     intr = (\<lambda>irq_no s. map_option snd (kbd_irq_handler K irq_no (kbd_dev_addr 0) s)), live = (\<lambda>irq_no s. irq_live (klog s)),
     minors = (\<lambda>ino. i_cdev ino \<in> set (map kbd_dev_addr [0..<KBD_NUM_MINORS]))\<rparr>"

definition so2_driver :: "kernel \<Rightarrow> (so2_module, unit) driver" where
  "so2_driver K = \<lparr>fops = so2_fops K, load = Some (so2_cdev_init K so2_module0), unload = (\<lambda>s. Some (so2_cdev_exit K s)),
     intr = (\<lambda>e s. Some s), live = (\<lambda>e s. False), minors = (\<lambda>ino. i_cdev ino \<in> set (map so2_dev_addr [0..<SO2_NUM_MINORS]))\<rparr>"

fun timer_intr :: "tasks \<Rightarrow> kernel \<Rightarrow> timer_wake \<Rightarrow> timer_module \<Rightarrow> timer_module option" where
  "timer_intr T K Timer_fires s = timer_handler dll K 0 s"
| "timer_intr T K Work_runs s = Some (work_handler K T s)"

fun timer_live :: "timer_wake \<Rightarrow> timer_module \<Rightarrow> bool" where
  "timer_live Timer_fires s = due (timer_addr 0) (klog s)"
| "timer_live Work_runs s = queued (work_addr 0) (klog s)"

definition timer_driver :: "tasks \<Rightarrow> kernel \<Rightarrow> (timer_module, timer_wake) driver" where
  "timer_driver T K = \<lparr>fops = timer_fops T K, load = deferred_init dll K timer_module0, unload = deferred_exit dll K,
     intr = timer_intr T K, live = timer_live, minors = (\<lambda>ino. i_cdev ino \<in> set (map dev_addr [0..<NUM_MINORS]))\<rparr>"

definition mem_driver :: "nat \<Rightarrow> kernel \<Rightarrow> (mem_module, unit) driver" where
  "mem_driver psh K = \<lparr>fops = dev_fops psh K, load = mydriver_init psh K mem_module0,
     unload = (\<lambda>s. Some (mydriver_exit psh K s)), intr = (\<lambda>e s. Some s), live = (\<lambda>e s. False),
     minors = (\<lambda>ino. i_cdev ino \<in> set (map mem_dev_addr [0..<MEM_NUM_MINORS]))\<rparr>"

fun nonmem_intr :: "kernel \<Rightarrow> proc_access \<Rightarrow> nonmem_module \<Rightarrow> nonmem_module option" where
  "nonmem_intr K Proc_open s = Some (snd (proc_open (nonmem_proc_ops K) s))"
| "nonmem_intr K (Proc_show vmas) s = Some (snd (memory_seq_show K vmas s))"

definition nonmem_driver :: "nat \<Rightarrow> kernel \<Rightarrow> (nonmem_module, proc_access) driver" where
  "nonmem_driver psh K = \<lparr>fops = nonmem_fops psh K, load = driver_initt psh K nonmem_module0,
     unload = driver_exit psh K, intr = nonmem_intr K, live = (\<lambda>e s. proc_live (klog s)),
     minors = (\<lambda>ino. i_cdev ino \<in> set (map nonmem_dev_addr [0..<NON_NUM_MINORS]))\<rparr>"

definition packet_driver :: "kernel \<Rightarrow> (packet_module, sk_buff option) driver" where
  "packet_driver K = \<lparr>fops = misc_fops (packet_dev K), load = Some (packet_init K packet_module0),
     unload = (\<lambda>s. Some (packet_exit K s)), intr = (\<lambda>skb s. Some (snd (hook (packet_ops K) skb s))),
     live = (\<lambda>skb s. hook_live (klog s)), minors = (\<lambda>ino. True)\<rparr>"

lemmas driver_defs = kbd_driver_def so2_driver_def timer_driver_def mem_driver_def nonmem_driver_def packet_driver_def
  packet_dev_def packet_ops_def

lemmas live_defs = irq_live_def hook_live_def proc_live_def

end
