(* ===== verification/Drivers.thy ===== *)
theory Drivers
  imports Driver_tables
begin

text \<open>
  The six drivers behind their tables. Each keeps the contract of \<open>File_ops\<close>, so that none faults through its files, its
  interrupt and its unloading, in whatever order they come, as long as it is not unloaded under an open file; once it is unloaded
  its interrupt line, timer, work item, hook or \<open>/proc\<close> entry no longer leads into it. The four
  that name their module are never unloaded under an open file; the other two are, and fault.
\<close>

section \<open>Each driver keeps the contract\<close>

text \<open>The keyboard driver relies on nothing: an open file points to one of the devices, and the buffers stay well formed.\<close>

definition kbd_files_ok :: "kfile list \<Rightarrow> kbd_module \<Rightarrow> bool" where
  "kbd_files_ok fs s \<longleftrightarrow> kbd_ok s \<and> (\<forall>f\<in>set fs. \<exists>i<KBD_NUM_MINORS. private_data f = kbd_dev_addr i)"

lemma kbd_init_devs: "kbd_init K s = (r, s') \<Longrightarrow> devs s' = devs s"
  by (auto simp: kbd_init_unfold NUM_MINORS_upt kcall_eq Let_def split: if_splits)

lemma kbd_init_failed: "kbd_init K kbd_module0 = (r, s') \<Longrightarrow> r \<noteq> 0 \<Longrightarrow> \<not> irq_live (klog s')"
  by (auto simp: kbd_init_unfold NUM_MINORS_upt kcall_eq Let_def irq_live_def log_simps kbd_module0_def split: if_splits)

lemma kbd_exit_off: "\<not> irq_live (klog (kbd_exit K s))"
  by (simp add: kbd_exit_def NUM_MINORS_upt irq_live_def log_simps Let_def)

lemma kbd_call_ok:
  assumes "kbd_files_ok fs s" and "f \<in> set fs"
  shows "\<exists>r s'. call_op V (kbd_fops K) op f s = Some (r, s') \<and> kbd_files_ok fs s'"
proof -
  obtain i where i: "private_data f = kbd_dev_addr i" "i < KBD_NUM_MINORS" using assms by (auto simp: kbd_files_ok_def)
  have ok: "kbd_ok s" using assms(1) by (simp add: kbd_files_ok_def)
  have "\<exists>r s'. kbd_read K f ub sz s = Some (r, s') \<and> kbd_ok s'" for ub sz
    unfolding kbd_read_def by (rule kbd_read_loop_ok [OF ok]) (simp add: i)
  moreover have "\<exists>r s'. kbd_write K f ub sz s = Some (r, s') \<and> kbd_ok s'" for ub sz
    by (rule kbd_write_ok [OF ok, of f i K ub sz]) (use i ok in \<open>auto simp: kbd_ok_def\<close>)
  ultimately show ?thesis
    using assms(1) by (cases op) (fastforce simp: fops_defs kbd_files_ok_def)+
qed

interpretation kbd_drv: owned_file_driver kbd_driver "\<lambda>K. True" "\<lambda>K. kbd_files_ok"
proof unfold_locales
  fix K
  obtain r s where "kbd_init K kbd_module0 = (r, s)" by fastforce
  then show "\<exists>r s. load (kbd_driver K) = Some (r, s) \<and>
      (if r = 0 then kbd_files_ok [] s else \<forall>e. \<not> live (kbd_driver K) e s)"
    using kbd_init_devs kbd_ok_same [OF kbd_module0_ok] kbd_init_failed by (fastforce simp: driver_defs kbd_files_ok_def)
next
  fix K e fs s assume s: "kbd_files_ok fs s"
  then have "kbd_ok s" "kbd_dev_index (kbd_dev_addr 0) s = Some 0"
    by (simp_all add: kbd_files_ok_def kbd_ok_def KBD_NUM_MINORS_def)
  then obtain s' where "kbd_irq_handler K e (kbd_dev_addr 0) s = Some (IRQ_NONE, s')" "kbd_ok s'" by (rule kbd_irq_ok)
  then show "\<exists>s'. intr (kbd_driver K) e s = Some s' \<and> kbd_files_ok fs s'"
    using s by (simp add: driver_defs kbd_files_ok_def)
qed (use kbd_call_ok kbd_exit_off in \<open>auto simp: driver_defs call_open_def call_release_def kbd_open_def kbd_release_def
      kbd_files_ok_def fops_defs dest: notin_set_remove1\<close>)

text \<open>The message device relies on copies that fill the buffer they are given; the open flags match the open files.\<close>

definition so2_files_ok :: "kfile list \<Rightarrow> so2_module \<Rightarrow> bool" where
  "so2_files_ok fs s \<longleftrightarrow> opens_ok (map private_data fs, s) \<and> length (devices s) = SO2_NUM_MINORS"

lemma so2_files_index:
  assumes "so2_files_ok fs s" and "f \<in> set fs"
  obtains i where "so2_dev_index (private_data f) s = Some i" "so2_ok s"
  using assms by (auto simp: so2_files_ok_def opens_ok_def)

lemma so2_files_step:
  assumes "so2_files_ok fs s" and "copy_from_user_fills K"
    and "so2_step K (map private_data fs, s) (map private_data fs', s')" and "length (devices s') = length (devices s)"
  shows "so2_files_ok fs' s'"
  using so2_step_ok [OF assms(3) _ assms(2)] assms(1,4) by (simp add: so2_files_ok_def)

lemma kfile_eq: "private_data f = private_data g \<longleftrightarrow> f = (g :: kfile)"
  by (cases f; cases g) simp

lemma map_private_remove1: "map private_data (remove1 f fs) = remove1 (private_data f) (map private_data (fs :: kfile list))"
  by (induction fs) (auto simp: kfile_eq)

lemma so2_call_ok:
  assumes "so2_files_ok fs s" and "f \<in> set fs" and "copy_from_user_fills K"
  shows "\<exists>r s'. call_op V (so2_fops K) op f s = Some (r, s') \<and> so2_files_ok fs s'"
proof -
  obtain i where i: "so2_dev_index (private_data f) s = Some i" "so2_ok s" using so2_files_index [OF assms(1,2)] .
  have f: "private_data f \<in> set (map private_data fs)" using assms(2) by simp
  have "\<exists>r off' s'. so2_read K f ub sz off s = Some (r, off', s') \<and> so2_files_ok fs s'" for ub sz off
    using so2_read_keeps [OF i(2,1), of K ub sz off] so2_files_step [OF assms(1,3) so2_step.reading [OF f]] by fastforce
  moreover have "\<exists>r off' s'. so2_write K f ub sz off s = Some (r, off', s') \<and> so2_files_ok fs s'" for ub sz off
    using so2_write_keeps [OF i(2,1) assms(3), of ub sz off] so2_files_step [OF assms(1,3) so2_step.writing [OF f]] by fastforce
  ultimately show ?thesis
    using assms(1) by (cases op) (fastforce simp: fops_defs)+
qed

lemma so2_open_ok:
  assumes "so2_files_ok fs s" and "minors (so2_driver K) ino" and "copy_from_user_fills K"
  shows "\<exists>r f' s'. so2_open K ino f s = Some (r, f', s') \<and> so2_files_ok (if r = 0 then f' # fs else fs) s'"
proof -
  obtain i where i: "so2_dev_index (i_cdev ino) s = Some i"
    using assms(1,2) by (auto simp: driver_defs so2_files_ok_def so2_dev_index_def so2_dev_addr_def)
  obtain r f' s' where s': "so2_open K ino f s = Some (r, f', s')" "length (devices s') = length (devices s)"
    using so2_open_eq [OF i refl, of K f] by (cases "isOpen (devices s ! i) = 0") auto
  have "so2_step K (map private_data fs, s) (map private_data (if r = 0 then f' # fs else fs), s')"
    using so2_step.opened [OF s'(1)] so2_step.refused [OF s'(1)] by simp
  then show ?thesis using s' so2_files_step [OF assms(1,3)] by blast
qed

lemma so2_release_ok:
  assumes "so2_files_ok fs s" and "f \<in> set fs" and "copy_from_user_fills K"
  shows "\<exists>r s'. so2_release K ino f s = Some (r, s') \<and> so2_files_ok (remove1 f fs) s'"
proof -
  obtain i where i: "so2_dev_index (private_data f) s = Some i" using so2_files_index [OF assms(1,2)] .
  have f: "private_data f \<in> set (map private_data fs)" using assms(2) by simp
  obtain r s' where s': "so2_release K ino f s = Some (r, s')" "length (devices s') = length (devices s)"
    using i by (simp add: so2_release_def)
  then show ?thesis
    using so2_files_step [OF assms(1,3), of "remove1 f fs"] so2_step.closing [OF f s'(1)] by (auto simp: map_private_remove1)
qed

interpretation so2_drv: owned_file_driver so2_driver copy_from_user_fills "\<lambda>K. so2_files_ok"
proof unfold_locales
  fix K
  obtain r s where "so2_cdev_init K so2_module0 = (r, s)" by fastforce
  then show "\<exists>r s. load (so2_driver K) = Some (r, s) \<and> (if r = 0 then so2_files_ok [] s else \<forall>e. \<not> live (so2_driver K) e s)"
    using so2_init_ok [of K s] by (auto simp: driver_defs so2_files_ok_def opens_ok_def)
next
  fix K fs s ino f assume "copy_from_user_fills K" "so2_files_ok fs s" "minors (so2_driver K) ino"
  then show "\<exists>r f' s'. call_open (fops (so2_driver K)) ino f s = Some (r, f', s') \<and> so2_files_ok (if r = 0 then f' # fs else fs) s'"
    using so2_open_ok [of fs s K ino f] by (simp add: call_open_def driver_defs fops_defs)
next
  fix K fs s f ino assume "copy_from_user_fills K" "so2_files_ok fs s" "f \<in> set fs"
  then show "\<exists>s'. call_release (fops (so2_driver K)) ino f s = Some s' \<and> so2_files_ok (remove1 f fs) s'"
    using so2_release_ok [of fs s f K ino] by (auto simp: call_release_def driver_defs fops_defs)
qed (use so2_call_ok in \<open>auto simp: driver_defs fops_defs\<close>)

text \<open>The timer driver relies on fresh allocations; its list and its references match.\<close>

definition timer_files_ok :: "kfile list \<Rightarrow> timer_module \<Rightarrow> bool" where
  "timer_files_ok fs s \<longleftrightarrow> (\<exists>xs. timer_ok xs s) \<and> set fs \<subseteq> {opened_file}"

lemma timer_init_failed: "deferred_init dll K timer_module0 = Some (r, s) \<Longrightarrow> r \<noteq> 0 \<Longrightarrow> \<not> timer_live e s"
  by (cases e) (auto simp: deferred_init_def kcall_eq Let_def bind_Some_conv timer_module0_def due_def queued_def
      time_calls_def kdo_klog split: if_splits)

lemma timer_exit_off:
  assumes "timer_ok xs s"
  shows "\<exists>s'. deferred_exit dll K s = Some s' \<and> (\<forall>e. \<not> timer_live e s')"
proof -
  obtain s' where s': "deferred_exit dll K s = Some s'"
      "time_calls (klog s') = time_calls (klog s) @ [Del_timer (timer_addr 0), Cancel_work_sync (work_addr 0)]"
    using header.deferred_exit_ok [OF assms, of K] by blast
  have "\<not> timer_live e s'" for e using s'(2) by (cases e) (simp_all add: due_def queued_def)
  then show ?thesis using s'(1) by blast
qed

interpretation timer_drv: owned_file_driver "timer_driver T" kmalloc_fresh "\<lambda>K. timer_files_ok" for T
proof unfold_locales
  fix K
  obtain r s where s: "deferred_init dll K timer_module0 = Some (r, s)" "r = 0 \<longrightarrow> timer_ok [] s"
    using header.deferred_init_ok [of K] by blast
  moreover have "\<not> timer_live e s" if "r \<noteq> 0" for e using timer_init_failed [OF s(1) that] .
  ultimately show "\<exists>r s. load (timer_driver T K) = Some (r, s) \<and>
      (if r = 0 then timer_files_ok [] s else \<forall>e. \<not> live (timer_driver T K) e s)"
    by (auto simp: driver_defs timer_files_ok_def)
next
  fix K V op fs s f assume "kmalloc_fresh K" "timer_files_ok fs s" "f \<in> set fs"
  then show "\<exists>r s'. call_op V (fops (timer_driver T K)) op f s = Some (r, s') \<and> timer_files_ok fs s'"
    using header.ioctl_ok [of _ s K T] by (cases op) (fastforce simp: driver_defs fops_defs timer_files_ok_def)+
next
  fix K fs s ino f assume "timer_files_ok fs s" "minors (timer_driver T K) ino"
  then show "\<exists>r f' s'. call_open (fops (timer_driver T K)) ino f s = Some (r, f', s') \<and>
      timer_files_ok (if r = 0 then f' # fs else fs) s'"
    by (cases f) (auto simp: driver_defs fops_defs call_open_def timer_open_def timer_files_ok_def opened_file_def
        NUM_MINORS_def timer_ok_def log_simps Let_def)
next
  fix K fs s f ino assume "timer_files_ok fs s" "f \<in> set fs"
  then show "\<exists>s'. call_release (fops (timer_driver T K)) ino f s = Some s' \<and> timer_files_ok (remove1 f fs) s'"
    by (auto simp: driver_defs fops_defs call_release_def timer_release_def timer_files_ok_def timer_ok_def log_simps
        dest: notin_set_remove1)
next
  fix K e fs s assume K: "kmalloc_fresh K" and s: "timer_files_ok fs s"
  have "timer_intr T K e s = timer_exec dll K T (case e of Timer_fires \<Rightarrow> Fired | Work_runs \<Rightarrow> Worked) s" by (cases e) simp_all
  then show "\<exists>s'. intr (timer_driver T K) e s = Some s' \<and> timer_files_ok fs s'"
    using header.exec_ok [OF _ K, of _ s T] s by (fastforce simp: driver_defs timer_files_ok_def)
next
  fix K fs s assume "timer_files_ok fs s"
  then show "\<exists>s'. unload (timer_driver T K) s = Some s' \<and> (\<forall>e. \<not> live (timer_driver T K) e s')"
    using timer_exit_off [of _ s K] by (fastforce simp: driver_defs timer_files_ok_def)
qed (simp add: driver_defs fops_defs)

text \<open>The packet filter has no fault to avoid.\<close>

interpretation packet_drv: owned_file_driver packet_driver "\<lambda>K. True" "\<lambda>K fs s. True"
proof unfold_locales
  fix K V op s and f :: kfile
  show "\<exists>r s'. call_op V (fops (packet_driver K)) op f s = Some (r, s') \<and> True"
    by (cases op) (auto simp: driver_defs fops_defs)
next
  fix K
  obtain r s where s: "packet_init K packet_module0 = (r, s)" by fastforce
  then have "r \<noteq> 0 \<Longrightarrow> \<not> hook_live (klog s)"
    by (auto simp: packet_init_def kcall_eq Let_def hook_live_def log_simps packet_module0_def print_def split: if_splits)
  then show "\<exists>r s. load (packet_driver K) = Some (r, s) \<and> (if r = 0 then True else \<forall>e. \<not> live (packet_driver K) e s)"
    using s by (simp add: driver_defs)
next
  fix K and s :: packet_module
  show "\<exists>s'. unload (packet_driver K) s = Some s' \<and> (\<forall>e. \<not> live (packet_driver K) e s')"
    by (simp add: driver_defs packet_exit_def hook_live_def log_simps Let_def)
qed (auto simp: driver_defs fops_defs call_open_def call_release_def)

text \<open>The two mapping drivers, on a kernel that gives them their memory. Their tables do not name the module.\<close>

interpretation mem_drv: file_driver "mem_driver psh" "\<lambda>K. \<exists>r. mem_answers psh r K" "\<lambda>K fs s. \<exists>r. has_block psh r s" for psh
proof unfold_locales
  fix K assume "\<exists>r. mem_answers psh r K"
  then show "\<exists>r s. load (mem_driver psh K) = Some (r, s) \<and>
      (if r = 0 then \<exists>r. has_block psh r s else \<forall>e. \<not> live (mem_driver psh K) e s)"
    using mydriver_init_loaded [of psh _ K mem_module0] by (fastforce simp: driver_defs)
next
  fix K V op s and f :: kfile assume "\<exists>r. has_block psh r s"
  then show "\<exists>r s'. call_op V (fops (mem_driver psh K)) op f s = Some (r, s') \<and> (\<exists>r. has_block psh r s')"
    by (cases op) (auto simp: driver_defs fops_defs Memory.memory_mmap_def Let_def kcall_eq)
qed (auto simp: driver_defs fops_defs call_open_def call_release_def Memory.memory_open_def Memory.logg_def)

lemma map_pages_area: "map_pages psh K vma is s = (r, s') \<Longrightarrow> vmalloc_area s' = vmalloc_area s"
  by (induction "is" arbitrary: s) (auto simp: Let_def kcall_eq split: if_splits)

lemma seq_show_area: "vmalloc_area (snd (memory_seq_show K vmas s)) = vmalloc_area s"
proof -
  have "vmalloc_area (snd (sum_vmas K vmas n t)) = vmalloc_area t" for n t
    by (induction vmas arbitrary: n t) (simp_all add: Let_def)
  then show ?thesis by (simp add: memory_seq_show_def kcall_eq Let_def split: prod.split) (metis snd_conv nonmem_sel(1))
qed

lemma nonmem_pages_ok: "vmalloc_area s \<noteq> Null \<Longrightarrow> \<exists>s'. at_pages psh K op is s = Some s' \<and> vmalloc_area s' = vmalloc_area s"
proof (induction "is" arbitrary: s)
  case (Cons i "is")
  then show ?case using Cons.IH [of "kdo K (Page (op (area_at s (of_nat (PAGE_SIZE psh * i))))) s"] by (simp add: at_page_def)
qed simp

interpretation nonmem_drv: file_driver "nonmem_driver psh" "\<lambda>K. psh \<le> 61 \<and> (\<exists>r. r \<noteq> 0 \<and> nonmem_answers r K)"
  "\<lambda>K fs s. vmalloc_area s \<noteq> Null" for psh
proof unfold_locales
  fix K assume "psh \<le> 61 \<and> (\<exists>r. r \<noteq> 0 \<and> nonmem_answers r K)"
  then obtain r where r: "nonmem_answers r K" "r \<noteq> 0" "psh \<le> 61" by blast
  have "held (klog nonmem_module0) = []" by (simp add: nonmem_module0_def held_def log_simps)
  then obtain s1 s2 where s: "driver_initt psh K nonmem_module0 = Some (0, s1)" "driver_exit psh K s1 = Some s2"
    using nonmem_round [OF r] by blast
  then have "vmalloc_area s1 \<noteq> Null"
    by (auto simp: driver_exit_def non_upt at_page_def Nonmemory.logg_def bind_Some_conv split: if_splits)
  then show "\<exists>r s. load (nonmem_driver psh K) = Some (r, s) \<and>
      (if r = 0 then vmalloc_area s \<noteq> Null else \<forall>e. \<not> live (nonmem_driver psh K) e s)"
    using s(1) by (simp add: driver_defs)
next
  fix K V op and s :: nonmem_module and f :: kfile assume K: "psh \<le> 61 \<and> (\<exists>r. r \<noteq> 0 \<and> nonmem_answers r K)" and s: "vmalloc_area s \<noteq> Null"
  have "\<exists>r s'. Nonmemory.memory_mmap psh K vma s = Some (r, s') \<and> vmalloc_area s' \<noteq> Null" for vma
    using s map_pages_area by (simp add: memory_mmap_eq [OF conjunct1 [OF K]]) (metis surj_pair)
  then show "\<exists>r s'. call_op V (fops (nonmem_driver psh K)) op f s = Some (r, s') \<and> vmalloc_area s' \<noteq> Null"
    using s by (cases op) (auto simp: driver_defs fops_defs)
next
  fix K e and s :: nonmem_module assume "vmalloc_area s \<noteq> Null"
  then show "\<exists>s'. intr (nonmem_driver psh K) e s = Some s' \<and> vmalloc_area s' \<noteq> Null"
    by (cases e) (simp_all add: driver_defs seq_show_area nonmem_proc_ops_def memory_seq_open_def kcall_eq)
next
  fix K and s :: nonmem_module assume "vmalloc_area s \<noteq> Null"
  then show "\<exists>s'. unload (nonmem_driver psh K) s = Some s' \<and> (\<forall>e. \<not> live (nonmem_driver psh K) e s')"
    by (simp add: driver_defs driver_exit_def Nonmemory.logg_def non_upt at_page_def proc_live_def log_simps)
qed (auto simp: driver_defs fops_defs call_open_def call_release_def Nonmemory.memory_open_def memory_release_def Nonmemory.logg_def Let_def)

section \<open>Properties\<close>

text \<open>
  C3: The keyboard, message, timer and packet drivers never fault and outlive their files: from loading on, for every
  sequence of opens, reads, writes, ioctls, mappings and closes on any of their files, of interrupts, timer expirations,
  work items and packets, and of attempts to unload, no handler faults, and none is called after the module is gone, neither through
  a file nor by an interrupt line, a timer, a work item or a hook that is still registered. The kernel counts an open file as a use
  of the module its table names, and each of these events is complete before the next one starts.
\<close>

theorem owned_drivers_outlive_their_files:
  assumes "counts_owner V" and "copy_from_user_fills K" and "kmalloc_fresh K"
  shows "(\<exists>x. dev_boot V (kbd_driver K) es1 = Some x \<and> (files x \<noteq> [] \<longrightarrow> loaded x)) \<and>
    (\<exists>x. dev_boot V (so2_driver K) es2 = Some x \<and> (files x \<noteq> [] \<longrightarrow> loaded x)) \<and>
    (\<exists>x. dev_boot V (timer_driver T K) es3 = Some x \<and> (files x \<noteq> [] \<longrightarrow> loaded x)) \<and>
    (\<exists>x. dev_boot V (packet_driver K) es4 = Some x \<and> (files x \<noteq> [] \<longrightarrow> loaded x))"
  by (intro conjI kbd_drv.boot_never_faults so2_drv.boot_never_faults timer_drv.boot_never_faults
      packet_drv.boot_never_faults assms TrueI)

text \<open>A kernel that counts references, and refuses the operations a table does not have.\<close>

definition linux_vfs :: vfs where
  "linux_vfs = \<lparr>absent = (\<lambda>op. - EINVAL), unloadable = (\<lambda>owned n. owned \<longrightarrow> n = 0)\<rparr>"

lemma linux_vfs_counts: "counts_owner linux_vfs"
  by (simp add: linux_vfs_def counts_owner_def)

theorem owned_drivers_outlive_their_files_witness:
  "counts_owner linux_vfs \<and> copy_from_user_fills bump_kernel \<and> kmalloc_fresh bump_kernel \<and>
   (\<exists>x. dev_boot linux_vfs (so2_driver bump_kernel)
      [Open so2_inode so2_file, Op 0 (VWrite (Heap 7) 5 0), Unload, Op 0 (VRead (Heap 9) 3 0), Close 0 so2_inode, Unload] = Some x)"
  using owned_drivers_outlive_their_files [OF linux_vfs_counts bump_copy_from_user bump_kmalloc_fresh] linux_vfs_counts
    bump_copy_from_user bump_kmalloc_fresh by blast

lemma mem_loaded_log:
  assumes "mem_answers psh r K"
  shows "held_mem (klog (mem_loaded psh K mem_module0)) = [RMem (Heap r)]" "remaps (klog (mem_loaded psh K mem_module0)) = []"
  by (simp_all add: mem_loaded_def mem_module0_def Let_def Memory.logg_def upt_pages log_simps mem_answersD [OF assms])
    (simp_all add: held_mem_def held_def remaps_def log_simps)

text \<open>
  C23: The table of \<open>memory.c\<close> does not name its module, so nothing keeps the driver from being unloaded while a process
  has its pages mapped: the file is still open and the mapping in place, but the block is freed, and the next operation on
  the file goes through a table that is gone. As long as it is not unloaded, no sequence of events makes it fault.
\<close>

theorem memory_unloaded_while_mapped:
  assumes "counts_owner V" and "mem_answers psh r K" and "\<And>h a f n. kret K h (Page (Remap_pfn_range a f n)) = 0"
    and "\<not> vm_end vma - vm_start vma > of_nat (NPAGES * PAGE_SIZE psh)"
  shows "\<exists>x pfn. dev_boot V (mem_driver psh K) [Open \<lparr>i_cdev = mem_dev_addr 0\<rparr> f, Op 0 (VMmap vma), Unload] = Some x \<and>
    length (files x) = 1 \<and> remaps (klog (dstate x)) = [(vm_start vma, pfn, vm_end vma - vm_start vma)] \<and>
    held_mem (klog (dstate x)) = [] \<and> dev_exec V (mem_driver psh K) (Op 0 op) x = None \<and>
    (Unload \<notin> set es \<longrightarrow> dev_boot V (mem_driver psh K) es \<noteq> None)"
proof -
  obtain m where m: "mydriver_init psh K mem_module0 = Some (0, (mem_loaded psh K mem_module0)\<lparr>kmem := m\<rparr>)"
      "has_block psh r ((mem_loaded psh K mem_module0)\<lparr>kmem := m\<rparr>)"
    using mydriver_init_loaded [OF assms(2)] by blast
  define s where "s = (mem_loaded psh K mem_module0)\<lparr>kmem := m\<rparr>"
  have s: "mydriver_init psh K mem_module0 = Some (0, s)" "kmalloc_ptr s = Heap r" "held_mem (klog s) = [RMem (Heap r)]"
      "remaps (klog s) = []"
    using m mem_loaded_log [OF assms(2)] by (simp_all add: s_def has_block_def)
  let ?v = "Page (Virt_to_phys (kmalloc_area s))"
  let ?s1 = "Memory.logg K ''memory_open called'' s"
  let ?pfn = "drop_bit psh (word_of_int (kret K (klog ?s1) ?v)) :: ulong"
  let ?s2 = "kdo K (Page (Remap_pfn_range (vm_start vma) ?pfn (vm_end vma - vm_start vma))) (kdo K ?v ?s1)"
  have "Memory.memory_mmap psh K vma ?s1 = (0, ?s2)"
    using assms(3,4) by (simp add: Memory.memory_mmap_def kcall_eq Let_def Memory.logg_def)
  moreover have "held_mem (klog (mydriver_exit psh K ?s2)) = []"
      "remaps (klog (mydriver_exit psh K ?s2)) = [(vm_start vma, ?pfn, vm_end vma - vm_start vma)]"
    using s by (simp_all add: mydriver_exit_def Memory.logg_def Let_def upt_pages log_simps)
  moreover have "Unload \<notin> set es \<Longrightarrow> dev_boot V (mem_driver psh K) es \<noteq> None"
    using mem_drv.boot_without_unload [of psh K es V] assms(2) by auto
  ultimately show ?thesis
    using assms(1) s(1)
    by (simp add: dev_boot_def driver_defs fops_defs call_open_def Memory.memory_open_def Let_def counts_owner_def
        MEM_NUM_MINORS_def)
qed

theorem memory_unloaded_while_mapped_witness:
  "counts_owner linux_vfs \<and> mem_answers 12 70000 mem_kernel \<and>
   (\<exists>x. dev_boot linux_vfs (mem_driver 12 mem_kernel)
      [Open \<lparr>i_cdev = mem_dev_addr 0\<rparr> \<lparr>private_data = Null\<rparr>, Op 0 (VMmap \<lparr>vm_start = 0, vm_end = 4096\<rparr>), Unload] = Some x \<and>
      length (files x) = 1 \<and> held_mem (klog (dstate x)) = [] \<and> remaps (klog (dstate x)) \<noteq> [])"
proof -
  have "kret mem_kernel h (Page (Remap_pfn_range a f n)) = 0" for h a f n by (simp add: mem_kernel_def)
  then show ?thesis
    using memory_unloaded_while_mapped [OF linux_vfs_counts mem_kernel_answers, of "\<lparr>vm_start = 0, vm_end = 4096\<rparr>"]
      linux_vfs_counts mem_kernel_answers by (fastforce simp: NPAGES_def PAGE_SIZE_def)
qed

text \<open>The table of \<open>nonMemory.c\<close> does not name its module either: the driver is unloaded under an open file.\<close>

theorem nonmem_unloaded_while_open:
  assumes "counts_owner V" and "nonmem_answers r K" and "r \<noteq> 0" and "psh \<le> 61"
  shows "\<exists>x. dev_boot V (nonmem_driver psh K) [Open \<lparr>i_cdev = nonmem_dev_addr 0\<rparr> f, Unload] = Some x \<and> length (files x) = 1 \<and>
    dev_exec V (nonmem_driver psh K) (Op 0 op) x = None"
proof -
  obtain r' s where s: "driver_initt psh K nonmem_module0 = Some (r', s)" "r' = 0 \<longrightarrow> vmalloc_area s \<noteq> Null"
    using nonmem_drv.load_law [of psh K] assms(2-4) by (fastforce simp: driver_defs)
  have "held (klog nonmem_module0) = []" by (simp add: nonmem_module0_def held_def log_simps)
  then have "r' = 0" using nonmem_round [OF assms(2-4)] s(1) by fastforce
  then have "vmalloc_area (Nonmemory.logg K ''[memory_open called]'' s) \<noteq> Null" using s(2) by (simp add: Nonmemory.logg_def)
  then obtain s2 where "driver_exit psh K (Nonmemory.logg K ''[memory_open called]'' s) = Some s2"
    using nonmem_drv.unload_law [of psh K] assms(2-4) by (auto simp: driver_defs)
  then show ?thesis
    using assms(1) s(1) \<open>r' = 0\<close>
    by (simp add: dev_boot_def driver_defs fops_defs call_open_def Nonmemory.memory_open_def Let_def counts_owner_def
        NON_NUM_MINORS_def)
qed

section \<open>A device that is open before it is ready\<close>

text \<open>
  \<open>mydriver_init\<close> of \<open>memory.c\<close> cut after the devices are added, from where on they can be opened: the block is
  allocated only afterwards. This is the path on which the device number was free.
\<close>

definition mem_init_live :: "kernel \<Rightarrow> mem_module \<Rightarrow> mem_module" where
  "mem_init_live K s =
     (let s = Memory.logg K ''memory driver has been loaded'' s;
          s = kdo K (Chrdev (Register_chrdev_region
                (MKDEV MEM_MAJOR_NUMBER MEM_MINOR_NUMBER) MEM_NUM_MINORS MEM_MODULE_NAME)) s
      in fold (\<lambda>i s.
             kdo K (Chrdev (Cdev_add (mem_dev_addr i) (MKDEV MEM_MAJOR_NUMBER MEM_MINOR_NUMBER) 1))
               (kdo K (Chrdev (Cdev_init (mem_dev_addr i) ''dev_fops'')) s)) [0..<MEM_NUM_MINORS] s)"

definition mem_init_rest :: "nat \<Rightarrow> kernel \<Rightarrow> mem_module \<Rightarrow> (int \<times> mem_module) option" where
  "mem_init_rest psh K s = do {
     let (r, s) = kcall K (Mem (Kmalloc ((NPAGES + 1) * PAGE_SIZE psh) ''GFP_KERNEL'')) s;
     let s = s\<lparr>kmalloc_ptr := ptr_of r\<rparr>;
     if kmalloc_ptr s = Null then Some (- ENOMEM, s)
     else do {
       let s = s\<lparr>kmalloc_area := PAGE_ALIGN psh (word_of_int r)\<rparr>;
       let s = fold (\<lambda>i s. kdo K (Page (SetPageReserved (area_addr (i * PAGE_SIZE psh) s))) s) [0..<NPAGES] s;
       s \<leftarrow> write_magic psh [0..<NPAGES] s;
       Some (0, s)
     }
   }"

lemma mydriver_init_split:
  assumes "mem_answers psh r K"
  shows "mydriver_init psh K s = mem_init_rest psh K (mem_init_live K s)"
  by (simp add: mydriver_init_def mem_init_rest_def mem_init_live_def Let_def kcall_eq mem_answersD [OF assms])

text \<open>
  A mapping made between \<open>cdev_add\<close> and the allocation succeeds, while the driver holds no memory: it shows the process
  the physical memory that belongs to the address 0.
\<close>

theorem memory_mapped_before_allocated:
  assumes "\<And>h a f n. kret K h (Page (Remap_pfn_range a f n)) = 0" and "\<And>h a. kret K h (Page (Virt_to_phys a)) = phys a"
    and "\<not> vm_end vma - vm_start vma > of_nat (NPAGES * PAGE_SIZE psh)"
  shows "held_mem (klog (mem_init_live K mem_module0)) = [] \<and>
    (\<exists>s'. Memory.memory_mmap psh K vma (mem_init_live K mem_module0) = (0, s') \<and>
      remaps (klog s') = [(vm_start vma, drop_bit psh (word_of_int (phys 0)), vm_end vma - vm_start vma)])"
proof -
  let ?s = "mem_init_live K mem_module0"
  have s: "kmalloc_area ?s = 0" "held_mem (klog ?s) = []" "remaps (klog ?s) = []"
    by (simp_all add: mem_init_live_def mem_module0_def Memory.logg_def upt_pages log_simps)
      (simp_all add: held_mem_def held_def remaps_def log_simps)
  then show ?thesis using assms by (simp add: Memory.memory_mmap_def kcall_eq Let_def log_simps)
qed

theorem memory_mapped_before_allocated_witness:
  "\<exists>s'. Memory.memory_mmap 12 mem_kernel \<lparr>vm_start = 0, vm_end = 4096\<rparr> (mem_init_live mem_kernel mem_module0) = (0, s') \<and>
     remaps (klog s') \<noteq> []"
  using memory_mapped_before_allocated [of mem_kernel "\<lambda>a. uint a - 65536" 12 "\<lparr>vm_start = 0, vm_end = 4096\<rparr>"]
  by (auto simp: mem_kernel_def NPAGES_def PAGE_SIZE_def)

end
