(* ===== verification/Kbd_readers.thy ===== *)
theory Kbd_readers
  imports Kbd
begin

text \<open>
  Several processes that read the keyboard device at the same time. Each runs the loop of \<open>kbd_read\<close> on a buffer of its
  own; the lock makes a turn of a loop atomic, so the device sees a sequence of turns of the processes in some order.
  \<open>read_turns\<close> runs such a sequence: process \<open>j\<close> reads at most \<open>sz j\<close> characters into the buffer \<open>ub j\<close>, and is either in its
  loop, with some characters read, or has returned. A process by itself does what \<open>kbd_read\<close> does (\<open>read_turns_alone\<close>).
\<close>

datatype reader = Reading size_t | Returned int

text \<open>One turn of a process: a turn of its loop, or the return at its end.\<close>

definition reader_turn :: "kernel \<Rightarrow> ptr \<Rightarrow> ptr \<Rightarrow> size_t \<Rightarrow> reader \<Rightarrow> kbd_module \<Rightarrow> (reader \<times> kbd_module) option" where
  "reader_turn K data ub sz st s =
     (case st of
        Returned r \<Rightarrow> Some (Returned r, s)
      | Reading rd \<Rightarrow>
          if rd < sz then do {
            (x, s) \<leftarrow> kbd_read_iter K data ub rd s;
            Some (case x of Inl r \<Rightarrow> Returned r | Inr n \<Rightarrow> Reading n, s)
          } else Some (Returned (sint rd), s))"

fun read_turns :: "kernel \<Rightarrow> ptr \<Rightarrow> (nat \<Rightarrow> ptr) \<Rightarrow> (nat \<Rightarrow> size_t) \<Rightarrow> nat list \<Rightarrow> (nat \<Rightarrow> reader) \<Rightarrow> kbd_module
    \<Rightarrow> ((nat \<Rightarrow> reader) \<times> kbd_module) option" where
  "read_turns K data ub sz [] st s = Some (st, s)"
| "read_turns K data ub sz (j # js) st s = do {
     (x, s) \<leftarrow> reader_turn K data (ub j) (sz j) (st j) s;
     read_turns K data ub sz js (st(j := x)) s
   }"

lemma read_turns_snoc:
  "read_turns K data ub sz (js @ [j]) st s = do {
     (st, s) \<leftarrow> read_turns K data ub sz js st s;
     (x, s) \<leftarrow> reader_turn K data (ub j) (sz j) (st j) s;
     Some (st(j := x), s)
   }"
  by (induction js arbitrary: st s) (simp_all add: split_def)

lemma read_turns_returned: "st j = Returned r \<Longrightarrow> read_turns K data ub sz (replicate n j) st s = Some (st, s)"
  by (induction n) (simp_all add: reader_turn_def fun_upd_idem)

lemma read_turns_loop:
  assumes "st j = Reading rd" and "unat rd + n = unat (sz j)" and "kbd_read_loop K n data (ub j) rd s = Some (r, s')"
  shows "read_turns K data ub sz (replicate (Suc n) j) st s = Some (st(j := Returned r), s')"
  using assms
proof (induction n arbitrary: rd st s)
  case 0
  then show ?case by (auto simp: reader_turn_def word_less_nat_alt)
next
  case (Suc n)
  obtain x s1 where x1: "kbd_read_iter K data (ub j) rd s = Some (x, s1)"
    using Suc.prems(3) by (auto simp: bind_Some_conv)
  then have "case x of Inl r' \<Rightarrow> r' = r \<and> s1 = s' | Inr m \<Rightarrow> kbd_read_loop K n data (ub j) m s1 = Some (r, s')"
    using Suc.prems(3) by (cases x) simp_all
  note x = x1 this
  have lt: "rd < sz j" using Suc.prems(2) by (simp add: word_less_nat_alt)
  show ?case
  proof (cases x)
    case (Inl r')
    then have "reader_turn K data (ub j) (sz j) (st j) s = Some (Returned r, s')"
      using x lt Suc.prems(1) by (simp add: reader_turn_def)
    then have "read_turns K data ub sz (replicate (Suc (Suc n)) j) st s =
        read_turns K data ub sz (replicate (Suc n) j) (st(j := Returned r)) s'"
      by (simp only: replicate_Suc read_turns.simps bind.bind_lunit prod.case)
    then show ?thesis using read_turns_returned [of "st(j := Returned r)" j r K data ub sz "Suc n" s'] by (simp only: fun_upd_same)
  next
    case (Inr m)
    have m: "m = rd + 1"
      using x(1) Inr by (auto simp: kbd_read_iter_def kcall_eq Let_def bind_Some_conv split: option.splits if_splits)
    have "unat rd + 1 \<le> unat (sz j)" using Suc.prems(2) by simp
    then have "unat m + n = unat (sz j)"
      using Suc.prems(2) unat_less_64 [of "sz j"] unat_plus_one_64 [of rd] by (simp add: m)
    then have "read_turns K data ub sz (replicate (Suc n) j) (st(j := Reading m)) s1 = Some ((st(j := Reading m))(j := Returned r), s')"
      by (intro Suc.IH [of _ m]) (use x(2) Inr in simp_all)
    moreover have "reader_turn K data (ub j) (sz j) (st j) s = Some (Reading m, s1)"
      using x(1) lt Suc.prems(1) Inr by (simp add: reader_turn_def)
    ultimately show ?thesis
      by (simp only: replicate_Suc [of "Suc n"] read_turns.simps bind.bind_lunit prod.case fun_upd_upd)
  qed
qed

text \<open>A process that has the device to itself, and has turns enough, returns what \<open>kbd_read\<close> returns, in the same state.\<close>

lemma read_turns_alone:
  assumes "st j = Reading 0" and "kbd_read K f (ub j) (sz j) s = Some (r, s')"
  shows "read_turns K (private_data f) ub sz (replicate (Suc (unat (sz j))) j) st s = Some (st(j := Returned r), s')"
  using read_turns_loop [of st j 0 "unat (sz j)" sz K "private_data f" ub s r s'] assms by (simp add: kbd_read_def)

section \<open>Who gets which character\<close>

text \<open>
  A history of the characters taken from the device: by which process, which character, and whether the store into the
  process's buffer succeeded. What process \<open>j\<close> has received and what it has lost.
\<close>

type_synonym takes = "(nat \<times> byte \<times> bool) list"

definition taken :: "takes \<Rightarrow> byte list" where "taken ts = map (fst \<circ> snd) ts"

definition received :: "nat \<Rightarrow> takes \<Rightarrow> byte list" where
  "received j ts = taken (filter (\<lambda>(k, c, ok). k = j \<and> ok) ts)"

definition lost :: "nat \<Rightarrow> takes \<Rightarrow> byte list" where
  "lost j ts = taken (filter (\<lambda>(k, c, ok). k = j \<and> \<not> ok) ts)"

lemma takes_simps [simp]:
  "taken [] = []" "received j [] = []" "lost j [] = []" "taken (ts @ [(k, c, ok)]) = taken ts @ [c]"
  "received j (ts @ [(k, c, ok)]) = received j ts @ (if k = j \<and> ok then [c] else [])"
  "lost j (ts @ [(k, c, ok)]) = lost j ts @ (if k = j \<and> \<not> ok then [c] else [])"
  by (simp_all add: taken_def received_def lost_def)

text \<open>
  What holds of a history after some turns, from the device contents \<open>cs\<close> and the buffers of the state \<open>s0\<close> on. A
  process in its loop has received as many characters as it counts and lost none; one that has returned has either
  received as many as it returned and lost none, or returned \<open>-EFAULT\<close> and lost exactly one.
\<close>

definition reader_ok :: "size_t \<Rightarrow> reader \<Rightarrow> byte list \<Rightarrow> byte list \<Rightarrow> bool" where
  "reader_ok sz st got gone \<longleftrightarrow> length got \<le> unat sz \<and>
     (case st of
        Reading n \<Rightarrow> unat n = length got \<and> gone = []
      | Returned r \<Rightarrow> r = sint (of_nat (length got) :: size_t) \<and> gone = [] \<or> r = - EFAULT \<and> length gone = 1)"

definition shared :: "(nat \<Rightarrow> ptr) \<Rightarrow> (nat \<Rightarrow> size_t) \<Rightarrow> kbd_module \<Rightarrow> nat \<Rightarrow> takes \<Rightarrow> (nat \<Rightarrow> reader) \<Rightarrow> kbd_module \<Rightarrow> bool" where
  "shared ub sz s0 i ts st s \<longleftrightarrow> pending (devs s0 ! i) = taken ts @ pending (devs s ! i) \<and>
     (\<forall>j. user_writes (ub j) (klog s) = user_writes (ub j) (klog s0) @ enumerate 0 (received j ts) \<and>
       reader_ok (sz j) (st j) (received j ts) (lost j ts))"

text \<open>One turn of a loop, seen by every process.\<close>

lemma turn_step:
  assumes "kbd_dev_index data s = Some i" and "kbd_sync (devs s ! i)" and "pending (devs s ! i) = c # cs"
  shows "\<exists>s' d ok. kbd_read_iter K data b n s = Some (if ok then Inr (n + 1) else Inl (- EFAULT), s') \<and>
    devs s' = (devs s)[i := d] \<and> kbd_sync d \<and> pending d = cs \<and>
    (\<forall>b'. user_writes b' (klog s') = user_writes b' (klog s) @ (if b' = b \<and> ok then [(unat n, c)] else []))"
proof -
  obtain d where d: "get_char (devs s ! i) = Some (Some c, d)" "kbd_sync d" "pending d = cs"
    using kbd_fifo.deq_Cons_law [OF assms(2,3)] by blast
  define s1 where "s1 = kdo K (Sync (Spin_unlock_irqrestore (kbd_lock_addr i)))
    ((kdo K (Sync (Spin_lock_irqsave (kbd_lock_addr i))) s)\<lparr>devs := (devs s)[i := d]\<rparr>)"
  show ?thesis
    using kbd_read_iter_eq [OF assms(1) d(1), of K b n] d(2,3)
    by (intro exI [of _ "kdo K (Mem (Put_user b (unat n) c)) s1"] exI [of _ d]
        exI [of _ "kret K (klog s1) (Mem (Put_user b (unat n) c)) = 0"])
      (auto simp: Let_def s1_def log_simps)
qed

lemma turn_idle:
  assumes "kbd_dev_index data s = Some i" and "kbd_sync (devs s ! i)" and "pending (devs s ! i) = []"
  shows "\<exists>s'. kbd_read_iter K data b n s = Some (Inl (sint n), s') \<and> devs s' = (devs s)[i := devs s ! i] \<and>
    (\<forall>b'. user_writes b' (klog s') = user_writes b' (klog s))"
  using kbd_read_iter_eq [OF assms(1) kbd_fifo.deq_Nil_law [OF assms(2,3)], of K b n]
  by (auto simp: Let_def log_simps)

lemma reader_turn_shared:
  assumes sh: "shared ub sz s0 i ts st s" and ub: "inj ub" and i: "kbd_dev_index data s = Some i" and sy: "kbd_sync (devs s ! i)"
  shows "\<exists>x s' ts'. reader_turn K data (ub j) (sz j) (st j) s = Some (x, s') \<and> shared ub sz s0 i ts' (st(j := x)) s' \<and>
    kbd_dev_index data s' = Some i \<and> kbd_sync (devs s' ! i)"
proof -
  have same: "\<exists>s' ts'. reader_turn K data (ub j) (sz j) (st j) s = Some (x, s') \<and> shared ub sz s0 i ts' (st(j := x)) s' \<and>
      kbd_dev_index data s' = Some i \<and> kbd_sync (devs s' ! i)"
    if "reader_turn K data (ub j) (sz j) (st j) s = Some (x, s')" "devs s' = devs s"
      "\<And>b. user_writes b (klog s') = user_writes b (klog s)" "reader_ok (sz j) x (received j ts) (lost j ts)" for x s'
    using that sh i sy by (intro exI [of _ s'] exI [of _ ts])
      (auto simp: shared_def kbd_dev_index_def split: ptr.splits if_splits)
  have ok: "reader_ok (sz j) (st j) (received j ts) (lost j ts)" using sh by (simp add: shared_def)
  show ?thesis
  proof (cases "st j")
    case (Returned r)
    then show ?thesis using same [of "Returned r" s] ok by (auto simp: reader_turn_def)
  next
    case (Reading n)
    then have n: "unat n = length (received j ts)" "lost j ts = []" "n = of_nat (length (received j ts))"
      using ok by (simp_all add: reader_ok_def) (metis of_nat_unat ucast_id)
    show ?thesis
    proof (cases "n < sz j")
      case False
      then show ?thesis
        using same [of "Returned (sint n)" s] ok Reading n by (auto simp: reader_turn_def reader_ok_def)
    next
      case True
      show ?thesis
      proof (cases "pending (devs s ! i)")
        case Nil
        obtain s' where "kbd_read_iter K data (ub j) n s = Some (Inl (sint n), s')" "devs s' = devs s"
            "\<And>b. user_writes b (klog s') = user_writes b (klog s)"
          using turn_idle [OF i sy Nil, of K "ub j" n] by auto
        then show ?thesis
          using same [of "Returned (sint n)" s'] ok Reading n True by (auto simp: reader_turn_def reader_ok_def)
      next
        case (Cons c cs)
        obtain s' d b where s': "kbd_read_iter K data (ub j) n s = Some (if b then Inr (n + 1) else Inl (- EFAULT), s')"
            "devs s' = (devs s)[i := d]" "kbd_sync d" "pending d = cs"
            "\<And>b'. user_writes b' (klog s') = user_writes b' (klog s) @ (if b' = ub j \<and> b then [(unat n, c)] else [])"
          using turn_step [OF i sy Cons, of K "ub j" n] by blast
        define x where "x = (if b then Reading (n + 1) else Returned (- EFAULT))"
        have "i < length (devs s)" by (rule kbd_dev_index_Some [OF i])
        then have idx: "kbd_dev_index data s' = Some i" "devs s' ! i = d"
          using i s'(2) by (auto simp: kbd_dev_index_def split: ptr.splits if_splits)
        have n1: "unat (n + 1) = unat n + 1" "unat n < unat (sz j)"
          using True unat_less_64 [of "sz j"] by (simp_all add: word_less_nat_alt unat_plus_one_64)
        have "reader_ok (sz k) ((st(j := x)) k) (received k (ts @ [(j, c, b)])) (lost k (ts @ [(j, c, b)]))" for k
          using sh n n1 by (cases "k = j") (auto simp: shared_def x_def reader_ok_def)
        moreover have "user_writes (ub k) (klog s') = user_writes (ub k) (klog s0) @ enumerate 0 (received k (ts @ [(j, c, b)]))" for k
          using sh s'(5) [of "ub k"] n(1) inj_eq [OF ub, of k j] by (auto simp: shared_def enumerate_append_eq)
        moreover have "pending (devs s0 ! i) = taken (ts @ [(j, c, b)]) @ pending (devs s' ! i)"
          using sh s'(4) idx(2) Cons by (simp add: shared_def)
        ultimately have "shared ub sz s0 i (ts @ [(j, c, b)]) (st(j := x)) s'" by (simp add: shared_def)
        moreover have "reader_turn K data (ub j) (sz j) (st j) s = Some (x, s')"
          using s'(1) Reading True by (simp add: reader_turn_def x_def)
        ultimately show ?thesis using idx s'(3) by blast
      qed
    qed
  qed
qed

lemma read_turns_shared:
  assumes "inj ub" and "kbd_dev_index data s = Some i" and "kbd_sync (devs s ! i)"
  shows "\<exists>st s' ts. read_turns K data ub sz js (\<lambda>j. Reading 0) s = Some (st, s') \<and> shared ub sz s i ts st s' \<and>
    kbd_dev_index data s' = Some i \<and> kbd_sync (devs s' ! i)"
proof (induction js rule: rev_induct)
  case Nil
  then show ?case
    using assms by (intro exI [of _ "\<lambda>j. Reading 0"] exI [of _ s] exI [of _ "[]"]) (simp add: shared_def reader_ok_def)
next
  case (snoc j js)
  then obtain st s' ts where "read_turns K data ub sz js (\<lambda>j. Reading 0) s = Some (st, s')" and sh: "shared ub sz s i ts st s'"
    "kbd_dev_index data s' = Some i" "kbd_sync (devs s' ! i)" by blast
  then show ?case using reader_turn_shared [OF sh(1) assms(1) sh(2,3), of K j] by (fastforce simp: read_turns_snoc)
qed


text \<open>
  A device with the characters \<open>a\<close> and \<open>b\<close> pending, and two processes that ask for three characters each, one of them with a
  buffer that cannot be written.
\<close>

definition two_pending :: kbd_module where
  "two_pending = \<lparr>klog = [], devs = [\<lparr>buff = 97 # 98 # replicate 98 0, putIdx = 2, getIdx = 0, cnt = 2\<rparr>]\<rparr>"

definition half_kernel :: kernel where
  "half_kernel = bump_kernel\<lparr>kret := (\<lambda>h c. case c of Mem (Put_user p n b) \<Rightarrow> if p = Heap 0 then 1 else 0 | _ \<Rightarrow> bump_ret h c)\<rparr>"

lemma two_pending_ok:
  "kbd_dev_index (kbd_dev_addr 0) two_pending = Some 0" "kbd_sync (devs two_pending ! 0)"
  "pending (devs two_pending ! 0) = [97, 98]" "user_writes b (klog two_pending) = []"
  by (simp_all add: two_pending_def kbd_sync_def kbd_wf_def pending_def BUFF_SIZE_def user_writes_def upt_rec)

text \<open>The run of this schedule.\<close>

lemma two_pending_run:
  "\<exists>st s'. read_turns half_kernel (kbd_dev_addr 0) (\<lambda>j. Heap (int j)) (\<lambda>j. 3) [1, 0, 1, 1, 0] (\<lambda>j. Reading 0) two_pending
     = Some (st, s') \<and> st 0 = Returned (- EFAULT) \<and> st 1 = Returned 1 \<and> cnt (devs s' ! 0) = 0 \<and>
     user_writes (Heap 1) (klog s') = [(0, 97)]"
  by (simp add: reader_turn_def kbd_read_iter_def kcall_eq Let_def two_pending_def get_char_def half_kernel_def BUFF_SIZE_def
      log_simps) (simp add: user_writes_def)


section \<open>A device nobody reads\<close>

text \<open>Keys pressed one after the other, with no read in between.\<close>

fun put_chars :: "byte list \<Rightarrow> kbd_dev \<Rightarrow> kbd_dev option" where
  "put_chars [] d = Some d"
| "put_chars (c # cs) d = do { d \<leftarrow> put_char d c; put_chars cs d }"

lemma put_chars_eq:
  assumes "length (buff d) = BUFF_SIZE" and "getIdx d = 0" and "cs \<noteq> []"
  shows "\<exists>p. put_chars cs d =
    Some (d\<lparr>buff := (buff d)[0 := last cs], putIdx := p, cnt := cnt d + of_nat (length cs)\<rparr>)"
  using assms
proof (induction cs arbitrary: d)
  case (Cons c cs)
  let ?d = "d\<lparr>buff := (buff d)[0 := c], putIdx := (putIdx d + 1) mod of_nat BUFF_SIZE, cnt := cnt d + 1\<rparr>"
  have put: "put_char d c = Some ?d" using Cons.prems by (simp add: put_char_def)
  show ?case
  proof (cases "cs = []")
    case True
    then show ?thesis using put by auto
  next
    case False
    then obtain p where "put_chars cs ?d = Some (?d\<lparr>buff := (buff ?d)[0 := last cs], putIdx := p, cnt := cnt ?d + of_nat (length cs)\<rparr>)"
      using Cons.IH [of ?d] Cons.prems by auto
    then show ?thesis using put False by (auto simp: add_ac)
  qed
qed simp

text \<open>
  C25: Keys that nobody reads. The store index never moves away from the read index, and the count has no limit: of any
  number of keys pressed on a fresh device only the last one is still there, at the front, and a reader gets zero bytes for
  the others. Beyond \<open>BUFF_SIZE\<close> keys the count exceeds the buffer, and the last key is delivered again every
  \<open>BUFF_SIZE\<close> characters.
\<close>

theorem kbd_unread_keys:
  assumes "cs \<noteq> []" and "length cs < 2 ^ 64"
  shows "\<exists>d. put_chars cs kbd_dev0 = Some d \<and> unat (cnt d) = length cs \<and>
    pending d = map (\<lambda>k. if k mod BUFF_SIZE = 0 then last cs else 0) [0..<length cs]"
proof -
  have b: "length (buff kbd_dev0) = BUFF_SIZE" "getIdx kbd_dev0 = 0" "cnt kbd_dev0 = 0" "buff kbd_dev0 = replicate BUFF_SIZE 0"
    by (simp_all add: kbd_dev0_def)
  obtain p where p: "put_chars cs kbd_dev0 =
      Some (kbd_dev0\<lparr>buff := (buff kbd_dev0)[0 := last cs], putIdx := p, cnt := cnt kbd_dev0 + of_nat (length cs)\<rparr>)"
    using put_chars_eq [OF b(1,2) assms(1)] by blast
  have n: "unat (of_nat (length cs) :: size_t) = length cs"
    using assms(2) by (simp add: unat_of_nat take_bit_nat_eq_self)
  have "(replicate BUFF_SIZE 0)[0 := last cs] ! (k mod BUFF_SIZE) = (if k mod BUFF_SIZE = 0 then last cs else 0)" for k
    by (simp add: nth_list_update)
  then show ?thesis
    using p b n by (simp add: pending_def)
qed

theorem kbd_unread_keys_witness:
  "\<exists>d. put_chars [97, 98, 99] kbd_dev0 = Some d \<and> pending d = [99, 0, 0]"
  using kbd_unread_keys [of "[97, 98, 99]"] by (auto simp: BUFF_SIZE_def upt_rec)

end
