(* ===== verification/Spec2Isabelle.thy ===== *)
theory Spec2Isabelle
  imports Kbd List_sym Kernel_list Kernel_list_full So2_cdev Tcpmod Udpmod Packet_user Memory_user Nonmemory Timer_race
    Timer_user Discipline Kernel_memory Demo_modules Drivers Kbd_readers
begin

text \<open>
  A verification of the drivers and kernel modules of this repository and of the programs that use them.

  \<^bold>\<open>The program.\<close> \<open>src/Drivers\<close> holds five character drivers (keyboard, message device, mapping of contiguous and of
  non-contiguous kernel memory, deferred work with a timer), \<open>src/KernelModules\<close> seventeen modules: four around the
  kernel's linked lists (one of them exports its list and a second one uses the exports), three around sockets and
  netfilter, and small exercises. Three of them come with C++ programs that use them from user space. The modules meet in the
  kernel: through the device numbers they register, through the symbols \<open>list-sync.c\<close> exports to \<open>list-sym.c\<close>, and
  through interrupts, timers and system calls that call their handlers in any order.

  \<^bold>\<open>How it is modelled.\<close> A module's state is a record of its static variables; its functions are definitions of the
  same names on that record. A function that can run into undefined behaviour or a kernel oops is in the option monad,
  \<open>None\<close> being the fault; one that cannot is a plain function. An access that leaves an array is such a fault: of the circular
  buffer (Kbd), of the message buffer, also by a block copy (So2\_cdev), of the bytes requested from \<open>kmalloc\<close>, whose
  number \<open>block_len\<close> reads off the logged request (Memory). Integers have the width they have in C on the 64-bit
  target. Error numbers are the negative integers of the kernel. Format strings are written without a final newline.
  A loop whose end is not a matter of its form is a \<open>partial_function (option)\<close>, and that it ends is proved: the list
  macros (\<open>list_for_each_rule\<close>, \<open>list_for_each_safe_rule\<close>), the mapping loop of \<open>nonMemory.c\<close> (\<open>mmap_loop_eq\<close>), the walk
  over the processes (\<open>for_each_process_ok\<close>). No definition takes fuel; \<open>kbd_read_loop\<close> counts down the requested
  length as the code does.

  \<^bold>\<open>What is a parameter.\<close> The kernel is not part of the repository. It is the argument \<open>K\<close> of every operation that calls
  it: two functions that give, from the history of calls and the call, the returned value and the delivered bytes
  (theory Kernel). Every call is logged, and what a module holds, has printed, has locked or has armed is read off its
  log. A theorem that relies on documented behaviour of the kernel names it: \<open>kmalloc_fresh\<close> (an allocation does not
  overlap what is in use), \<open>copy_from_user_fills\<close>, \<open>chrdev_exclusive\<close>, \<open>sock_stores\<close>, \<open>linear_map\<close>, \<open>task_ring\<close>,
  \<open>vmas_sorted\<close>; \<open>kmalloc_succeeds\<close> and the \<open>_answers\<close> predicates are conditions of the moment, for theorems about one run;
  the theorems about all reachable states do not assume that allocations succeed or that user memory can be written. Each
  hypothesis is shown to hold of a concrete kernel where a theorem uses it. The list header \<open>linux/list.h\<close> is a parameter too: the locale
  \<open>list_h\<close> is its contract, and the usual doubly linked implementation \<open>dll\<close> interprets it. The tick rate, the task
  structures and the page size are arguments. So is the system-call interface the C++ programs run on (\<open>'w os\<close> in User\_space):
  the locales \<open>timer_node\<close>, \<open>packet_host\<close> and \<open>memory_node\<close> say that it runs the handlers of the driver behind the file and
  what else they rely on (of the network: what a call sends passes the filter, and a TCP connection that was made has sent a SYN
  packet to its address), and each is interpreted by a system built on the model of that driver.

  \<^bold>\<open>The theories.\<close>
  \<^item> Prelude: C types, error numbers, pointers, rewrite collections, shared lemmas. Kernel: the calls, the log and
    its queries (resources held and over-released, locks, prints, timers armed), the hypotheses about the kernel.
  \<^item> Module\_contract: the contract of a module that can be loaded and unloaded any number of times, a locale that
    Memory, Nonmemory and Udpmod interpret.
  \<^item> Fifo, Kbd: \<open>Drivers/kbd/kbd.c\<close>. Fifo is the contract of a bounded queue as a locale; the circular buffer meets it for
    one pending character and provably not for two. Reachable states over interrupts, reads and writes; invariant of the
    indices; what a read delivers on every path; the scancode table; loading and unloading. Kbd\_readers: several processes
    that read the device at once share its characters out, and what becomes of keys that nobody reads.
  \<^item> Klist, Store: the list header, the two loop macros with their proof rules, and the store of a list module (links,
    allocated structures, log) with the invariant \<open>store_ok\<close> that all list modules are proved over.
  \<^item> List\_sync, List\_sym: \<open>list-sync.c\<close> and its client \<open>list-sym.c\<close>. The critical sections are atomic steps of an
    inductive relation over any number of callers; each function refines an operation on an abstract list; the exports
    are a locale (\<open>exported_list\<close>) interpreted by \<open>list-sync.c\<close> and used for the client.
  \<^item> Kernel\_list, Kernel\_list\_full: \<open>list.c\<close> and \<open>list-full.c\<close>.
  \<^item> So2\_cdev: \<open>Drivers/so2_cdev/kernel/so2_cdev.c\<close>: single opener, no overrun, round trip of a message.
  \<^item> Pages, Memory, Nonmemory: \<open>Drivers/memory\<close> and \<open>Drivers/nonConMemory\<close>: the mapped area lies in the allocated block,
    mappings are bounded and show the area, the \<open>/proc\<close> report counts the caller's addresses.
  \<^item> Timer: \<open>Drivers/deferredTimer/kernel/timer.c\<close> with \<open>deferred.h\<close>: task references and memory match the list in every
    reachable state; exactly the dead processes are reaped; delays modulo \<open>2 ^ 64\<close>. Timer\_race: the same driver at a
    finer grain: what is left to run after unloading, by the moment at which a running handler gets to its \<open>schedule_work\<close>
    (\<open>exit_around\<close>), a handler that goes on in its loop while the module is unloaded, a device that is opened before it is ready, and which task structures are
    touched without protection.
  \<^item> Sleeping, Discipline: code that holds a spinlock and interrupt handlers must not sleep. The rule as a query of the log, how the list
    macros keep it, and that the keyboard driver, the synchronised list (for every interleaving of its callers) and the timer
    driver obey it; \<open>sched-spin.c\<close> (in Demo\_modules) breaks it on purpose.
  \<^item> User\_space, Timer\_user, Packet\_user, Memory\_user: the C++ programs of the timer, packet and memory drivers, with exceptions as
    values, and each composed with its driver: what a command line does to the timer and to the list of
    monitored processes, which connections are reported, which bytes are printed.
  \<^item> Netlib, Tcpmod, Udpmod, Packet: \<open>print.h\<close> and the three socket modules.
  \<^item> Kernel\_memory, Demo\_modules: \<open>kernelMemory.c\<close>, \<open>kernelAlloc-mod.c\<close> and the small modules.
  \<^item> File\_ops, Driver\_tables, Drivers: the operation tables (\<open>struct file_operations\<close>, \<open>proc_ops\<close>, \<open>nf_hook_ops\<close>,
    \<open>miscdevice\<close>) of the six drivers and each driver behind its table. File\_ops states what a driver owes the kernel as the
    locale \<open>file_driver\<close>, extended by \<open>owned_file_driver\<close> for a table that names its module, and proves once what follows for any
    sequence of file operations, interrupts and attempts to unload (\<open>dev_boot\<close>). A source of interrupts, timer expirations, work or
    packets that an exit function or a failed load leaves registered, read off the log by the driver's \<open>live\<close>, calls code that is gone,
    a fault; Drivers interprets the locales on all six.
    The kernel's side of a table is a parameter \<open>V\<close>; \<open>counts_owner\<close> is the documented reference count on the module.
  \<^item> This theory: the five drivers together. They all ask for device number 42:0, so one excludes the others.

  \<^bold>\<open>Flaws.\<close> Several theorems state behaviour the code is not likely to intend, each with the exact condition: the
  keyboard buffer stores at its read index (\<open>kbd_store_overwrites_oldest\<close>), ports that are released too often, check and
  insertion that are two critical sections (\<open>list_sync_duplicate_race\<close>), faults after failed allocations, leaks on error
  paths, a read and a write that report more than they did (\<open>so2_read_overreports\<close>, \<open>so2_write_overreports\<close>), a monitor that looks once
  (\<open>timer_reaps_exactly_dead\<close>), a task that is pinned too late (\<open>timer_task_pinned_too_late\<close>), an exit function that does
  not wait for the handler (\<open>timer_exit_races_with_handler\<close>, \<open>timer_exit_leaves_work_iff\<close>), a delay nobody passes (\<open>timer_user_alloc_delay_undefined\<close>), stale
  kernel memory shown to user space (\<open>memory_user_reads_stale_memory\<close>), drivers that can be unloaded while their device is open
  (\<open>memory_unloaded_while_mapped\<close>, \<open>nonmem_unloaded_while_open\<close>), devices that can be opened before they are ready
  (\<open>timer_open_before_ready\<close>, \<open>memory_mapped_before_allocated\<close>), keys that nobody reads (\<open>kbd_unread_keys\<close>).

  \<^bold>\<open>Bounds.\<close> The index invariant of the keyboard buffer is stated for fewer than \<open>2 ^ 64\<close> events, the width of its counter.
  The page shift is between 2 and 63 for \<open>memory.c\<close> (four marker bytes fit in a page) and at most 61 for \<open>nonMemory.c\<close>
  (three pages and one more fit in the address space).

  An \<open>int\<close> has 32 bits and a \<open>long\<close> 64; the end-to-end delay of the timer program is stated for tick rates below \<open>2 ^ 32\<close>, and the
  memory program, which asks for 4096 bytes, for pages of that size.

  \<^bold>\<open>Not modelled.\<close> \<open>someRandomApp.c\<close>, which is empty; build files. Inside a critical section the modules are sequential:
  interleaving is modelled between critical sections (\<open>list-sync.c\<close>), between handlers (keyboard, timer), between turns of
  concurrent reads (keyboard), between the timer handler and the exit function, and between the init function and the first open;
  in \<open>Timer\<close> itself and in \<open>File_ops\<close> events are atomic. An operation on a file of a module that is gone is a fault; what the freed
  memory would hold is not modelled. What the kernel's own entries of the \<open>/proc\<close> table do (\<open>seq_read\<close>, \<open>seq_lseek\<close>,
  \<open>single_release\<close>) is not modelled, they are named only. The hardware caches and the memory model of
  the machine are not modelled. The names of tasks are numbers the kernel gives in the messages of \<open>timer.c\<close>. The programs' buffered output is
  the list of what they wrote, also when they end by an exception.
\<close>

section \<open>Drivers that share a device number\<close>

text \<open>
  The five character drivers run one after the other on one kernel: the log of one is the history the kernel has when
  the next one is loaded. \<open>loads K psh h0 h\<close>: with the history \<open>h0\<close> one of them was loaded successfully, which made
  the history \<open>h\<close>.
\<close>

inductive loads :: "kernel \<Rightarrow> nat \<Rightarrow> klog \<Rightarrow> klog \<Rightarrow> bool" for K psh where
  kbd: "kbd_init K s = (0, s') \<Longrightarrow> loads K psh (klog s) (klog s')"
| so2: "so2_cdev_init K s = (0, s') \<Longrightarrow> loads K psh (klog s) (klog s')"
| memory: "mydriver_init psh K s = Some (0, s') \<Longrightarrow> loads K psh (klog s) (klog s')"
| nonmemory: "driver_initt psh K s = Some (0, s') \<Longrightarrow> loads K psh (klog s) (klog s')"
| deferred: "deferred_init dll K s = Some (0, s') \<Longrightarrow> loads K psh (klog s) (klog s')"

lemma held_kdo_keeps: "x \<in> set (held (klog s)) \<Longrightarrow> loss c \<noteq> Some x \<Longrightarrow> x \<in> set (held (klog (kdo K c s)))"
  by (auto simp: held_kdo in_set_remove1 split: option.splits)

lemma held_kdo_region:
  "kret K (klog s) (Chrdev (Register_chrdev_region d n nm)) = 0 \<Longrightarrow>
    RRegion d n \<in> set (held (klog (kdo K (Chrdev (Register_chrdev_region d n nm)) s)))"
  by (simp add: held_kdo)

lemmas device_numbers = KBD_MAJOR_NUMBER_def KBD_MINOR_NUMBER_def KBD_NUM_MINORS_def
  SO2_MAJOR_NUMBER_def SO2_MINOR_NUMBER_def SO2_NUM_MINORS_def MEM_MAJOR_NUMBER_def MEM_MINOR_NUMBER_def MEM_NUM_MINORS_def
  NON_MAJOR_NUMBER_def NON_MINOR_NUMBER_def NON_NUM_MINORS_def MAJOR_NUMBER_def MINOR_NUMBER_def NUM_MINORS_def

lemma write_magic_klog: "write_magic psh js s = Some s' \<Longrightarrow> klog s' = klog s"
  by (induction psh js s rule: write_magic.induct) (auto simp: bind_Some_conv poke_def split: if_splits)

lemma set_reserved_keeps:
  "at_pages psh K SetPageReserved is s = Some s' \<Longrightarrow> x \<in> set (held (klog s)) \<Longrightarrow> x \<in> set (held (klog s'))"
  by (induction "is" arbitrary: s) (auto simp: bind_Some_conv at_page_def held_kdo split: if_splits)

text \<open>The device number stays registered through the rest of each load.\<close>

lemma klog_frames [simp]:
  "klog (set_device i d s2) = klog s2" for s2
  by (simp add: set_device_def)

lemma loads_holds_region:
  assumes "loads K psh h0 h"
  shows "RRegion (MKDEV 42 0) 1 \<in> set (held h)"
  using assms
proof cases
  case (kbd s s')
  then show ?thesis
    by (auto simp: kbd_init_def device_numbers Let_def kcall_eq releaseDataPort_def releaseStatusPort_def init_minors_def
        request_irqs_def EBUSY_def intro!: held_kdo_keeps held_kdo_region split: if_splits)
next
  case (so2 s s')
  then show ?thesis
    by (auto simp: so2_cdev_init_def device_numbers Let_def kcall_eq intro!: held_kdo_keeps held_kdo_region split: if_splits)
next
  case (memory s s')
  then show ?thesis
    by (auto simp: mydriver_init_def Memory.logg_def device_numbers Let_def kcall_eq bind_Some_conv upt_pages ENOMEM_def
        simp del: write_magic.simps dest!: write_magic_klog intro!: held_kdo_keeps held_kdo_region split: if_splits)
next
  case (nonmemory s s')
  then show ?thesis
    by (auto simp: driver_initt_def Nonmemory.logg_def device_numbers Let_def kcall_eq bind_Some_conv
        intro!: held_kdo_keeps held_kdo_region elim!: set_reserved_keeps split: if_splits)
next
  case (deferred s s')
  then show ?thesis
    by (auto simp: deferred_init_def device_numbers Let_def kcall_eq bind_Some_conv intro!: held_kdo_keeps held_kdo_region split: if_splits)
qed

lemma region_refused:
  assumes "chrdev_exclusive K" and "RRegion (MKDEV 42 0) 1 \<in> set (held h)"
  shows "kret K h (Chrdev (Register_chrdev_region (MKDEV 42 0) (Suc 0) nm)) = - EBUSY"
proof -
  have "overlaps (MKDEV 42 0, 1) (MKDEV 42 0, 1)" by (simp add: overlaps_def MKDEV_def)
  then show ?thesis using assms unfolding chrdev_exclusive_def by (metis One_nat_def)
qed

lemma region_refused_kdo:
  assumes "chrdev_exclusive K" and "RRegion (MKDEV 42 0) 1 \<in> set (held (klog s))"
  shows "kret K (klog (kdo K (Print p) s)) (Chrdev (Register_chrdev_region (MKDEV 42 0) (Suc 0) nm)) = - EBUSY"
    "kret K (klog (kdo K (Entry (Proc_create e)) (kdo K (Print p) s))) (Chrdev (Register_chrdev_region (MKDEV 42 0) (Suc 0) nm)) = - EBUSY"
  using assms(2) by (auto intro!: region_refused [OF assms(1)] held_kdo_keeps)

text \<open>
  C32: All five character drivers ask for the same device number. Once one of them is loaded, loading any of the others
  fails with \<open>EBUSY\<close>, whatever their own state is: at most one of them can be in use at a time.
\<close>

theorem drivers_exclude_each_other:
  assumes "chrdev_exclusive K" and "loads K psh h0 h"
  shows "(\<forall>s\<in>{s. klog s = h}. fst (kbd_init K s) = - EBUSY) \<and>
    (\<forall>s\<in>{s. klog s = h}. fst (so2_cdev_init K s) = - EBUSY) \<and>
    (\<forall>s\<in>{s. klog s = h}. map_option fst (mydriver_init psh K s) = Some (- EBUSY)) \<and>
    (\<forall>s\<in>{s. klog s = h}. map_option fst (driver_initt psh K s) = Some (- EBUSY)) \<and>
    (\<forall>s\<in>{s. klog s = h}. map_option fst (deferred_init dll K s) = Some (- EBUSY))"
proof -
  note x = loads_holds_region [OF assms(2)]
  have kbd: "fst (kbd_init K s) = - EBUSY" if "klog s = h" for s
    using that region_refused_kdo [OF assms(1), of s] x by (simp add: kbd_init_def device_numbers Let_def kcall_eq EBUSY_def)
  have so2: "fst (so2_cdev_init K s) = - EBUSY" if "klog s = h" for s
    using that region_refused [OF assms(1) x] by (simp add: so2_cdev_init_def device_numbers kcall_eq EBUSY_def)
  have mem: "map_option fst (mydriver_init psh K s) = Some (- EBUSY)" if "klog s = h" for s
    using that region_refused_kdo [OF assms(1), of s] x
    by (simp add: mydriver_init_def Memory.logg_def device_numbers kcall_eq EBUSY_def)
  have non: "map_option fst (driver_initt psh K s) = Some (- EBUSY)" if "klog s = h" for s
    using that region_refused_kdo [OF assms(1), of s] x
    by (simp add: driver_initt_def Nonmemory.logg_def device_numbers kcall_eq EBUSY_def)
  have "map_option fst (deferred_init dll K s) = Some (- EBUSY)" if "klog s = h" for s
    using that region_refused [OF assms(1) x] by (simp add: deferred_init_def device_numbers kcall_eq EBUSY_def)
  then show ?thesis using kbd so2 mem non by blast
qed

theorem drivers_exclude_each_other_witness:
  "chrdev_exclusive bump_kernel \<and> (\<exists>h. loads bump_kernel 12 [] h \<and>
     fst (kbd_init bump_kernel (kbd_module0\<lparr>klog := h\<rparr>)) = - EBUSY)"
proof -
  have "held [] = []" by (simp add: held_def log_simps)
  then obtain s' where "so2_cdev_init bump_kernel so2_module0 = (0, s')"
    by (simp add: so2_cdev_init_def kcall_eq so2_module0_def)
  then have l: "loads bump_kernel 12 [] (klog s')" using loads.so2 [of bump_kernel so2_module0] by (simp add: so2_module0_def)
  have "\<forall>s\<in>{s. klog s = klog s'}. fst (kbd_init bump_kernel s) = - EBUSY"
    using drivers_exclude_each_other [OF bump_chrdev_exclusive l] by blast
  then have "fst (kbd_init bump_kernel (kbd_module0\<lparr>klog := klog s'\<rparr>)) = - EBUSY" by simp
  then show ?thesis using l bump_chrdev_exclusive by blast
qed

end
